theory Spec2Isabelle
  imports Complex_Main "HOL-Library.Multiset"
begin

section \<open>The seed dataset and the configuration\<close>

text \<open>
  The interfaces of the seeding script (\<^verbatim>\<open>Category\<close>, \<^verbatim>\<open>Customization\<close>,
  \<^verbatim>\<open>MenuItem\<close>, \<^verbatim>\<open>DummyData\<close>) as records. Field names that several
  interfaces share carry a prefix (\<open>cat_\<close>, \<open>cus_\<close>, \<open>data_\<close>); a JavaScript
  \<^verbatim>\<open>number\<close> is only ever passed through, and is a \<open>real\<close> here.
\<close>

record Category =
  cat_name :: string
  cat_description :: string

record Customization =
  cus_name :: string
  cus_price :: real
  cus_type :: string

record MenuItem =
  name :: string
  description :: string
  image_url :: string
  price :: real
  rating :: real
  calories :: real
  protein :: real
  category_name :: string
  customizations :: "string list"

record DummyData =
  data_categories :: "Category list"
  data_customizations :: "Customization list"
  data_menu :: "MenuItem list"

text \<open>
  \<^verbatim>\<open>appwriteConfig\<close> and the dataset \<^verbatim>\<open>dummyData\<close> are imported from modules that
  are not part of the sources at hand; both are parameters of the model.
\<close>

record appwriteConfig =
  databaseId :: string
  bucketId :: string
  categoriesCollectionId :: string
  customizationsCollectionId :: string
  menuCollectionId :: string
  menuCustomizationsCollectionId :: string

section \<open>Values exchanged with the SDK\<close>

text \<open>
  Whatever a \<^verbatim>\<open>catch\<close> clause can receive: an exception of the SDK, which carries a
  numeric \<^verbatim>\<open>code\<close>, or a plain JavaScript error, which carries none.
\<close>

datatype error =
    AppwriteException int string string
  | Error string

fun err_code :: "error \<Rightarrow> int option" where
  "err_code (AppwriteException c t m) = Some c"
| "err_code (Error m) = None"

fun err_type :: "error \<Rightarrow> string option" where
  "err_type (AppwriteException c t m) = Some t"
| "err_type (Error m) = None"

fun err_message :: "error \<Rightarrow> string" where
  "err_message (AppwriteException c t m) = m"
| "err_message (Error m) = m"

text \<open>
  What reading a property of the object that serves as a map from names to identifiers
  gives: a stored identifier, \<^verbatim>\<open>undefined\<close>, or, for a name that every object
  inherits from \<^verbatim>\<open>Object.prototype\<close>, the inherited member, which is a function or an
  object and not a string.
\<close>

datatype reference = Ident string | Undef | Inherited string

text \<open>The object literal sent when a menu item is created.\<close>

record MenuFields =
  doc_name :: string
  doc_description :: string
  doc_image_url :: string
  doc_price :: real
  doc_rating :: real
  doc_calories :: real
  doc_protein :: real
  doc_categories :: reference

datatype payload =
    CategoryData Category
  | CustomizationData Customization
  | MenuData MenuFields
  | MenuCustomizationData string reference

record document =
  doc_id :: string
  doc_data :: payload

record FileInput =
  fi_name :: string
  fi_type :: string
  fi_size :: nat
  fi_uri :: string

record storage_file =
  file_id :: string
  file_input :: FileInput

record Blob =
  blob_type :: string
  blob_size :: nat

record Response =
  ok :: bool
  blob :: "error + Blob"

text \<open>The requests the script sends, in the argument order of the SDK.\<close>

datatype request =
    ListDocuments string string
  | CreateDocument string string string payload
  | DeleteDocument string string string
  | ListFiles string
  | CreateFile string string FileInput
  | DeleteFile string string
  | Fetch string

text \<open>What is handed to the console: strings, numbers, \<^verbatim>\<open>undefined\<close> and caught errors.\<close>

datatype js_value = Str string | Num int | Undefined | Err error

datatype console_entry = Log "js_value list" | Warn "js_value list"

section \<open>The environment: the SDK, the network and the clock\<close>

text \<open>
  The SDK (\<^verbatim>\<open>databases\<close>, \<^verbatim>\<open>storage\<close>, \<^verbatim>\<open>ID\<close>), \<^verbatim>\<open>fetch\<close> and
  \<^verbatim>\<open>Date.now\<close> are external. They are a parameter of the model: a record of
  operations on an arbitrary type \<open>'w\<close> of states of the outside world. An operation
  that can reject returns \<open>Inl\<close> of the error, together with the world it leaves
  behind. \<^verbatim>\<open>getFileViewURL\<close> is synchronous in the SDK and only builds a URL.
  A request whose promise never settles is outside the model.

  A promise that has been started but not awaited is the request it sent together with
  what its settling does: the effect on the world and the outcome, after the
  \<^verbatim>\<open>catch\<close> clauses of the function that created it. \<open>settle_order\<close> is the order
  in which the promises of one \<^verbatim>\<open>Promise.all\<close> settle; the script has no influence
  on it.
\<close>

type_synonym 'w promise = "request \<times> ('w \<Rightarrow> (error + unit) \<times> 'w)"

record 'w sdk =
  listDocuments :: "string \<Rightarrow> string \<Rightarrow> 'w \<Rightarrow> (error + document list) \<times> 'w"
  createDocument :: "string \<Rightarrow> string \<Rightarrow> string \<Rightarrow> payload \<Rightarrow> 'w \<Rightarrow> (error + document) \<times> 'w"
  deleteDocument :: "string \<Rightarrow> string \<Rightarrow> string \<Rightarrow> 'w \<Rightarrow> (error + unit) \<times> 'w"
  listFiles :: "string \<Rightarrow> 'w \<Rightarrow> (error + storage_file list) \<times> 'w"
  createFile :: "string \<Rightarrow> string \<Rightarrow> FileInput \<Rightarrow> 'w \<Rightarrow> (error + storage_file) \<times> 'w"
  deleteFile :: "string \<Rightarrow> string \<Rightarrow> 'w \<Rightarrow> (error + unit) \<times> 'w"
  getFileViewURL :: "string \<Rightarrow> string \<Rightarrow> error + string"
  ID_unique :: "'w \<Rightarrow> string \<times> 'w"
  fetch :: "string \<Rightarrow> 'w \<Rightarrow> (error + Response) \<times> 'w"
  Date_now :: "'w \<Rightarrow> nat"
  settle_order :: "'w promise list \<Rightarrow> 'w promise list"

section \<open>The state of the script and asynchronous computations\<close>

text \<open>
  \<open>isSeeding\<close> is the module variable of the script and \<open>console\<close> what it has
  printed. \<open>calls\<close> and \<open>inflight\<close> are bookkeeping of the model: every request
  the script has sent, in the order sent, and the requests of started promises that
  have not settled yet. The effect of a request on the world is applied when its
  promise settles.

  JavaScript runs one task at a time: as long as the script runs, nothing else does, and
  another task, such as the handler of a second press of the Seed button, can only run
  while the script waits for a promise. \<open>suspended\<close> is bookkeeping as well: what the
  script looked like at each moment at which it waited, in order.
\<close>

record 'w script =
  isSeeding :: bool
  console :: "console_entry list"
  calls :: "request list"
  inflight :: "request list"
  world :: 'w

record 'w state = "'w script" +
  suspended :: "'w script list"

definition snapshot :: "'w state \<Rightarrow> 'w script" where
  "snapshot s =
     \<lparr>isSeeding = isSeeding s, console = console s, calls = calls s, inflight = inflight s,
      world = world s\<rparr>"

definition suspend :: "'w state \<Rightarrow> 'w state" where
  "suspend s = s\<lparr>suspended := suspended s @ [snapshot s]\<rparr>"

text \<open>The state in which a task finds the script when it runs at such a moment.\<close>

definition resumed :: "'w script \<Rightarrow> 'w state" where
  "resumed t =
     \<lparr>isSeeding = isSeeding t, console = console t, calls = calls t, inflight = inflight t,
      world = world t, suspended = []\<rparr>"

type_synonym ('w, 'a) async = "'w state \<Rightarrow> (error + 'a) \<times> 'w state"

definition resolve :: "'a \<Rightarrow> ('w, 'a) async" where
  "resolve a s = (Inr a, s)"

definition reject :: "error \<Rightarrow> ('w, 'a) async" where
  "reject e s = (Inl e, s)"

text \<open>Sequencing: a rejection skips the rest, as an exception does.\<close>

definition await_then :: "('w, 'a) async \<Rightarrow> ('a \<Rightarrow> ('w, 'b) async) \<Rightarrow> ('w, 'b) async" where
  "await_then m f s = (case m s of (Inl e, s') \<Rightarrow> (Inl e, s') | (Inr a, s') \<Rightarrow> f a s')"

definition try_catch :: "('w, 'a) async \<Rightarrow> (error \<Rightarrow> ('w, 'a) async) \<Rightarrow> ('w, 'a) async" where
  "try_catch m h s = (case m s of (Inl e, s') \<Rightarrow> h e s' | (Inr a, s') \<Rightarrow> (Inr a, s'))"

definition try_finally :: "('w, 'a) async \<Rightarrow> ('w state \<Rightarrow> 'w state) \<Rightarrow> ('w, 'a) async" where
  "try_finally m fin s = (case m s of (r, s') \<Rightarrow> (r, fin s'))"

text \<open>A \<^verbatim>\<open>for ... of\<close> loop over a list, threading what the body updates.\<close>

fun for_of :: "('a \<Rightarrow> 'b \<Rightarrow> ('w, 'b) async) \<Rightarrow> 'a list \<Rightarrow> 'b \<Rightarrow> ('w, 'b) async" where
  "for_of body [] acc s = (Inr acc, s)"
| "for_of body (x # xs) acc s =
     (case body x acc s of
        (Inl e, s') \<Rightarrow> (Inl e, s')
      | (Inr acc', s') \<Rightarrow> for_of body xs acc' s')"

definition console_log :: "js_value list \<Rightarrow> ('w, unit) async" where
  "console_log args s = (Inr (), s\<lparr>console := console s @ [Log args]\<rparr>)"

definition console_warn :: "js_value list \<Rightarrow> ('w, unit) async" where
  "console_warn args s = (Inr (), s\<lparr>console := console s @ [Warn args]\<rparr>)"

text \<open>
  An awaited call of the SDK: the request is sent, the script waits with the request in
  flight, and the promise settles.
\<close>

definition waited :: "request \<Rightarrow> 'w state \<Rightarrow> 'w state" where
  "waited req s =
     (suspend (s\<lparr>calls := calls s @ [req], inflight := inflight s @ [req]\<rparr>))
       \<lparr>inflight := inflight s\<rparr>"

definition sdk_call :: "request \<Rightarrow> ('w \<Rightarrow> (error + 'a) \<times> 'w) \<Rightarrow> ('w, 'a) async" where
  "sdk_call req op s = (case op (world s) of (r, w) \<Rightarrow> (r, (waited req s)\<lparr>world := w\<rparr>))"

definition databases_listDocuments :: "'w sdk \<Rightarrow> string \<Rightarrow> string \<Rightarrow> ('w, document list) async" where
  "databases_listDocuments R db coll = sdk_call (ListDocuments db coll) (listDocuments R db coll)"

definition databases_createDocument ::
  "'w sdk \<Rightarrow> string \<Rightarrow> string \<Rightarrow> string \<Rightarrow> payload \<Rightarrow> ('w, document) async" where
  "databases_createDocument R db coll uid p =
     sdk_call (CreateDocument db coll uid p) (createDocument R db coll uid p)"

definition storage_listFiles :: "'w sdk \<Rightarrow> string \<Rightarrow> ('w, storage_file list) async" where
  "storage_listFiles R b = sdk_call (ListFiles b) (listFiles R b)"

definition storage_createFile :: "'w sdk \<Rightarrow> string \<Rightarrow> string \<Rightarrow> FileInput \<Rightarrow> ('w, storage_file) async" where
  "storage_createFile R b uid f = sdk_call (CreateFile b uid f) (createFile R b uid f)"

definition storage_getFileViewURL :: "'w sdk \<Rightarrow> string \<Rightarrow> string \<Rightarrow> ('w, string) async" where
  "storage_getFileViewURL R b fid s = (getFileViewURL R b fid, s)"

definition fetch_url :: "'w sdk \<Rightarrow> string \<Rightarrow> ('w, Response) async" where
  "fetch_url R url = sdk_call (Fetch url) (fetch R url)"

definition response_blob :: "Response \<Rightarrow> ('w, Blob) async" where
  "response_blob response s = (blob response, suspend s)"

definition unique :: "'w sdk \<Rightarrow> ('w, string) async" where
  "unique R s = (case ID_unique R (world s) of (uid, w) \<Rightarrow> (Inr uid, s\<lparr>world := w\<rparr>))"

subsection \<open>Promises that run concurrently\<close>

definition start :: "'w promise list \<Rightarrow> 'w state \<Rightarrow> 'w state" where
  "start ps s = s\<lparr>calls := calls s @ map fst ps, inflight := inflight s @ map fst ps\<rparr>"

definition settle :: "'w promise \<Rightarrow> ('w, unit) async" where
  "settle p s =
     (case snd p (world s) of
        (r, w) \<Rightarrow> (r, (suspend s)\<lparr>inflight := remove1 (fst p) (inflight s), world := w\<rparr>))"

text \<open>
  \<^verbatim>\<open>await p\<close> for a single promise, and \<^verbatim>\<open>await Promise.all(ps)\<close>: every promise
  of the list has been started when \<^verbatim>\<open>Promise.all\<close> is called; the result is
  fulfilled once all of them are, and rejected as soon as one of them rejects, with
  that one's error. The promises that have not settled by then stay in flight. The
  script waits before each settlement.
\<close>

fun settle_all :: "'w promise list \<Rightarrow> ('w, unit) async" where
  "settle_all [] s = (Inr (), s)"
| "settle_all (p # ps) s =
     (case settle p s of
        (Inl e, s') \<Rightarrow> (Inl e, s')
      | (Inr u, s') \<Rightarrow> settle_all ps s')"

definition await :: "'w promise \<Rightarrow> ('w, unit) async" where
  "await p s = settle p (start [p] s)"

definition Promise_all :: "'w sdk \<Rightarrow> 'w promise list \<Rightarrow> ('w, unit) async" where
  "Promise_all R ps s = settle_all (settle_order R ps) (start ps s)"

section \<open>The script\<close>

text \<open>
  Some messages of the script begin with a pictograph. A string is the list of the bytes
  of its UTF-8 encoding; the four pictographs are \<^verbatim>\<open>U+26A0 U+FE0F\<close> (warning sign),
  \<^verbatim>\<open>U+1F9F9\<close> (broom), \<^verbatim>\<open>U+2705\<close> (check mark) and \<^verbatim>\<open>U+274C\<close> (cross mark).
\<close>

definition warning_sign :: string where
  "warning_sign = [CHR 0xE2, CHR 0x9A, CHR 0xA0, CHR 0xEF, CHR 0xB8, CHR 0x8F]"

definition broom :: string where
  "broom = [CHR 0xF0, CHR 0x9F, CHR 0xA7, CHR 0xB9]"

definition check_mark :: string where
  "check_mark = [CHR 0xE2, CHR 0x9C, CHR 0x85]"

definition cross_mark :: string where
  "cross_mark = [CHR 0xE2, CHR 0x9D, CHR 0x8C]"

subsection \<open>Safe deletion helpers and bulk clear\<close>

definition safeDeleteDocument :: "'w sdk \<Rightarrow> appwriteConfig \<Rightarrow> string \<Rightarrow> string \<Rightarrow> 'w promise" where
  "safeDeleteDocument R cfg collectionId docId =
     (DeleteDocument (databaseId cfg) collectionId docId,
      \<lambda>w. case deleteDocument R (databaseId cfg) collectionId docId w of
             (Inr u, w') \<Rightarrow> (Inr (), w')
           | (Inl err, w') \<Rightarrow> (if err_code err \<noteq> Some 404 then Inl err else Inr (), w'))"

definition clearAll :: "'w sdk \<Rightarrow> appwriteConfig \<Rightarrow> string \<Rightarrow> ('w, unit) async" where
  "clearAll R cfg collectionId =
     await_then (databases_listDocuments R (databaseId cfg) collectionId) (\<lambda>list.
       Promise_all R (map (\<lambda>doc. safeDeleteDocument R cfg collectionId (doc_id doc)) list))"

definition safeDeleteFile :: "'w sdk \<Rightarrow> appwriteConfig \<Rightarrow> string \<Rightarrow> 'w promise" where
  "safeDeleteFile R cfg fileId =
     (DeleteFile (bucketId cfg) fileId,
      \<lambda>w. case deleteFile R (bucketId cfg) fileId w of
             (Inr u, w') \<Rightarrow> (Inr (), w')
           | (Inl err, w') \<Rightarrow> (if err_code err \<noteq> Some 404 then Inl err else Inr (), w'))"

definition clearStorage :: "'w sdk \<Rightarrow> appwriteConfig \<Rightarrow> ('w, unit) async" where
  "clearStorage R cfg =
     await_then (storage_listFiles R (bucketId cfg)) (\<lambda>list.
       Promise_all R (map (\<lambda>file. safeDeleteFile R cfg (file_id file)) list))"

subsection \<open>Safe image upload\<close>

definition digit :: "nat \<Rightarrow> char" where
  "digit n = ''0123456789'' ! (n mod 10)"

fun show_nat :: "nat \<Rightarrow> string" where
  "show_nat n = (if n < 10 then [digit n] else show_nat (n div 10) @ [digit n])"

declare show_nat.simps [simp del]

text \<open>\<^verbatim>\<open>imageUrl.split("/").pop()\<close>: what follows the last slash, the whole string without one.\<close>

definition last_segment :: "string \<Rightarrow> string" where
  "last_segment url = rev (takeWhile (\<lambda>c. c \<noteq> CHR ''/'') (rev url))"

definition placeholder :: string where
  "placeholder = ''https://via.placeholder.com/150''"

definition file_name :: "'w sdk \<Rightarrow> string \<Rightarrow> 'w \<Rightarrow> string" where
  "file_name R imageUrl w =
     (if last_segment imageUrl \<noteq> [] then last_segment imageUrl
      else ''file-'' @ show_nat (Date_now R w) @ ''.jpg'')"

definition uploadImageToStorage :: "'w sdk \<Rightarrow> appwriteConfig \<Rightarrow> string \<Rightarrow> ('w, string) async" where
  "uploadImageToStorage R cfg imageUrl =
     try_catch
       (await_then (fetch_url R imageUrl) (\<lambda>response.
          if \<not> ok response then reject (Error ''Failed to fetch image'')
          else
            await_then (response_blob response) (\<lambda>blob.
            await_then (unique R) (\<lambda>uid.
            await_then (\<lambda>s. storage_createFile R (bucketId cfg) uid
                \<lparr>fi_name = file_name R imageUrl (world s), fi_type = blob_type blob,
                 fi_size = blob_size blob, fi_uri = imageUrl\<rparr> s) (\<lambda>file.
            storage_getFileViewURL R (bucketId cfg) (file_id file))))))
       (\<lambda>err.
          await_then
            (console_warn [Str (warning_sign @ '' Failed to upload image, using placeholder:''), Str imageUrl, Err err])
            (\<lambda>_. resolve placeholder))"

subsection \<open>The seed function\<close>

text \<open>
  \<^verbatim>\<open>categoryMap\<close> and \<^verbatim>\<open>customizationMap\<close> are object literals \<^verbatim>\<open>{}\<close> used
  as maps from names to generated identifiers. Such an object is the finite map of its
  own properties, and inherits the members of \<^verbatim>\<open>Object.prototype\<close>. Reading a name
  gives the own property if there is one, the inherited member if the name is one of
  \<^verbatim>\<open>Object.prototype\<close>, and \<^verbatim>\<open>undefined\<close> otherwise. Writing a name creates or
  updates the own property, except for \<^verbatim>\<open>__proto__\<close>: that name is an accessor of
  \<^verbatim>\<open>Object.prototype\<close> whose setter ignores a string.
\<close>

definition Object_prototype :: "string list" where
  "Object_prototype =
     [''constructor'', ''__defineGetter__'', ''__defineSetter__'', ''hasOwnProperty'',
      ''__lookupGetter__'', ''__lookupSetter__'', ''isPrototypeOf'', ''propertyIsEnumerable'',
      ''toString'', ''valueOf'', ''__proto__'', ''toLocaleString'']"

definition get_property :: "(string \<rightharpoonup> string) \<Rightarrow> string \<Rightarrow> reference" where
  "get_property obj key =
     (case obj key of
        Some v \<Rightarrow> Ident v
      | None \<Rightarrow> if key \<in> set Object_prototype then Inherited key else Undef)"

definition set_property :: "(string \<rightharpoonup> string) \<Rightarrow> string \<Rightarrow> string \<Rightarrow> (string \<rightharpoonup> string)" where
  "set_property obj key v = (if key = ''__proto__'' then obj else obj(key \<mapsto> v))"

text \<open>The bodies of the three creation loops.\<close>

definition create_category ::
  "'w sdk \<Rightarrow> appwriteConfig \<Rightarrow> Category \<Rightarrow> (string \<rightharpoonup> string) \<Rightarrow> ('w, string \<rightharpoonup> string) async" where
  "create_category R cfg cat categoryMap =
     try_catch
       (await_then (unique R) (\<lambda>uid.
        await_then (databases_createDocument R (databaseId cfg) (categoriesCollectionId cfg) uid
                      (CategoryData cat)) (\<lambda>doc.
        resolve (set_property categoryMap (cat_name cat) (doc_id doc)))))
       (\<lambda>err.
          await_then (console_warn [Str ''Failed to create category:'', Str (cat_name cat), Err err])
            (\<lambda>_. resolve categoryMap))"

definition create_customization ::
  "'w sdk \<Rightarrow> appwriteConfig \<Rightarrow> Customization \<Rightarrow> (string \<rightharpoonup> string) \<Rightarrow> ('w, string \<rightharpoonup> string) async" where
  "create_customization R cfg cus customizationMap =
     try_catch
       (await_then (unique R) (\<lambda>uid.
        await_then (databases_createDocument R (databaseId cfg) (customizationsCollectionId cfg) uid
                      (CustomizationData cus)) (\<lambda>doc.
        resolve (set_property customizationMap (cus_name cus) (doc_id doc)))))
       (\<lambda>err.
          await_then (console_warn [Str ''Failed to create customization:'', Str (cus_name cus), Err err])
            (\<lambda>_. resolve customizationMap))"

definition create_menu_customization ::
  "'w sdk \<Rightarrow> appwriteConfig \<Rightarrow> (string \<rightharpoonup> string) \<Rightarrow> MenuItem \<Rightarrow> document \<Rightarrow> string \<Rightarrow> unit
     \<Rightarrow> ('w, unit) async" where
  "create_menu_customization R cfg customizationMap item menuDoc cusName u =
     try_catch
       (await_then (unique R) (\<lambda>uid.
        await_then (databases_createDocument R (databaseId cfg) (menuCustomizationsCollectionId cfg) uid
                      (MenuCustomizationData (doc_id menuDoc) (get_property customizationMap cusName))) (\<lambda>doc.
        resolve ())))
       (\<lambda>err.
          console_warn [Str ''Failed to create menu customization:'', Str (name item), Str cusName, Err err])"

definition create_menu_document ::
  "'w sdk \<Rightarrow> appwriteConfig \<Rightarrow> (string \<rightharpoonup> string) \<Rightarrow> MenuItem \<Rightarrow> ('w, document) async" where
  "create_menu_document R cfg categoryMap item =
     await_then (uploadImageToStorage R cfg (image_url item)) (\<lambda>uploadedImage.
     await_then (unique R) (\<lambda>uid.
     databases_createDocument R (databaseId cfg) (menuCollectionId cfg) uid
       (MenuData \<lparr>doc_name = name item, doc_description = description item,
                  doc_image_url = uploadedImage, doc_price = price item,
                  doc_rating = rating item, doc_calories = calories item,
                  doc_protein = protein item,
                  doc_categories = get_property categoryMap (category_name item)\<rparr>)))"

definition create_menu_item ::
  "'w sdk \<Rightarrow> appwriteConfig \<Rightarrow> (string \<rightharpoonup> string) \<Rightarrow> (string \<rightharpoonup> string) \<Rightarrow> MenuItem \<Rightarrow> unit
     \<Rightarrow> ('w, unit) async" where
  "create_menu_item R cfg categoryMap customizationMap item u =
     try_catch
       (await_then (create_menu_document R cfg categoryMap item) (\<lambda>menuDoc.
        for_of (create_menu_customization R cfg customizationMap item menuDoc)
          (customizations item) ()))
       (\<lambda>err. console_warn [Str ''Failed to create menu item:'', Str (name item), Err err])"

definition seed_body :: "'w sdk \<Rightarrow> appwriteConfig \<Rightarrow> DummyData \<Rightarrow> ('w, unit) async" where
  "seed_body R cfg data =
     await_then (console_log [Str (broom @ '' Clearing existing collections and storage...'')]) (\<lambda>_.
     await_then (clearAll R cfg (categoriesCollectionId cfg)) (\<lambda>_.
     await_then (clearAll R cfg (customizationsCollectionId cfg)) (\<lambda>_.
     await_then (clearAll R cfg (menuCollectionId cfg)) (\<lambda>_.
     await_then (clearAll R cfg (menuCustomizationsCollectionId cfg)) (\<lambda>_.
     await_then (clearStorage R cfg) (\<lambda>_.
     await_then (for_of (create_category R cfg) (data_categories data) Map.empty) (\<lambda>categoryMap.
     await_then (for_of (create_customization R cfg) (data_customizations data) Map.empty)
       (\<lambda>customizationMap.
     await_then (for_of (create_menu_item R cfg categoryMap customizationMap) (data_menu data) ())
       (\<lambda>_.
     console_log [Str (check_mark @ '' Seeding complete.'')])))))))))"

definition seed :: "'w sdk \<Rightarrow> appwriteConfig \<Rightarrow> DummyData \<Rightarrow> ('w, unit) async" where
  "seed R cfg data s =
     (if isSeeding s then console_log [Str (warning_sign @ '' Seed already running. Ignoring second click.'')] s
      else
        try_finally
          (try_catch (seed_body R cfg data) (\<lambda>err. console_log [Str (cross_mark @ '' Seed error:''), Err err]))
          (\<lambda>s'. s'\<lparr>isSeeding := False\<rparr>)
          (s\<lparr>isSeeding := True\<rparr>))"

subsection \<open>The Seed button\<close>

text \<open>\<^verbatim>\<open>seed().catch(...)\<close>: the handler runs only when the promise of \<open>seed\<close> rejects.\<close>

definition Search_onPress :: "'w sdk \<Rightarrow> appwriteConfig \<Rightarrow> DummyData \<Rightarrow> ('w, unit) async" where
  "Search_onPress R cfg data =
     try_catch (seed R cfg data) (\<lambda>error.
       await_then (console_log [Str ''Failed to seed the database'', Err error]) (\<lambda>_.
       await_then (console_log [Str ''code:'',
           (case err_code error of None \<Rightarrow> Undefined | Some c \<Rightarrow> Num c)]) (\<lambda>_.
       await_then (console_log [Str ''type:'',
           (case err_type error of None \<Rightarrow> Undefined | Some t \<Rightarrow> Str t)]) (\<lambda>_.
       await_then (console_log [Str ''message:'', Str (err_message error)]) (\<lambda>_.
       console_log [Str ''raw:'', Err error])))))"

section \<open>A reference store\<close>

text \<open>
  Modelled from the spec: the remote store and storage collaborators, of which the
  sources contain only the calls. The store lists, creates and deletes documents per
  database and collection and files per bucket, and reports a delete of an identifier
  it does not hold with code 404. A created document gets the identifier the request
  carries, and \<^verbatim>\<open>ID.unique()\<close> draws identifiers from a counter. \<open>page_limit\<close> is
  the default page of a listing (\<open>None\<close>: a listing returns every record).
  \<open>fault\<close> says which requests the store refuses, and with what error; \<open>web\<close> is
  what fetching a URL yields.
\<close>

record store =
  documents :: "string \<times> string \<Rightarrow> document list"
  bucket_files :: "string \<Rightarrow> storage_file list"
  next_id :: nat
  clock :: nat
  page_limit :: "nat option"
  fault :: "request \<Rightarrow> error option"
  web :: "string \<Rightarrow> error + Response"

definition first_page :: "nat option \<Rightarrow> 'a list \<Rightarrow> 'a list" where
  "first_page pl xs = (case pl of None \<Rightarrow> xs | Some n \<Rightarrow> take n xs)"

definition not_found :: error where
  "not_found = AppwriteException 404 ''not_found'' ''The requested resource could not be found.''"

definition store_listDocuments :: "string \<Rightarrow> string \<Rightarrow> store \<Rightarrow> (error + document list) \<times> store" where
  "store_listDocuments db coll st =
     (case fault st (ListDocuments db coll) of
        Some e \<Rightarrow> (Inl e, st)
      | None \<Rightarrow> (Inr (first_page (page_limit st) (documents st (db, coll))), st))"

definition store_createDocument ::
  "string \<Rightarrow> string \<Rightarrow> string \<Rightarrow> payload \<Rightarrow> store \<Rightarrow> (error + document) \<times> store" where
  "store_createDocument db coll uid p st =
     (case fault st (CreateDocument db coll uid p) of
        Some e \<Rightarrow> (Inl e, st)
      | None \<Rightarrow>
          (Inr \<lparr>doc_id = uid, doc_data = p\<rparr>,
           st\<lparr>documents := (documents st)
                 ((db, coll) := documents st (db, coll) @ [\<lparr>doc_id = uid, doc_data = p\<rparr>])\<rparr>))"

definition store_deleteDocument :: "string \<Rightarrow> string \<Rightarrow> string \<Rightarrow> store \<Rightarrow> (error + unit) \<times> store" where
  "store_deleteDocument db coll docId st =
     (case fault st (DeleteDocument db coll docId) of
        Some e \<Rightarrow> (Inl e, st)
      | None \<Rightarrow>
          if docId \<in> set (map doc_id (documents st (db, coll)))
          then (Inr (),
                st\<lparr>documents := (documents st)
                      ((db, coll) := filter (\<lambda>d. doc_id d \<noteq> docId) (documents st (db, coll)))\<rparr>)
          else (Inl not_found, st))"

definition store_listFiles :: "string \<Rightarrow> store \<Rightarrow> (error + storage_file list) \<times> store" where
  "store_listFiles b st =
     (case fault st (ListFiles b) of
        Some e \<Rightarrow> (Inl e, st)
      | None \<Rightarrow> (Inr (first_page (page_limit st) (bucket_files st b)), st))"

definition store_createFile :: "string \<Rightarrow> string \<Rightarrow> FileInput \<Rightarrow> store \<Rightarrow> (error + storage_file) \<times> store" where
  "store_createFile b uid f st =
     (case fault st (CreateFile b uid f) of
        Some e \<Rightarrow> (Inl e, st)
      | None \<Rightarrow>
          (Inr \<lparr>file_id = uid, file_input = f\<rparr>,
           st\<lparr>bucket_files := (bucket_files st)
                 (b := bucket_files st b @ [\<lparr>file_id = uid, file_input = f\<rparr>])\<rparr>))"

definition store_deleteFile :: "string \<Rightarrow> string \<Rightarrow> store \<Rightarrow> (error + unit) \<times> store" where
  "store_deleteFile b fileId st =
     (case fault st (DeleteFile b fileId) of
        Some e \<Rightarrow> (Inl e, st)
      | None \<Rightarrow>
          if fileId \<in> set (map file_id (bucket_files st b))
          then (Inr (),
                st\<lparr>bucket_files := (bucket_files st)
                      (b := filter (\<lambda>f. file_id f \<noteq> fileId) (bucket_files st b))\<rparr>)
          else (Inl not_found, st))"

definition store_getFileViewURL :: "string \<Rightarrow> string \<Rightarrow> error + string" where
  "store_getFileViewURL b fileId = Inr (''/storage/buckets/'' @ b @ ''/files/'' @ fileId @ ''/view'')"

definition store_ID_unique :: "store \<Rightarrow> string \<times> store" where
  "store_ID_unique st = (show_nat (next_id st), st\<lparr>next_id := Suc (next_id st)\<rparr>)"

definition store_fetch :: "string \<Rightarrow> store \<Rightarrow> (error + Response) \<times> store" where
  "store_fetch url st = (web st url, st)"

definition store_sdk :: "(store promise list \<Rightarrow> store promise list) \<Rightarrow> store sdk" where
  "store_sdk sched =
     \<lparr>listDocuments = store_listDocuments,
      createDocument = store_createDocument,
      deleteDocument = store_deleteDocument,
      listFiles = store_listFiles,
      createFile = store_createFile,
      deleteFile = store_deleteFile,
      getFileViewURL = store_getFileViewURL,
      ID_unique = store_ID_unique,
      fetch = store_fetch,
      Date_now = clock,
      settle_order = sched\<rparr>"

text \<open>A store without records, and the state of a script that has not run yet.\<close>

definition empty_store :: "nat option \<Rightarrow> (request \<Rightarrow> error option) \<Rightarrow> (string \<Rightarrow> error + Response) \<Rightarrow> store" where
  "empty_store pl flt wb =
     \<lparr>documents = (\<lambda>_. []), bucket_files = (\<lambda>_. []), next_id = 0, clock = 0,
      page_limit = pl, fault = flt, web = wb\<rparr>"

definition idle :: "'w \<Rightarrow> 'w state" where
  "idle w =
     \<lparr>isSeeding = False, console = [], calls = [], inflight = [], world = w, suspended = []\<rparr>"

section \<open>Notions used in the statements\<close>

text \<open>
  \<open>triple P m Q\<close>: from every state that satisfies \<open>P\<close>, the computation \<open>m\<close> ends
  with an outcome and a state that satisfy \<open>Q\<close>.
\<close>

definition triple ::
  "('w state \<Rightarrow> bool) \<Rightarrow> ('w, 'a) async \<Rightarrow> (error + 'a \<Rightarrow> 'w state \<Rightarrow> bool) \<Rightarrow> bool" where
  "triple P m Q = (\<forall>s. P s \<longrightarrow> Q (fst (m s)) (snd (m s)))"

text \<open>
  \<open>flag_kept s s'\<close>: between the states \<open>s\<close> and \<open>s'\<close> the variable \<open>isSeeding\<close> has
  not been written: it has the same value in \<open>s'\<close> and at every moment at which the
  script has waited in between. \<open>keeps_flag m\<close>: the computation \<open>m\<close> never writes it.
\<close>

definition flag_kept :: "'w state \<Rightarrow> 'w state \<Rightarrow> bool" where
  "flag_kept s s' =
     (isSeeding s' = isSeeding s
      \<and> (\<exists>ts. suspended s' = suspended s @ ts \<and> (\<forall>t\<in>set ts. isSeeding t = isSeeding s)))"

definition keeps_flag :: "('w, 'a) async \<Rightarrow> bool" where
  "keeps_flag m = (\<forall>s. flag_kept s (snd (m s)))"

text \<open>Every promise handed to \<^verbatim>\<open>Promise.all\<close> settles, and settles once.\<close>

definition settles_each_once :: "('a list \<Rightarrow> 'a list) \<Rightarrow> bool" where
  "settles_each_once sched = (\<forall>ps. mset (sched ps) = mset ps)"

text \<open>The number of records of a collection of the reference store.\<close>

definition count_documents :: "store \<Rightarrow> string \<Rightarrow> string \<Rightarrow> nat" where
  "count_documents st db coll = length (documents st (db, coll))"

text \<open>A configuration, a dataset and environments at which the statements are instantiated.\<close>

definition demo_config :: appwriteConfig where
  "demo_config =
     \<lparr>databaseId = ''db'', bucketId = ''assets'', categoriesCollectionId = ''categories'',
      customizationsCollectionId = ''customizations'', menuCollectionId = ''menu'',
      menuCustomizationsCollectionId = ''menu_customizations''\<rparr>"

definition margherita :: MenuItem where
  "margherita =
     \<lparr>name = ''Margherita'', description = ''Tomato and mozzarella'',
      image_url = ''https://img.example/margherita.png'', price = 9, rating = 4,
      calories = 800, protein = 30, category_name = ''Pizza'',
      customizations = [''Extra Cheese'']\<rparr>"

definition demo_data :: DummyData where
  "demo_data =
     \<lparr>data_categories =
        [\<lparr>cat_name = ''Pizza'', cat_description = ''Baked''\<rparr>,
         \<lparr>cat_name = ''Drinks'', cat_description = ''Cold''\<rparr>],
      data_customizations =
        [\<lparr>cus_name = ''Extra Cheese'', cus_price = 1.5, cus_type = ''topping''\<rparr>],
      data_menu = [margherita]\<rparr>"

definition offline :: "string \<Rightarrow> error + Response" where
  "offline url = Inl (Error ''Network request failed'')"

definition online :: "string \<Rightarrow> error + Response" where
  "online url = Inr \<lparr>ok = True, blob = Inr \<lparr>blob_type = ''image/png'', blob_size = 1024\<rparr>\<rparr>"

definition no_fault :: "request \<Rightarrow> error option" where
  "no_fault req = None"

definition unavailable :: "request \<Rightarrow> error option" where
  "unavailable req = Some (AppwriteException 503 ''general_server_error'' ''Service unavailable'')"

definition refused :: "string \<Rightarrow> error + Response" where
  "refused url = Inr \<lparr>ok = False, blob = Inl (Error ''no body'')\<rparr>"

definition stocked_store :: store where
  "stocked_store =
     \<lparr>documents = (\<lambda>_. [])((''db'', ''categories'') :=
        [\<lparr>doc_id = ''7'', doc_data = CategoryData \<lparr>cat_name = ''Pizza'', cat_description = ''Baked''\<rparr>\<rparr>]),
      bucket_files = (\<lambda>_. [])(''assets'' :=
        [\<lparr>file_id = ''f1'', file_input =
            \<lparr>fi_name = ''a.png'', fi_type = ''image/png'', fi_size = 1, fi_uri = ''https://img.example/a.png''\<rparr>\<rparr>]),
      next_id = 8, clock = 0, page_limit = None, fault = no_fault, web = offline\<rparr>"

text \<open>The requests that create a join record.\<close>

fun is_join_request :: "request \<Rightarrow> bool" where
  "is_join_request (CreateDocument db coll uid (MenuCustomizationData m c)) = True"
| "is_join_request req = False"

text \<open>The request that creates the join record of a menu document and a customization name.\<close>

definition join_request ::
  "appwriteConfig \<Rightarrow> (string \<rightharpoonup> string) \<Rightarrow> document \<Rightarrow> string \<times> string \<Rightarrow> request" where
  "join_request cfg customizationMap menuDoc =
     (\<lambda>(uid, cusName).
        CreateDocument (databaseId cfg) (menuCustomizationsCollectionId cfg) uid
          (MenuCustomizationData (doc_id menuDoc) (get_property customizationMap cusName)))"

text \<open>
  A store that refuses nothing but the creation of documents, and those by collection
  and content only; and the store that refuses one content in one collection.
\<close>

definition create_faults :: "(string \<Rightarrow> payload \<Rightarrow> error option) \<Rightarrow> request \<Rightarrow> error option" where
  "create_faults F req = (case req of CreateDocument db coll uid p \<Rightarrow> F coll p | _ \<Rightarrow> None)"

definition refuse_one :: "string \<Rightarrow> payload \<Rightarrow> error \<Rightarrow> string \<Rightarrow> payload \<Rightarrow> error option" where
  "refuse_one coll p e coll' p' = (if coll' = coll \<and> p' = p then Some e else None)"

text \<open>A store after the documents (files) with the given identifiers have left a collection (bucket).\<close>

definition without_documents :: "string \<times> string \<Rightarrow> string list \<Rightarrow> store \<Rightarrow> store" where
  "without_documents key ids st =
     st\<lparr>documents := (documents st)
          (key := filter (\<lambda>d. doc_id d \<notin> set ids) (documents st key))\<rparr>"

definition without_files :: "string \<Rightarrow> string list \<Rightarrow> store \<Rightarrow> store" where
  "without_files b ids st =
     st\<lparr>bucket_files := (bucket_files st)
          (b := filter (\<lambda>f. file_id f \<notin> set ids) (bucket_files st b))\<rparr>"

text \<open>
  What a creation loop leaves in the reference store when the counter of identifiers
  stands at \<open>n\<close>: a document for every accepted content, and the map from names to the
  identifiers of the accepted ones. A refused creation uses up an identifier as well.
\<close>

fun new_documents :: "(payload \<Rightarrow> bool) \<Rightarrow> nat \<Rightarrow> payload list \<Rightarrow> document list" where
  "new_documents accepted n [] = []"
| "new_documents accepted n (p # ps) =
     (if accepted p then [\<lparr>doc_id = show_nat n, doc_data = p\<rparr>] else []) @
     new_documents accepted (Suc n) ps"

fun new_ids ::
  "(payload \<Rightarrow> bool) \<Rightarrow> nat \<Rightarrow> (string \<times> payload) list \<Rightarrow> (string \<rightharpoonup> string) \<Rightarrow> (string \<rightharpoonup> string)" where
  "new_ids accepted n [] m = m"
| "new_ids accepted n ((k, p) # kps) m =
     new_ids accepted (Suc n) kps (if accepted p then set_property m k (show_nat n) else m)"

text \<open>A stored menu document that belongs to an item, and the join records of stored menu documents.\<close>

definition menu_doc_for :: "(string \<rightharpoonup> string) \<Rightarrow> MenuItem \<Rightarrow> document \<Rightarrow> bool" where
  "menu_doc_for categoryMap item d =
     (\<exists>img. doc_data d =
        MenuData \<lparr>doc_name = name item, doc_description = description item,
                  doc_image_url = img, doc_price = price item,
                  doc_rating = rating item, doc_calories = calories item,
                  doc_protein = protein item,
                  doc_categories = get_property categoryMap (category_name item)\<rparr>)"

definition joins_of :: "(string \<rightharpoonup> string) \<Rightarrow> MenuItem list \<Rightarrow> document list \<Rightarrow> payload list" where
  "joins_of customizationMap items ds =
     concat (map (\<lambda>(item, d).
        map (\<lambda>cusName. MenuCustomizationData (doc_id d) (get_property customizationMap cusName))
          (customizations item)) (zip items ds))"

text \<open>A store whose refusals never carry the code 404.\<close>

definition refusals_not_404 :: "store \<Rightarrow> bool" where
  "refusals_not_404 st = (\<forall>req e. fault st req = Some e \<longrightarrow> err_code e \<noteq> Some 404)"

text \<open>The identifiers a listing of the reference store returns.\<close>

definition listed_documents :: "store \<Rightarrow> string \<times> string \<Rightarrow> string list" where
  "listed_documents st key = map doc_id (first_page (page_limit st) (documents st key))"

definition listed_files :: "store \<Rightarrow> string \<Rightarrow> string list" where
  "listed_files st b = map file_id (first_page (page_limit st) (bucket_files st b))"

text \<open>Stores for the bulk clear: two categories, the delete of the first refused; and a page of one record.\<close>

definition two_categories :: "document list" where
  "two_categories =
     [\<lparr>doc_id = ''7'', doc_data = CategoryData \<lparr>cat_name = ''Pizza'', cat_description = ''Baked''\<rparr>\<rparr>,
      \<lparr>doc_id = ''8'', doc_data = CategoryData \<lparr>cat_name = ''Drinks'', cat_description = ''Cold''\<rparr>\<rparr>]"

definition refuse_delete_7 :: "request \<Rightarrow> error option" where
  "refuse_delete_7 req =
     (if req = DeleteDocument ''db'' ''categories'' ''7''
      then Some (AppwriteException 500 ''general_unknown'' ''Server Error'') else None)"

definition faulty_store :: store where
  "faulty_store =
     \<lparr>documents = (\<lambda>_. [])((''db'', ''categories'') := two_categories),
      bucket_files = (\<lambda>_. []), next_id = 9, clock = 0, page_limit = None,
      fault = refuse_delete_7, web = offline\<rparr>"

definition paged_store :: store where
  "paged_store =
     \<lparr>documents = (\<lambda>_. [])((''db'', ''categories'') := two_categories),
      bucket_files = (\<lambda>_. []), next_id = 9, clock = 0, page_limit = Some 1,
      fault = no_fault, web = offline\<rparr>"

text \<open>
  The reference store after \<open>k\<close> identifiers have been drawn and the documents \<open>ds\<close>
  added to a collection; and the part of the store that no request changes.
\<close>

definition with_documents :: "string \<times> string \<Rightarrow> document list \<Rightarrow> nat \<Rightarrow> store \<Rightarrow> store" where
  "with_documents key ds k st =
     st\<lparr>next_id := next_id st + k, documents := (documents st)(key := documents st key @ ds)\<rparr>"

definition store_env :: "store \<Rightarrow> (request \<Rightarrow> error option) \<times> nat option \<times> (string \<Rightarrow> error + Response)" where
  "store_env st = (fault st, page_limit st, web st)"

text \<open>
  What the menu phase does to the reference store: it appends the documents \<open>M\<close> to
  the menu collection and \<open>J\<close> to the collection of join records, and leaves every
  other collection and the behaviour of the store alone.
\<close>

definition menu_phase ::
  "string \<times> string \<Rightarrow> string \<times> string \<Rightarrow> document list \<Rightarrow> document list \<Rightarrow> store \<Rightarrow> store \<Rightarrow> bool" where
  "menu_phase mk jk M J st st' =
     (documents st' mk = documents st mk @ M \<and> documents st' jk = documents st jk @ J
      \<and> (\<forall>k. k \<noteq> mk \<and> k \<noteq> jk \<longrightarrow> documents st' k = documents st k)
      \<and> store_env st' = store_env st)"

text \<open>A listing of the collection returns every record: the page of the store is large enough.\<close>

definition whole_listing :: "store \<Rightarrow> string \<times> string \<Rightarrow> bool" where
  "whole_listing st key =
     (case page_limit st of None \<Rightarrow> True | Some n \<Rightarrow> length (documents st key) \<le> n)"

text \<open>The four collections of a configuration are four different collections.\<close>

definition four_collections :: "appwriteConfig \<Rightarrow> bool" where
  "four_collections cfg =
     distinct [categoriesCollectionId cfg, customizationsCollectionId cfg,
               menuCollectionId cfg, menuCustomizationsCollectionId cfg]"

text \<open>
  The body of \<open>seed\<close> in two parts, for the proofs: the bulk clears of a list of
  collections in sequence, followed by a continuation; and the three creation loops.
\<close>

fun clear_each :: "'w sdk \<Rightarrow> appwriteConfig \<Rightarrow> string list \<Rightarrow> ('w, 'a) async \<Rightarrow> ('w, 'a) async" where
  "clear_each R cfg [] k = k"
| "clear_each R cfg (coll # colls) k =
     await_then (clearAll R cfg coll) (\<lambda>_. clear_each R cfg colls k)"

definition create_phase :: "'w sdk \<Rightarrow> appwriteConfig \<Rightarrow> DummyData \<Rightarrow> ('w, unit) async" where
  "create_phase R cfg data =
     await_then (for_of (create_category R cfg) (data_categories data) Map.empty) (\<lambda>categoryMap.
     await_then (for_of (create_customization R cfg) (data_customizations data) Map.empty)
       (\<lambda>customizationMap.
     await_then (for_of (create_menu_item R cfg categoryMap customizationMap) (data_menu data) ())
       (\<lambda>_.
     console_log [Str (check_mark @ '' Seeding complete.'')])))"

text \<open>The maps from names to identifiers that \<open>seed\<close> builds on the reference store.\<close>

definition category_ids :: "(string \<Rightarrow> payload \<Rightarrow> error option) \<Rightarrow> appwriteConfig \<Rightarrow> nat \<Rightarrow> DummyData \<Rightarrow> (string \<rightharpoonup> string)" where
  "category_ids F cfg n data =
     new_ids (\<lambda>p. F (categoriesCollectionId cfg) p = None) n
       (map (\<lambda>c. (cat_name c, CategoryData c)) (data_categories data)) Map.empty"

definition customization_ids :: "(string \<Rightarrow> payload \<Rightarrow> error option) \<Rightarrow> appwriteConfig \<Rightarrow> nat \<Rightarrow> DummyData \<Rightarrow> (string \<rightharpoonup> string)" where
  "customization_ids F cfg n data =
     new_ids (\<lambda>p. F (customizationsCollectionId cfg) p = None)
       (n + length (data_categories data))
       (map (\<lambda>c. (cus_name c, CustomizationData c)) (data_customizations data)) Map.empty"

definition two_category_data :: DummyData where
  "two_category_data =
     \<lparr>data_categories =
        [\<lparr>cat_name = ''Pizza'', cat_description = ''Baked''\<rparr>,
         \<lparr>cat_name = ''Drinks'', cat_description = ''Cold''\<rparr>],
      data_customizations = [], data_menu = []\<rparr>"

text \<open>The number of join records a dataset asks for.\<close>

definition count_links :: "DummyData \<Rightarrow> nat" where
  "count_links data = sum_list (map (\<lambda>item. length (customizations item)) (data_menu data))"

text \<open>
  Computations run one after the other, each only once the one before it is fulfilled;
  and the five bulk clears with which \<open>seed\<close> begins, in their order.
\<close>

fun in_sequence :: "('w, unit) async list \<Rightarrow> ('w, unit) async" where
  "in_sequence [] = resolve ()"
| "in_sequence (m # ms) = await_then m (\<lambda>_. in_sequence ms)"

definition clear_phase :: "'w sdk \<Rightarrow> appwriteConfig \<Rightarrow> ('w, unit) async list" where
  "clear_phase R cfg =
     [clearAll R cfg (categoriesCollectionId cfg), clearAll R cfg (customizationsCollectionId cfg),
      clearAll R cfg (menuCollectionId cfg), clearAll R cfg (menuCustomizationsCollectionId cfg),
      clearStorage R cfg]"

text \<open>
  Stores for the bulk clear: one that answers the delete of the stored category \<open>7\<close>
  with code 404 and keeps the record, and an empty one whose storage refuses to list.
\<close>

definition deny_delete_7 :: "request \<Rightarrow> error option" where
  "deny_delete_7 req =
     (if req = DeleteDocument ''db'' ''categories'' ''7''
      then Some (AppwriteException 404 ''document_not_found'' ''Not found'') else None)"

definition lying_store :: store where
  "lying_store =
     \<lparr>documents = (\<lambda>_. [])((''db'', ''categories'') := two_categories),
      bucket_files = (\<lambda>_. []), next_id = 9, clock = 0, page_limit = None,
      fault = deny_delete_7, web = offline\<rparr>"

definition no_file_listing :: "request \<Rightarrow> error option" where
  "no_file_listing req =
     (if req = ListFiles ''assets''
      then Some (AppwriteException 500 ''general_unknown'' ''Server Error'') else None)"

section \<open>Properties of the combinators\<close>

lemma suspend_fields [simp]:
  "isSeeding (suspend s) = isSeeding s" "console (suspend s) = console s"
  "calls (suspend s) = calls s" "inflight (suspend s) = inflight s" "world (suspend s) = world s"
  "suspended (suspend s) = suspended s @ [snapshot s]"
  by (simp_all add: suspend_def)

lemma waited_fields [simp]:
  "isSeeding (waited req s) = isSeeding s" "console (waited req s) = console s"
  "calls (waited req s) = calls s @ [req]" "inflight (waited req s) = inflight s"
  "world (waited req s) = world s"
  "suspended (waited req s) =
     suspended s @ [snapshot (s\<lparr>calls := calls s @ [req], inflight := inflight s @ [req]\<rparr>)]"
  by (simp_all add: waited_def)

lemma snapshot_fields [simp]:
  "isSeeding (snapshot s) = isSeeding s" "console (snapshot s) = console s"
  "calls (snapshot s) = calls s" "inflight (snapshot s) = inflight s" "world (snapshot s) = world s"
  by (simp_all add: snapshot_def)

lemma resumed_fields [simp]:
  "isSeeding (resumed t) = isSeeding t" "console (resumed t) = console t"
  "calls (resumed t) = calls t" "inflight (resumed t) = inflight t" "world (resumed t) = world t"
  "suspended (resumed t) = []"
  by (simp_all add: resumed_def)

lemma tripleI: "(\<And>s r s'. P s \<Longrightarrow> m s = (r, s') \<Longrightarrow> Q r s') \<Longrightarrow> triple P m Q"
  unfolding triple_def by (metis prod.collapse)

lemma tripleD: "triple P m Q \<Longrightarrow> P s \<Longrightarrow> m s = (r, s') \<Longrightarrow> Q r s'"
  unfolding triple_def by (metis fst_conv snd_conv)

lemma triple_weaken:
  assumes "triple P m Q" and "\<And>s. P' s \<Longrightarrow> P s" and "\<And>r s. Q r s \<Longrightarrow> Q' r s"
  shows "triple P' m Q'"
  using assms unfolding triple_def by blast

lemma triple_await_then:
  assumes m: "triple P m (\<lambda>r s. case r of Inl e \<Rightarrow> Q (Inl e) s | Inr a \<Rightarrow> P' a s)"
    and f: "\<And>a. triple (P' a) (f a) Q"
  shows "triple P (await_then m f) Q"
proof (rule tripleI)
  fix s r s'
  assume P: "P s" and run: "await_then m f s = (r, s')"
  obtain r1 s1 where m1: "m s = (r1, s1)" by (cases "m s")
  from tripleD [OF m P m1] have mid: "case r1 of Inl e \<Rightarrow> Q (Inl e) s1 | Inr a \<Rightarrow> P' a s1" .
  show "Q r s'"
  proof (cases r1)
    case (Inl e)
    with run m1 mid show ?thesis by (simp add: await_then_def)
  next
    case (Inr a)
    with run m1 have "f a s1 = (r, s')" by (simp add: await_then_def)
    moreover from Inr mid have "P' a s1" by simp
    ultimately show ?thesis using tripleD [OF f] by blast
  qed
qed

lemma triple_try_catch:
  assumes m: "triple P m (\<lambda>r s. case r of Inl e \<Rightarrow> P' e s | Inr a \<Rightarrow> Q (Inr a) s)"
    and h: "\<And>e. triple (P' e) (h e) Q"
  shows "triple P (try_catch m h) Q"
proof (rule tripleI)
  fix s r s'
  assume P: "P s" and run: "try_catch m h s = (r, s')"
  obtain r1 s1 where m1: "m s = (r1, s1)" by (cases "m s")
  from tripleD [OF m P m1] have mid: "case r1 of Inl e \<Rightarrow> P' e s1 | Inr a \<Rightarrow> Q (Inr a) s1" .
  show "Q r s'"
  proof (cases r1)
    case (Inr a)
    with run m1 mid show ?thesis by (auto simp: try_catch_def)
  next
    case (Inl e)
    with run m1 have "h e s1 = (r, s')" by (simp add: try_catch_def)
    moreover from Inl mid have "P' e s1" by simp
    ultimately show ?thesis using tripleD [OF h] by blast
  qed
qed

text \<open>A loop whose body never rejects: an invariant over what is left of the list.\<close>

lemma triple_for_of:
  assumes body: "\<And>x xs' acc.
      triple (I (x # xs') acc) (body x acc) (\<lambda>r s. \<exists>acc'. r = Inr acc' \<and> I xs' acc' s)"
  shows "triple (I xs acc) (for_of body xs acc) (\<lambda>r s. \<exists>acc'. r = Inr acc' \<and> I [] acc' s)"
proof (induction xs arbitrary: acc)
  case Nil
  show ?case by (rule tripleI) auto
next
  case (Cons x xs)
  show ?case
  proof (rule tripleI)
    fix s r s'
    assume I: "I (x # xs) acc s" and run: "for_of body (x # xs) acc s = (r, s')"
    obtain r1 s1 where b: "body x acc s = (r1, s1)" by (cases "body x acc s")
    from tripleD [OF body I b] obtain acc' where r1: "r1 = Inr acc'" and I': "I xs acc' s1"
      by blast
    from run b r1 have "for_of body xs acc' s1 = (r, s')" by simp
    with tripleD [OF Cons.IH I'] show "\<exists>acc'. r = Inr acc' \<and> I [] acc' s'" by blast
  qed
qed

section \<open>The re-entrancy flag\<close>

lemma flag_kept_refl: "flag_kept s s"
  by (simp add: flag_kept_def)

lemma flag_kept_trans:
  assumes "flag_kept s s'" and "flag_kept s' s''"
  shows "flag_kept s s''"
proof -
  from assms(1) obtain ts where 1: "isSeeding s' = isSeeding s" "suspended s' = suspended s @ ts"
    "\<forall>t\<in>set ts. isSeeding t = isSeeding s"
    unfolding flag_kept_def by blast
  from assms(2) obtain ts' where 2: "isSeeding s'' = isSeeding s'" "suspended s'' = suspended s' @ ts'"
    "\<forall>t\<in>set ts'. isSeeding t = isSeeding s'"
    unfolding flag_kept_def by blast
  have "suspended s'' = suspended s @ (ts @ ts')" using 1(2) 2(2) by simp
  moreover have "\<forall>t\<in>set (ts @ ts'). isSeeding t = isSeeding s" using 1(1,3) 2(3) by auto
  ultimately show ?thesis
    unfolding flag_kept_def using 1(1) 2(1) by metis
qed

lemma flag_kept_suspend: "flag_kept s (suspend s)"
  by (simp add: flag_kept_def)

lemma flag_kept_waited: "flag_kept s ((waited req s)\<lparr>world := w\<rparr>)"
  by (simp add: flag_kept_def)

lemma flag_kept_update:
  "flag_kept s s' \<Longrightarrow> flag_kept s (s'\<lparr>world := w\<rparr>)"
  "flag_kept s s' \<Longrightarrow> flag_kept s (s'\<lparr>console := c\<rparr>)"
  "flag_kept s s' \<Longrightarrow> flag_kept s (s'\<lparr>calls := cs\<rparr>)"
  "flag_kept s s' \<Longrightarrow> flag_kept s (s'\<lparr>inflight := fs\<rparr>)"
  by (simp_all add: flag_kept_def)

lemma keeps_flagI: "(\<And>s. flag_kept s (snd (m s))) \<Longrightarrow> keeps_flag m"
  by (simp add: keeps_flag_def)

lemma keeps_flagD: "keeps_flag m \<Longrightarrow> m s = (r, s') \<Longrightarrow> flag_kept s s'"
  by (metis keeps_flag_def snd_conv)

lemma keeps_flag_resolve: "keeps_flag (resolve a)"
  by (simp add: keeps_flag_def resolve_def flag_kept_refl)

lemma keeps_flag_reject: "keeps_flag (reject e)"
  by (simp add: keeps_flag_def reject_def flag_kept_refl)

lemma keeps_flag_console_log: "keeps_flag (console_log args)"
  by (simp add: keeps_flag_def console_log_def flag_kept_update flag_kept_refl)

lemma keeps_flag_console_warn: "keeps_flag (console_warn args)"
  by (simp add: keeps_flag_def console_warn_def flag_kept_update flag_kept_refl)

lemma keeps_flag_sdk_call: "keeps_flag (sdk_call req op)"
  by (simp add: keeps_flag_def sdk_call_def flag_kept_waited split: prod.splits)

lemma keeps_flag_unique: "keeps_flag (unique R)"
  by (simp add: keeps_flag_def unique_def flag_kept_update flag_kept_refl split: prod.splits)

lemma keeps_flag_pure: "keeps_flag (\<lambda>s. (r, s))"
  by (simp add: keeps_flag_def flag_kept_refl)

lemma keeps_flag_response_blob: "keeps_flag (response_blob response)"
  by (simp add: keeps_flag_def response_blob_def flag_kept_suspend)

lemma keeps_flag_if: "keeps_flag m \<Longrightarrow> keeps_flag n \<Longrightarrow> keeps_flag (if b then m else n)"
  by simp

lemma keeps_flag_await_then:
  assumes "keeps_flag m" and "\<And>a. keeps_flag (f a)"
  shows "keeps_flag (await_then m f)"
proof (rule keeps_flagI)
  fix s
  obtain r s' where m: "m s = (r, s')" by (cases "m s")
  with assms(1) have s': "flag_kept s s'"
    by (rule keeps_flagD)
  show "flag_kept s (snd (await_then m f s))"
  proof (cases r)
    case (Inl e)
    with m s' show ?thesis by (simp add: await_then_def)
  next
    case (Inr a)
    obtain r2 s2 where f: "f a s' = (r2, s2)" by (cases "f a s'")
    from assms(2) f have "flag_kept s' s2" by (rule keeps_flagD)
    with s' have "flag_kept s s2" by (rule flag_kept_trans)
    with m Inr f show ?thesis by (simp add: await_then_def)
  qed
qed

lemma keeps_flag_try_catch:
  assumes "keeps_flag m" and "\<And>e. keeps_flag (h e)"
  shows "keeps_flag (try_catch m h)"
proof (rule keeps_flagI)
  fix s
  obtain r s' where m: "m s = (r, s')" by (cases "m s")
  with assms(1) have s': "flag_kept s s'"
    by (rule keeps_flagD)
  show "flag_kept s (snd (try_catch m h s))"
  proof (cases r)
    case (Inr a)
    with m s' show ?thesis by (simp add: try_catch_def)
  next
    case (Inl e)
    obtain r2 s2 where h: "h e s' = (r2, s2)" by (cases "h e s'")
    from assms(2) h have "flag_kept s' s2" by (rule keeps_flagD)
    with s' have "flag_kept s s2" by (rule flag_kept_trans)
    with m Inl h show ?thesis by (simp add: try_catch_def)
  qed
qed

lemma keeps_flag_for_of:
  assumes "\<And>x acc. keeps_flag (body x acc)"
  shows "keeps_flag (for_of body xs acc)"
proof (rule keeps_flagI)
  fix s
  show "flag_kept s (snd (for_of body xs acc s))"
  proof (induction xs arbitrary: acc s)
    case Nil
    show ?case by (simp add: flag_kept_refl)
  next
    case (Cons x xs)
    obtain r s' where b: "body x acc s = (r, s')" by (cases "body x acc s")
    from assms b have s': "flag_kept s s'" by (rule keeps_flagD)
    show ?case
    proof (cases r)
      case (Inl e)
      with b s' show ?thesis by simp
    next
      case (Inr acc')
      have "flag_kept s' (snd (for_of body xs acc' s'))" by (rule Cons.IH)
      from flag_kept_trans [OF s' this] b Inr show ?thesis by simp
    qed
  qed
qed

lemma flag_kept_settle_all: "flag_kept s (snd (settle_all ps s))"
proof (induction ps arbitrary: s)
  case Nil
  show ?case by (simp add: flag_kept_refl)
next
  case (Cons p ps)
  obtain r s' where b: "settle p s = (r, s')" by (cases "settle p s")
  then have s': "flag_kept s s'"
    by (auto simp: settle_def flag_kept_def split: prod.splits)
  show ?case
  proof (cases r)
    case (Inl e)
    with b s' show ?thesis by simp
  next
    case (Inr u)
    have "flag_kept s' (snd (settle_all ps s'))" by (rule Cons.IH)
    from flag_kept_trans [OF s' this] b Inr show ?thesis by simp
  qed
qed

lemma keeps_flag_Promise_all: "keeps_flag (Promise_all R ps)"
proof (rule keeps_flagI)
  fix s
  have "flag_kept s (start ps s)" by (simp add: flag_kept_def start_def)
  from flag_kept_trans [OF this flag_kept_settle_all]
  show "flag_kept s (snd (Promise_all R ps s))" by (simp add: Promise_all_def)
qed

lemma keeps_flag_clearAll: "keeps_flag (clearAll R cfg coll)"
  unfolding clearAll_def databases_listDocuments_def
  by (intro keeps_flag_await_then keeps_flag_sdk_call keeps_flag_Promise_all)

lemma keeps_flag_clearStorage: "keeps_flag (clearStorage R cfg)"
  unfolding clearStorage_def storage_listFiles_def
  by (intro keeps_flag_await_then keeps_flag_sdk_call keeps_flag_Promise_all)

lemma keeps_flag_createFile:
  "keeps_flag (\<lambda>s. storage_createFile R b uid (f (world s)) s)"
  by (simp add: keeps_flag_def storage_createFile_def sdk_call_def flag_kept_waited
      split: prod.splits)

lemma keeps_flag_uploadImageToStorage: "keeps_flag (uploadImageToStorage R cfg url)"
  unfolding uploadImageToStorage_def fetch_url_def storage_getFileViewURL_def
  by (intro keeps_flag_try_catch keeps_flag_await_then keeps_flag_sdk_call keeps_flag_if
      keeps_flag_reject keeps_flag_pure keeps_flag_unique keeps_flag_console_warn keeps_flag_resolve
      keeps_flag_response_blob keeps_flag_createFile)

lemma keeps_flag_create_category: "keeps_flag (create_category R cfg cat m)"
  unfolding create_category_def databases_createDocument_def
  by (intro keeps_flag_try_catch keeps_flag_await_then keeps_flag_sdk_call
      keeps_flag_unique keeps_flag_console_warn keeps_flag_resolve)

lemma keeps_flag_create_customization: "keeps_flag (create_customization R cfg cus m)"
  unfolding create_customization_def databases_createDocument_def
  by (intro keeps_flag_try_catch keeps_flag_await_then keeps_flag_sdk_call
      keeps_flag_unique keeps_flag_console_warn keeps_flag_resolve)

lemma keeps_flag_create_menu_customization:
  "keeps_flag (create_menu_customization R cfg m item menuDoc cusName u)"
  unfolding create_menu_customization_def databases_createDocument_def
  by (intro keeps_flag_try_catch keeps_flag_await_then keeps_flag_sdk_call
      keeps_flag_unique keeps_flag_console_warn keeps_flag_resolve)

lemma keeps_flag_create_menu_document: "keeps_flag (create_menu_document R cfg m item)"
  unfolding create_menu_document_def databases_createDocument_def
  by (intro keeps_flag_await_then keeps_flag_sdk_call keeps_flag_unique
      keeps_flag_uploadImageToStorage)

lemma keeps_flag_create_menu_item: "keeps_flag (create_menu_item R cfg cm um item u)"
  unfolding create_menu_item_def
  by (intro keeps_flag_try_catch keeps_flag_await_then keeps_flag_for_of
      keeps_flag_create_menu_document keeps_flag_create_menu_customization keeps_flag_console_warn)

text \<open>
  What follows the first listing in the body of \<open>seed\<close>: the deletes of the first
  clear, the other clears and the creation loops.
\<close>

lemma await_then_assoc:
  "await_then (await_then m f) g = await_then m (\<lambda>a. await_then (f a) g)"
  by (rule ext) (simp add: await_then_def split: prod.splits sum.splits)

lemma seed_body_first_listing:
  "\<exists>K. (\<forall>list. keeps_flag (K list))
     \<and> seed_body R cfg data =
         await_then (console_log [Str (broom @ '' Clearing existing collections and storage...'')]) (\<lambda>_.
         await_then (databases_listDocuments R (databaseId cfg) (categoriesCollectionId cfg)) K)"
proof -
  let ?K = "\<lambda>list.
     await_then (Promise_all R (map (\<lambda>doc. safeDeleteDocument R cfg (categoriesCollectionId cfg) (doc_id doc)) list)) (\<lambda>_.
     await_then (clearAll R cfg (customizationsCollectionId cfg)) (\<lambda>_.
     await_then (clearAll R cfg (menuCollectionId cfg)) (\<lambda>_.
     await_then (clearAll R cfg (menuCustomizationsCollectionId cfg)) (\<lambda>_.
     await_then (clearStorage R cfg) (\<lambda>_.
     await_then (for_of (create_category R cfg) (data_categories data) Map.empty) (\<lambda>categoryMap.
     await_then (for_of (create_customization R cfg) (data_customizations data) Map.empty)
       (\<lambda>customizationMap.
     await_then (for_of (create_menu_item R cfg categoryMap customizationMap) (data_menu data) ())
       (\<lambda>_.
     console_log [Str (check_mark @ '' Seeding complete.'')]))))))))"
  have "\<forall>list. keeps_flag (?K list)"
    by (intro allI keeps_flag_await_then keeps_flag_for_of keeps_flag_console_log keeps_flag_clearAll
        keeps_flag_clearStorage keeps_flag_create_category keeps_flag_create_customization
        keeps_flag_create_menu_item keeps_flag_Promise_all)
  moreover have "seed_body R cfg data =
      await_then (console_log [Str (broom @ '' Clearing existing collections and storage...'')]) (\<lambda>_.
      await_then (databases_listDocuments R (databaseId cfg) (categoriesCollectionId cfg)) ?K)"
    unfolding seed_body_def clearAll_def [of R cfg "categoriesCollectionId cfg"] await_then_assoc ..
  ultimately show ?thesis by (intro exI [where x = ?K] conjI)
qed

lemma keeps_flag_seed_body: "keeps_flag (seed_body R cfg data)"
  unfolding seed_body_def
  by (intro keeps_flag_await_then keeps_flag_for_of keeps_flag_console_log keeps_flag_clearAll
      keeps_flag_clearStorage keeps_flag_create_category keeps_flag_create_customization
      keeps_flag_create_menu_item)

text \<open>The first moment at which the body of \<open>seed\<close> waits, and the moments after it.\<close>

lemma seed_body_waits:
  "\<exists>ts. suspended (snd (seed_body R cfg data s)) =
      suspended s @
      \<lparr>isSeeding = isSeeding s,
       console = console s @ [Log [Str (broom @ '' Clearing existing collections and storage...'')]],
       calls = calls s @ [ListDocuments (databaseId cfg) (categoriesCollectionId cfg)],
       inflight = inflight s @ [ListDocuments (databaseId cfg) (categoriesCollectionId cfg)],
       world = world s\<rparr> # ts
    \<and> (\<forall>t\<in>set ts. isSeeding t = isSeeding s)
    \<and> isSeeding (snd (seed_body R cfg data s)) = isSeeding s"
proof -
  let ?req = "ListDocuments (databaseId cfg) (categoriesCollectionId cfg)"
  let ?op = "listDocuments R (databaseId cfg) (categoriesCollectionId cfg)"
  let ?t = "\<lparr>isSeeding = isSeeding s,
       console = console s @ [Log [Str (broom @ '' Clearing existing collections and storage...'')]],
       calls = calls s @ [?req], inflight = inflight s @ [?req], world = world s\<rparr>"
  from seed_body_first_listing [of R cfg data] obtain K where
    K: "\<And>list. keeps_flag (K list)" and
    body: "seed_body R cfg data =
         await_then (console_log [Str (broom @ '' Clearing existing collections and storage...'')]) (\<lambda>_.
         await_then (databases_listDocuments R (databaseId cfg) (categoriesCollectionId cfg)) K)"
    by blast
  define s0 where "s0 = s\<lparr>console := console s @ [Log [Str (broom @ '' Clearing existing collections and storage...'')]]\<rparr>"
  obtain r w where op: "?op (world s) = (r, w)" by (cases "?op (world s)")
  define s1 where "s1 = (waited ?req s0)\<lparr>world := w\<rparr>"
  have run: "seed_body R cfg data s = await_then (\<lambda>s. (r, s)) K s1"
    unfolding body s1_def s0_def
    using op by (simp add: await_then_def console_log_def databases_listDocuments_def sdk_call_def)
  have snap: "snapshot (s0\<lparr>calls := calls s0 @ [?req], inflight := inflight s0 @ [?req]\<rparr>) = ?t"
    by (simp add: snapshot_def s0_def)
  have s1: "suspended s1 = suspended s @ [?t]" "isSeeding s1 = isSeeding s"
    unfolding s1_def by (simp_all add: snap) (simp_all add: s0_def)
  have "keeps_flag (await_then (\<lambda>s. (r, s)) K)"
    by (intro keeps_flag_await_then keeps_flag_pure K)
  then have "flag_kept s1 (snd (seed_body R cfg data s))"
    unfolding run by (simp add: keeps_flag_def)
  then obtain ts where "isSeeding (snd (seed_body R cfg data s)) = isSeeding s1"
    "suspended (snd (seed_body R cfg data s)) = suspended s1 @ ts"
    "\<forall>t\<in>set ts. isSeeding t = isSeeding s1"
    unfolding flag_kept_def by blast
  then show ?thesis unfolding s1 by auto
qed

text \<open>
  Claim C3. An invocation that finds the flag set prints its notice and returns at
  once: it sends no request, does not wait, and leaves the world, the requests in
  flight and the flag as they are. An invocation that finds the flag clear sets it
  before anything else: the first time it waits, it has printed one line and sent the
  listing of the categories, and the flag is set; the flag is set at every later
  moment at which it waits as well, so that an invocation of \<open>seed\<close> at any of these
  moments finds it set and prints its notice only. When the invocation ends, however
  its body ended, the flag is clear again.
\<close>

theorem seed_single_flight:
  "(isSeeding s \<longrightarrow>
      seed R cfg data s =
        (Inr (),
         s\<lparr>console := console s @
              [Log [Str (warning_sign @ '' Seed already running. Ignoring second click.'')]]\<rparr>))
   \<and> (\<not> isSeeding s \<longrightarrow>
        \<not> isSeeding (snd (seed R cfg data s))
      \<and> (\<exists>ts. suspended (snd (seed R cfg data s)) =
            suspended s @
            \<lparr>isSeeding = True,
             console = console s @ [Log [Str (broom @ '' Clearing existing collections and storage...'')]],
             calls = calls s @ [ListDocuments (databaseId cfg) (categoriesCollectionId cfg)],
             inflight = inflight s @ [ListDocuments (databaseId cfg) (categoriesCollectionId cfg)],
             world = world s\<rparr> # ts
          \<and> (\<forall>t\<in>set ts. isSeeding t)
          \<and> (\<forall>t\<in>set (drop (length (suspended s)) (suspended (snd (seed R cfg data s)))).
                seed R cfg data (resumed t) =
                  (Inr (),
                   (resumed t)\<lparr>console := console t @
                      [Log [Str (warning_sign @ '' Seed already running. Ignoring second click.'')]]\<rparr>))))"
proof (intro conjI impI)
  assume "isSeeding s"
  then show "seed R cfg data s =
        (Inr (),
         s\<lparr>console := console s @
              [Log [Str (warning_sign @ '' Seed already running. Ignoring second click.'')]]\<rparr>)"
    by (simp add: seed_def console_log_def)
next
  assume "\<not> isSeeding s"
  then show "\<not> isSeeding (snd (seed R cfg data s))"
    by (simp add: seed_def try_finally_def split: prod.splits)
next
  assume idle: "\<not> isSeeding s"
  let ?s = "s\<lparr>isSeeding := True\<rparr>"
  let ?t = "\<lparr>isSeeding = True,
             console = console s @ [Log [Str (broom @ '' Clearing existing collections and storage...'')]],
             calls = calls s @ [ListDocuments (databaseId cfg) (categoriesCollectionId cfg)],
             inflight = inflight s @ [ListDocuments (databaseId cfg) (categoriesCollectionId cfg)],
             world = world s\<rparr>"
  from seed_body_waits [of R cfg data ?s] obtain ts where
    ts: "suspended (snd (seed_body R cfg data ?s)) = suspended s @ ?t # ts"
    and held: "\<forall>t\<in>set ts. isSeeding t"
    by auto
  have "suspended (snd (seed R cfg data s)) = suspended (snd (seed_body R cfg data ?s))"
    using idle
    by (cases "seed_body R cfg data ?s"; cases "fst (seed_body R cfg data ?s)")
      (simp_all add: seed_def try_finally_def try_catch_def console_log_def)
  with ts have susp: "suspended (snd (seed R cfg data s)) = suspended s @ ?t # ts" by simp
  have again: "seed R cfg data (resumed t) =
      (Inr (),
       (resumed t)\<lparr>console := console t @
          [Log [Str (warning_sign @ '' Seed already running. Ignoring second click.'')]]\<rparr>)"
    if "isSeeding t" for t :: "'a script"
    using that by (simp add: seed_def console_log_def)
  have all: "\<forall>t\<in>set (?t # ts). isSeeding t" using held by simp
  have "\<forall>t\<in>set (drop (length (suspended s)) (suspended (snd (seed R cfg data s)))).
      seed R cfg data (resumed t) =
        (Inr (),
         (resumed t)\<lparr>console := console t @
            [Log [Str (warning_sign @ '' Seed already running. Ignoring second click.'')]]\<rparr>)"
  proof
    fix t
    assume "t \<in> set (drop (length (suspended s)) (suspended (snd (seed R cfg data s))))"
    then have "t \<in> set (?t # ts)" unfolding susp by simp
    with all have "isSeeding t" by blast
    then show "seed R cfg data (resumed t) =
        (Inr (),
         (resumed t)\<lparr>console := console t @
            [Log [Str (warning_sign @ '' Seed already running. Ignoring second click.'')]]\<rparr>)"
      by (rule again)
  qed
  with susp held show "\<exists>ts. suspended (snd (seed R cfg data s)) = suspended s @ ?t # ts
      \<and> (\<forall>t\<in>set ts. isSeeding t)
      \<and> (\<forall>t\<in>set (drop (length (suspended s)) (suspended (snd (seed R cfg data s)))).
            seed R cfg data (resumed t) =
              (Inr (),
               (resumed t)\<lparr>console := console t @
                  [Log [Str (warning_sign @ '' Seed already running. Ignoring second click.'')]]\<rparr>))"
    by blast
qed

theorem seed_single_flight_witness:
  "seed (store_sdk id) demo_config demo_data
     ((idle (empty_store None no_fault offline))\<lparr>isSeeding := True\<rparr>) =
     (Inr (),
      (idle (empty_store None no_fault offline))
        \<lparr>isSeeding := True,
         console := [Log [Str (warning_sign @ '' Seed already running. Ignoring second click.'')]]\<rparr>)
   \<and> \<not> isSeeding (snd (seed (store_sdk id) demo_config demo_data
          (idle (empty_store None no_fault offline))))
   \<and> \<not> isSeeding (snd (seed (store_sdk id) demo_config demo_data
          (idle (empty_store None unavailable offline))))
   \<and> suspended (snd (seed (store_sdk id) demo_config demo_data
          (idle (empty_store None unavailable offline)))) =
       [\<lparr>isSeeding = True,
         console = [Log [Str (broom @ '' Clearing existing collections and storage...'')]],
         calls = [ListDocuments ''db'' ''categories''],
         inflight = [ListDocuments ''db'' ''categories''],
         world = empty_store None unavailable offline\<rparr>]
   \<and> seed (store_sdk id) demo_config demo_data
       (resumed
         \<lparr>isSeeding = True,
          console = [Log [Str (broom @ '' Clearing existing collections and storage...'')]],
          calls = [ListDocuments ''db'' ''categories''],
          inflight = [ListDocuments ''db'' ''categories''],
          world = empty_store None unavailable offline\<rparr>) =
       (Inr (),
        (resumed
          \<lparr>isSeeding = True,
           console = [Log [Str (broom @ '' Clearing existing collections and storage...'')]],
           calls = [ListDocuments ''db'' ''categories''],
           inflight = [ListDocuments ''db'' ''categories''],
           world = empty_store None unavailable offline\<rparr>)
         \<lparr>console :=
            [Log [Str (broom @ '' Clearing existing collections and storage...'')],
             Log [Str (warning_sign @ '' Seed already running. Ignoring second click.'')]]\<rparr>)"
proof -
  let ?R = "store_sdk id"
  let ?busy = "(idle (empty_store None no_fault offline))\<lparr>isSeeding := True\<rparr>"
  let ?ok = "idle (empty_store None no_fault offline)"
  let ?down = "idle (empty_store None unavailable offline)"
  let ?t = "\<lparr>isSeeding = True,
         console = [Log [Str (broom @ '' Clearing existing collections and storage...'')]],
         calls = [ListDocuments ''db'' ''categories''],
         inflight = [ListDocuments ''db'' ''categories''],
         world = empty_store None unavailable offline\<rparr>"
  have st: "isSeeding ?busy" "\<not> isSeeding ?ok" "\<not> isSeeding ?down" "suspended ?down = []"
    by (simp_all add: idle_def)
  have waits: "suspended (snd (seed ?R demo_config demo_data ?down)) = [?t]"
    by (simp add: seed_def seed_body_def clearAll_def databases_listDocuments_def sdk_call_def
        await_then_def try_catch_def try_finally_def console_log_def store_sdk_def
        store_listDocuments_def unavailable_def idle_def empty_store_def demo_config_def
        snapshot_def)
  from seed_single_flight [of ?busy ?R demo_config demo_data] st(1)
  have c1: "seed ?R demo_config demo_data ?busy =
      (Inr (), ?busy\<lparr>console := console ?busy @
         [Log [Str (warning_sign @ '' Seed already running. Ignoring second click.'')]]\<rparr>)"
    by blast
  from seed_single_flight [of ?ok ?R demo_config demo_data] st(2)
  have c2: "\<not> isSeeding (snd (seed ?R demo_config demo_data ?ok))"
    by blast
  from seed_single_flight [of ?down ?R demo_config demo_data] st(3)
  have c3: "\<not> isSeeding (snd (seed ?R demo_config demo_data ?down))"
    and c4: "\<forall>t\<in>set (drop (length (suspended ?down)) (suspended (snd (seed ?R demo_config demo_data ?down)))).
        seed ?R demo_config demo_data (resumed t) =
          (Inr (), (resumed t)\<lparr>console := console t @
             [Log [Str (warning_sign @ '' Seed already running. Ignoring second click.'')]]\<rparr>)"
    by blast+
  from c4 have c5: "seed ?R demo_config demo_data (resumed ?t) =
      (Inr (), (resumed ?t)\<lparr>console := console ?t @
         [Log [Str (warning_sign @ '' Seed already running. Ignoring second click.'')]]\<rparr>)"
    unfolding waits st(4) by simp
  from c1 c2 c3 waits c5 show ?thesis
    by (simp add: idle_def)
qed

section \<open>Errors never reach the caller of seed\<close>

lemma try_catch_log_total: "\<exists>s'. try_catch m (\<lambda>err. console_log (args err)) s = (Inr (), s')"
  by (cases "m s"; cases "fst (m s)") (auto simp: try_catch_def console_log_def)

text \<open>
  Claim C8. Whatever the SDK, the network and the store do, \<open>seed\<close> ends fulfilled
  and with no value; when its body rejects, the error is printed once after
  \<open>Seed error:\<close> and goes no further. So the \<^verbatim>\<open>catch\<close> handler of the Seed
  button never runs: pressing the button does exactly what \<open>seed\<close> does.
\<close>

theorem seed_never_rejects:
  "fst (seed R cfg data s) = Inr ()
   \<and> Search_onPress R cfg data s = seed R cfg data s
   \<and> (\<forall>err. \<not> isSeeding s \<and> fst (seed_body R cfg data (s\<lparr>isSeeding := True\<rparr>)) = Inl err \<longrightarrow>
        console (snd (seed R cfg data s)) =
          console (snd (seed_body R cfg data (s\<lparr>isSeeding := True\<rparr>))) @ [Log [Str (cross_mark @ '' Seed error:''), Err err]])"
proof -
  have ok: "fst (seed R cfg data s) = Inr ()"
  proof (cases "isSeeding s")
    case True
    then show ?thesis by (simp add: seed_def console_log_def)
  next
    case False
    obtain s' where
      "try_catch (seed_body R cfg data) (\<lambda>err. console_log [Str (cross_mark @ '' Seed error:''), Err err])
         (s\<lparr>isSeeding := True\<rparr>) = (Inr (), s')"
      using try_catch_log_total [of "seed_body R cfg data" "\<lambda>err. [Str (cross_mark @ '' Seed error:''), Err err]"
          "s\<lparr>isSeeding := True\<rparr>"]
      by blast
    with False show ?thesis by (simp add: seed_def try_finally_def)
  qed
  then have press: "Search_onPress R cfg data s = seed R cfg data s"
    by (cases "seed R cfg data s") (simp add: Search_onPress_def try_catch_def)
  have logged: "console (snd (seed R cfg data s)) =
      console (snd (seed_body R cfg data (s\<lparr>isSeeding := True\<rparr>))) @ [Log [Str (cross_mark @ '' Seed error:''), Err err]]"
    if "\<not> isSeeding s" and "fst (seed_body R cfg data (s\<lparr>isSeeding := True\<rparr>)) = Inl err" for err
    using that
    by (cases "seed_body R cfg data (s\<lparr>isSeeding := True\<rparr>)")
      (simp add: seed_def try_finally_def try_catch_def console_log_def)
  from ok press logged show ?thesis by blast
qed

lemmas run_defs = resolve_def reject_def await_then_def try_catch_def try_finally_def
  console_log_def console_warn_def sdk_call_def databases_listDocuments_def
  databases_createDocument_def storage_listFiles_def storage_createFile_def
  storage_getFileViewURL_def fetch_url_def response_blob_def unique_def start_def settle_def
  await_def Promise_all_def safeDeleteDocument_def clearAll_def safeDeleteFile_def
  clearStorage_def last_segment_def placeholder_def file_name_def uploadImageToStorage_def
  create_category_def create_customization_def create_menu_customization_def
  create_menu_document_def create_menu_item_def seed_body_def seed_def

lemmas store_defs = first_page_def not_found_def store_listDocuments_def store_createDocument_def
  store_deleteDocument_def store_listFiles_def store_createFile_def store_deleteFile_def
  store_getFileViewURL_def store_ID_unique_def store_fetch_def store_sdk_def empty_store_def
  idle_def digit_def show_nat.simps

lemmas demo_defs = demo_config_def margherita_def demo_data_def offline_def online_def
  no_fault_def unavailable_def refused_def stocked_store_def two_categories_def
  refuse_delete_7_def faulty_store_def paged_store_def two_category_data_def
  deny_delete_7_def lying_store_def no_file_listing_def

lemma seed_body_unavailable:
  "fst (seed_body (store_sdk id) demo_config demo_data
     ((idle (empty_store None unavailable offline))\<lparr>isSeeding := True\<rparr>)) =
   Inl (AppwriteException 503 ''general_server_error'' ''Service unavailable'')"
  by (simp add: run_defs store_defs demo_defs)

theorem seed_never_rejects_witness:
  "fst (seed (store_sdk id) demo_config demo_data (idle (empty_store None unavailable offline))) =
     Inr ()
   \<and> console (snd (seed (store_sdk id) demo_config demo_data
         (idle (empty_store None unavailable offline)))) =
     console (snd (seed_body (store_sdk id) demo_config demo_data
         ((idle (empty_store None unavailable offline))\<lparr>isSeeding := True\<rparr>))) @
     [Log [Str (cross_mark @ '' Seed error:''),
           Err (AppwriteException 503 ''general_server_error'' ''Service unavailable'')]]"
proof -
  have "\<not> isSeeding (idle (empty_store None unavailable offline))"
    by (simp add: idle_def)
  with seed_body_unavailable
    seed_never_rejects [of "store_sdk id" demo_config demo_data
      "idle (empty_store None unavailable offline)"]
  show ?thesis by blast
qed

section \<open>Safe deletion\<close>

lemma await_safeDeleteDocument:
  "fst (await (safeDeleteDocument R cfg coll docId) s) =
     (case fst (deleteDocument R (databaseId cfg) coll docId (world s)) of
        Inr u \<Rightarrow> Inr ()
      | Inl err \<Rightarrow> if err_code err \<noteq> Some 404 then Inl err else Inr ())"
  "world (snd (await (safeDeleteDocument R cfg coll docId) s)) =
     snd (deleteDocument R (databaseId cfg) coll docId (world s))"
  by (simp_all add: await_def settle_def start_def safeDeleteDocument_def
      split: prod.splits sum.splits)

lemma await_safeDeleteFile:
  "fst (await (safeDeleteFile R cfg fileId) s) =
     (case fst (deleteFile R (bucketId cfg) fileId (world s)) of
        Inr u \<Rightarrow> Inr ()
      | Inl err \<Rightarrow> if err_code err \<noteq> Some 404 then Inl err else Inr ())"
  "world (snd (await (safeDeleteFile R cfg fileId) s)) =
     snd (deleteFile R (bucketId cfg) fileId (world s))"
  by (simp_all add: await_def settle_def start_def safeDeleteFile_def
      split: prod.splits sum.splits)

lemma first_page_subset: "set (first_page pl xs) \<subseteq> set xs"
  by (auto simp: first_page_def split: option.splits dest: in_set_takeD)

lemma store_deleteDocument_removes:
  assumes "fst (store_deleteDocument db coll docId st) = Inr ()"
  shows "docId \<notin> set (map doc_id (documents (snd (store_deleteDocument db coll docId st)) (db, coll)))"
  using assms by (auto simp: store_deleteDocument_def split: option.splits if_splits)

lemma store_deleteFile_removes:
  assumes "fst (store_deleteFile b fileId st) = Inr ()"
  shows "fileId \<notin> set (map file_id (bucket_files (snd (store_deleteFile b fileId st)) b))"
  using assms by (auto simp: store_deleteFile_def split: option.splits if_splits)

lemma store_listDocuments_subset:
  "fst (store_listDocuments db coll st) = Inr ds \<Longrightarrow> set ds \<subseteq> set (documents st (db, coll))"
  using first_page_subset [of "page_limit st" "documents st (db, coll)"]
  by (auto simp: store_listDocuments_def split: option.splits)

lemma store_listFiles_subset:
  "fst (store_listFiles b st) = Inr fs \<Longrightarrow> set fs \<subseteq> set (bucket_files st b)"
  using first_page_subset [of "page_limit st" "bucket_files st b"]
  by (auto simp: store_listFiles_def split: option.splits)

text \<open>
  Claim C5. Awaiting a safe deletion helper, for documents and for files alike: it is
  fulfilled exactly when the delete of the SDK is fulfilled or rejects with code 404,
  and it rejects, with the same error, exactly when the delete rejects with another
  error (or one without a code). On the reference store, when the delete itself
  succeeds the helper succeeds, the record is gone, and no later listing shows it.
\<close>

theorem safe_delete_tolerates_not_found:
  "(fst (await (safeDeleteDocument R cfg coll docId) s) = Inr ()) =
     (case fst (deleteDocument R (databaseId cfg) coll docId (world s)) of
        Inr u \<Rightarrow> True | Inl err \<Rightarrow> err_code err = Some 404)
   \<and> (fst (await (safeDeleteDocument R cfg coll docId) s) = Inl e) =
     (fst (deleteDocument R (databaseId cfg) coll docId (world s)) = Inl e \<and> err_code e \<noteq> Some 404)
   \<and> (fst (await (safeDeleteFile R cfg fileId) s) = Inr ()) =
     (case fst (deleteFile R (bucketId cfg) fileId (world s)) of
        Inr u \<Rightarrow> True | Inl err \<Rightarrow> err_code err = Some 404)
   \<and> (fst (await (safeDeleteFile R cfg fileId) s) = Inl e) =
     (fst (deleteFile R (bucketId cfg) fileId (world s)) = Inl e \<and> err_code e \<noteq> Some 404)
   \<and> (fst (store_deleteDocument (databaseId cfg) coll docId (world t)) = Inr () \<longrightarrow>
        fst (await (safeDeleteDocument (store_sdk sched) cfg coll docId) t) = Inr ()
        \<and> docId \<notin> set (map doc_id (documents
              (world (snd (await (safeDeleteDocument (store_sdk sched) cfg coll docId) t)))
              (databaseId cfg, coll)))
        \<and> (\<forall>ds. fst (store_listDocuments (databaseId cfg) coll
              (world (snd (await (safeDeleteDocument (store_sdk sched) cfg coll docId) t)))) = Inr ds
            \<longrightarrow> docId \<notin> set (map doc_id ds)))
   \<and> (fst (store_deleteFile (bucketId cfg) fileId (world t)) = Inr () \<longrightarrow>
        fst (await (safeDeleteFile (store_sdk sched) cfg fileId) t) = Inr ()
        \<and> fileId \<notin> set (map file_id (bucket_files
              (world (snd (await (safeDeleteFile (store_sdk sched) cfg fileId) t))) (bucketId cfg)))
        \<and> (\<forall>fs. fst (store_listFiles (bucketId cfg)
              (world (snd (await (safeDeleteFile (store_sdk sched) cfg fileId) t)))) = Inr fs
            \<longrightarrow> fileId \<notin> set (map file_id fs)))"
proof (intro conjI impI allI)
  show "(fst (await (safeDeleteDocument R cfg coll docId) s) = Inr ()) =
     (case fst (deleteDocument R (databaseId cfg) coll docId (world s)) of
        Inr u \<Rightarrow> True | Inl err \<Rightarrow> err_code err = Some 404)"
    by (simp add: await_safeDeleteDocument split: sum.splits)
  show "(fst (await (safeDeleteDocument R cfg coll docId) s) = Inl e) =
     (fst (deleteDocument R (databaseId cfg) coll docId (world s)) = Inl e \<and> err_code e \<noteq> Some 404)"
    by (auto simp: await_safeDeleteDocument split: sum.splits)
  show "(fst (await (safeDeleteFile R cfg fileId) s) = Inr ()) =
     (case fst (deleteFile R (bucketId cfg) fileId (world s)) of
        Inr u \<Rightarrow> True | Inl err \<Rightarrow> err_code err = Some 404)"
    by (simp add: await_safeDeleteFile split: sum.splits)
  show "(fst (await (safeDeleteFile R cfg fileId) s) = Inl e) =
     (fst (deleteFile R (bucketId cfg) fileId (world s)) = Inl e \<and> err_code e \<noteq> Some 404)"
    by (auto simp: await_safeDeleteFile split: sum.splits)
next
  assume del: "fst (store_deleteDocument (databaseId cfg) coll docId (world t)) = Inr ()"
  have w: "world (snd (await (safeDeleteDocument (store_sdk sched) cfg coll docId) t)) =
      snd (store_deleteDocument (databaseId cfg) coll docId (world t))"
    by (simp add: await_safeDeleteDocument store_sdk_def)
  from del show "fst (await (safeDeleteDocument (store_sdk sched) cfg coll docId) t) = Inr ()"
    by (simp add: await_safeDeleteDocument store_sdk_def)
  from del show gone: "docId \<notin> set (map doc_id (documents
      (world (snd (await (safeDeleteDocument (store_sdk sched) cfg coll docId) t)))
      (databaseId cfg, coll)))"
    unfolding w by (rule store_deleteDocument_removes)
  fix ds
  assume "fst (store_listDocuments (databaseId cfg) coll
      (world (snd (await (safeDeleteDocument (store_sdk sched) cfg coll docId) t)))) = Inr ds"
  from store_listDocuments_subset [OF this] gone
  show "docId \<notin> set (map doc_id ds)" by auto
next
  assume del: "fst (store_deleteFile (bucketId cfg) fileId (world t)) = Inr ()"
  have w: "world (snd (await (safeDeleteFile (store_sdk sched) cfg fileId) t)) =
      snd (store_deleteFile (bucketId cfg) fileId (world t))"
    by (simp add: await_safeDeleteFile store_sdk_def)
  from del show "fst (await (safeDeleteFile (store_sdk sched) cfg fileId) t) = Inr ()"
    by (simp add: await_safeDeleteFile store_sdk_def)
  from del show gone: "fileId \<notin> set (map file_id (bucket_files
      (world (snd (await (safeDeleteFile (store_sdk sched) cfg fileId) t))) (bucketId cfg)))"
    unfolding w by (rule store_deleteFile_removes)
  fix fs
  assume "fst (store_listFiles (bucketId cfg)
      (world (snd (await (safeDeleteFile (store_sdk sched) cfg fileId) t)))) = Inr fs"
  from store_listFiles_subset [OF this] gone
  show "fileId \<notin> set (map file_id fs)" by auto
qed

theorem safe_delete_tolerates_not_found_witness:
  "fst (await (safeDeleteDocument (store_sdk id) demo_config ''categories'' ''7'') (idle stocked_store)) = Inr ()
   \<and> ''7'' \<notin> set (map doc_id (documents
        (world (snd (await (safeDeleteDocument (store_sdk id) demo_config ''categories'' ''7'')
           (idle stocked_store)))) (''db'', ''categories'')))
   \<and> fst (await (safeDeleteFile (store_sdk id) demo_config ''f1'') (idle stocked_store)) = Inr ()
   \<and> ''f1'' \<notin> set (map file_id (bucket_files
        (world (snd (await (safeDeleteFile (store_sdk id) demo_config ''f1'') (idle stocked_store))))
        ''assets''))
   \<and> fst (await (safeDeleteDocument (store_sdk id) demo_config ''categories'' ''8'') (idle stocked_store)) = Inr ()"
proof -
  have d: "fst (store_deleteDocument (databaseId demo_config) ''categories'' ''7''
      (world (idle stocked_store))) = Inr ()"
    by (simp add: store_defs demo_defs)
  have f: "fst (store_deleteFile (bucketId demo_config) ''f1'' (world (idle stocked_store))) = Inr ()"
    by (simp add: store_defs demo_defs)
  have n: "(case fst (deleteDocument (store_sdk id) (databaseId demo_config) ''categories'' ''8''
      (world (idle stocked_store))) of Inr u \<Rightarrow> True | Inl err \<Rightarrow> err_code err = Some 404)"
    by (simp add: store_defs demo_defs)
  have db: "databaseId demo_config = ''db''" "bucketId demo_config = ''assets''"
    by (simp_all add: demo_config_def)
  from d f
    safe_delete_tolerates_not_found [where cfg = demo_config and coll = "''categories''"
      and docId = "''7''" and fileId = "''f1''" and t = "idle stocked_store" and sched = id]
  have "fst (await (safeDeleteDocument (store_sdk id) demo_config ''categories'' ''7'') (idle stocked_store)) = Inr ()
   \<and> ''7'' \<notin> set (map doc_id (documents
        (world (snd (await (safeDeleteDocument (store_sdk id) demo_config ''categories'' ''7'')
           (idle stocked_store)))) (databaseId demo_config, ''categories'')))
   \<and> fst (await (safeDeleteFile (store_sdk id) demo_config ''f1'') (idle stocked_store)) = Inr ()
   \<and> ''f1'' \<notin> set (map file_id (bucket_files
        (world (snd (await (safeDeleteFile (store_sdk id) demo_config ''f1'') (idle stocked_store))))
        (bucketId demo_config)))"
    by blast
  moreover from n
    safe_delete_tolerates_not_found [where R = "store_sdk id" and cfg = demo_config
      and coll = "''categories''" and docId = "''8''" and s = "idle stocked_store"]
  have "fst (await (safeDeleteDocument (store_sdk id) demo_config ''categories'' ''8'') (idle stocked_store)) = Inr ()"
    by blast
  ultimately show ?thesis by (simp add: db)
qed

section \<open>Image upload\<close>

lemmas upload_defs = uploadImageToStorage_def try_catch_def await_then_def fetch_url_def
  sdk_call_def reject_def resolve_def response_blob_def unique_def storage_createFile_def
  storage_getFileViewURL_def console_warn_def placeholder_def

lemma uploadImageToStorage_total: "\<exists>u. fst (uploadImageToStorage R cfg url s) = Inr u"
  by (simp add: upload_defs split: prod.splits sum.splits)

lemma calls_uploadImageToStorage:
  "\<exists>cs. calls (snd (uploadImageToStorage R cfg url s)) = calls s @ cs"
  by (simp add: upload_defs split: prod.splits sum.splits)




section \<open>Menu items and their join records\<close>

lemma create_menu_customization_step:
  "fst (create_menu_customization R cfg cm item menuDoc cusName u s) = Inr ()"
  "calls (snd (create_menu_customization R cfg cm item menuDoc cusName u s)) =
     calls s @ [join_request cfg cm menuDoc (fst (ID_unique R (world s)), cusName)]"
  by (simp_all add: create_menu_customization_def try_catch_def await_then_def unique_def
      databases_createDocument_def sdk_call_def resolve_def console_warn_def join_request_def
      split: prod.splits sum.splits)

lemma join_loop_calls:
  "fst (for_of (create_menu_customization R cfg cm item menuDoc) names () s) = Inr ()
   \<and> (\<exists>uids. length uids = length names
        \<and> calls (snd (for_of (create_menu_customization R cfg cm item menuDoc) names () s)) =
            calls s @ map (join_request cfg cm menuDoc) (zip uids names))"
proof (induction names arbitrary: s)
  case Nil
  show ?case by simp
next
  case (Cons n names)
  let ?body = "create_menu_customization R cfg cm item menuDoc"
  obtain s1 where step: "?body n () s = (Inr (), s1)"
    using create_menu_customization_step(1) [of R cfg cm item menuDoc n "()" s]
    by (cases "?body n () s") simp
  have c1: "calls s1 = calls s @ [join_request cfg cm menuDoc (fst (ID_unique R (world s)), n)]"
    using create_menu_customization_step(2) [of R cfg cm item menuDoc n "()" s] step by simp
  from Cons [of s1] obtain uids where
    ok: "fst (for_of ?body names () s1) = Inr ()" and
    len: "length uids = length names" and
    cs: "calls (snd (for_of ?body names () s1)) =
          calls s1 @ map (join_request cfg cm menuDoc) (zip uids names)"
    by blast
  have run: "for_of ?body (n # names) () s = for_of ?body names () s1"
    using step by simp
  have "calls (snd (for_of ?body (n # names) () s)) =
      calls s @ map (join_request cfg cm menuDoc) (zip (fst (ID_unique R (world s)) # uids) (n # names))"
    unfolding run cs c1 by simp
  moreover have "length (fst (ID_unique R (world s)) # uids) = length (n # names)"
    using len by simp
  ultimately show ?case using ok run by metis
qed

lemma create_menu_item_total: "fst (create_menu_item R cfg cm um item u s) = Inr ()"
proof (cases "create_menu_document R cfg cm item s")
  case (Pair r s1)
  show ?thesis
  proof (cases r)
    case (Inl e)
    with Pair show ?thesis
      by (simp add: create_menu_item_def try_catch_def await_then_def console_warn_def)
  next
    case (Inr menuDoc)
    with Pair join_loop_calls [of R cfg um item menuDoc "customizations item" s1]
    show ?thesis
      by (cases "for_of (create_menu_customization R cfg um item menuDoc) (customizations item) () s1")
        (simp add: create_menu_item_def try_catch_def await_then_def)
  qed
qed

lemma create_menu_item_failed:
  assumes "create_menu_document R cfg cm item s = (Inl e, s1)"
  shows "create_menu_item R cfg cm um item u s =
     (Inr (), s1\<lparr>console := console s1 @
        [Warn [Str ''Failed to create menu item:'', Str (name item), Err e]]\<rparr>)"
  using assms by (simp add: create_menu_item_def try_catch_def await_then_def console_warn_def)

lemma create_menu_item_created:
  assumes "create_menu_document R cfg cm item s = (Inr menuDoc, s1)"
  shows "create_menu_item R cfg cm um item u s =
     for_of (create_menu_customization R cfg um item menuDoc) (customizations item) () s1"
proof -
  have "fst (for_of (create_menu_customization R cfg um item menuDoc) (customizations item) () s1) = Inr ()"
    using join_loop_calls by blast
  with assms show ?thesis
    by (cases "for_of (create_menu_customization R cfg um item menuDoc) (customizations item) () s1")
      (simp add: create_menu_item_def try_catch_def await_then_def)
qed

lemma joins_uploadImageToStorage:
  "filter is_join_request (calls (snd (uploadImageToStorage R cfg url s))) =
     filter is_join_request (calls s)"
  by (simp add: upload_defs split: prod.splits sum.splits)

lemma joins_create_menu_document:
  "filter is_join_request (calls (snd (create_menu_document R cfg cm item s))) =
     filter is_join_request (calls s)"
proof -
  obtain u s1 where up: "uploadImageToStorage R cfg (image_url item) s = (Inr u, s1)"
    using uploadImageToStorage_total [of R cfg "image_url item" s]
    by (cases "uploadImageToStorage R cfg (image_url item) s") auto
  with joins_uploadImageToStorage [of R cfg "image_url item" s]
  have "filter is_join_request (calls s1) = filter is_join_request (calls s)" by simp
  with up show ?thesis
    by (simp add: create_menu_document_def await_then_def unique_def databases_createDocument_def
        sdk_call_def split: prod.splits)
qed

text \<open>
  Claim C7. When the request that creates a menu item's document rejects, the error is
  caught and printed, the script has sent no request for a join record of that item,
  and the loop goes on with the next item (it does so after every item). When the
  document has been created, one request for a join record is sent for each listed
  customization name, in order, whatever the outcome of the requests before it.
\<close>

theorem menu_item_failures_are_contained:
  "(fst (create_menu_document R cfg categoryMap item s) = Inl e \<longrightarrow>
      create_menu_item R cfg categoryMap customizationMap item () s =
        (Inr (), (snd (create_menu_document R cfg categoryMap item s))
           \<lparr>console := console (snd (create_menu_document R cfg categoryMap item s)) @
              [Warn [Str ''Failed to create menu item:'', Str (name item), Err e]]\<rparr>)
      \<and> filter is_join_request
          (calls (snd (create_menu_item R cfg categoryMap customizationMap item () s))) =
        filter is_join_request (calls s))
   \<and> for_of (create_menu_item R cfg categoryMap customizationMap) (item # items) () s =
       for_of (create_menu_item R cfg categoryMap customizationMap) items ()
         (snd (create_menu_item R cfg categoryMap customizationMap item () s))
   \<and> (create_menu_document R cfg categoryMap item s = (Inr menuDoc, s1) \<longrightarrow>
        (\<exists>uids. length uids = length (customizations item)
           \<and> calls (snd (create_menu_item R cfg categoryMap customizationMap item () s)) =
               calls s1 @ map (join_request cfg customizationMap menuDoc)
                 (zip uids (customizations item))))"
proof (intro conjI impI)
  assume failed: "fst (create_menu_document R cfg categoryMap item s) = Inl e"
  then have doc: "create_menu_document R cfg categoryMap item s =
      (Inl e, snd (create_menu_document R cfg categoryMap item s))"
    by (cases "create_menu_document R cfg categoryMap item s") simp
  from create_menu_item_failed [OF doc]
  show caught: "create_menu_item R cfg categoryMap customizationMap item () s =
        (Inr (), (snd (create_menu_document R cfg categoryMap item s))
           \<lparr>console := console (snd (create_menu_document R cfg categoryMap item s)) @
              [Warn [Str ''Failed to create menu item:'', Str (name item), Err e]]\<rparr>)" .
  show "filter is_join_request
          (calls (snd (create_menu_item R cfg categoryMap customizationMap item () s))) =
        filter is_join_request (calls s)"
    by (simp add: caught joins_create_menu_document)
next
  show "for_of (create_menu_item R cfg categoryMap customizationMap) (item # items) () s =
       for_of (create_menu_item R cfg categoryMap customizationMap) items ()
         (snd (create_menu_item R cfg categoryMap customizationMap item () s))"
    using create_menu_item_total [of R cfg categoryMap customizationMap item "()" s]
    by (cases "create_menu_item R cfg categoryMap customizationMap item () s") simp
next
  assume "create_menu_document R cfg categoryMap item s = (Inr menuDoc, s1)"
  from create_menu_item_created [OF this]
  show "\<exists>uids. length uids = length (customizations item)
           \<and> calls (snd (create_menu_item R cfg categoryMap customizationMap item () s)) =
               calls s1 @ map (join_request cfg customizationMap menuDoc)
                 (zip uids (customizations item))"
    using join_loop_calls [of R cfg customizationMap item menuDoc "customizations item" s1]
    by simp
qed


theorem menu_item_failures_are_contained_witness:
  "fst (create_menu_document (store_sdk id) demo_config Map.empty margherita
          (idle (empty_store None unavailable offline))) =
     Inl (AppwriteException 503 ''general_server_error'' ''Service unavailable'')
   \<and> filter is_join_request
        (calls (snd (create_menu_item (store_sdk id) demo_config Map.empty Map.empty margherita ()
           (idle (empty_store None unavailable offline))))) = []
   \<and> (\<exists>menuDoc uids.
         fst (create_menu_document (store_sdk id) demo_config Map.empty margherita
           (idle (empty_store None no_fault offline))) = Inr menuDoc
         \<and> length uids = 1
         \<and> calls (snd (create_menu_item (store_sdk id) demo_config Map.empty Map.empty margherita ()
              (idle (empty_store None no_fault offline)))) =
            calls (snd (create_menu_document (store_sdk id) demo_config Map.empty margherita
              (idle (empty_store None no_fault offline)))) @
            map (join_request demo_config Map.empty menuDoc) (zip uids [''Extra Cheese'']))"
proof -
  let ?bad = "idle (empty_store None unavailable offline)"
  let ?good = "idle (empty_store None no_fault offline)"
  let ?e = "AppwriteException 503 ''general_server_error'' ''Service unavailable''"
  have failed: "fst (create_menu_document (store_sdk id) demo_config Map.empty margherita ?bad) = Inl ?e"
    by (simp add: create_menu_document_def upload_defs databases_createDocument_def
        store_defs demo_defs)
  from failed
    menu_item_failures_are_contained [where R = "store_sdk id" and cfg = demo_config
      and categoryMap = Map.empty and customizationMap = Map.empty and item = margherita
      and s = ?bad and e = ?e]
  have "filter is_join_request
        (calls (snd (create_menu_item (store_sdk id) demo_config Map.empty Map.empty margherita ()
           ?bad))) = filter is_join_request (calls ?bad)"
    by blast
  then have none: "filter is_join_request
        (calls (snd (create_menu_item (store_sdk id) demo_config Map.empty Map.empty margherita ()
           ?bad))) = []"
    by (simp add: idle_def)
  obtain menuDoc where created:
    "fst (create_menu_document (store_sdk id) demo_config Map.empty margherita ?good) = Inr menuDoc"
    by (simp add: create_menu_document_def upload_defs databases_createDocument_def
        store_defs demo_defs)
  then have "create_menu_document (store_sdk id) demo_config Map.empty margherita ?good =
      (Inr menuDoc, snd (create_menu_document (store_sdk id) demo_config Map.empty margherita ?good))"
    by (cases "create_menu_document (store_sdk id) demo_config Map.empty margherita ?good") simp
  with menu_item_failures_are_contained [where R = "store_sdk id" and cfg = demo_config
      and categoryMap = Map.empty and customizationMap = Map.empty and item = margherita
      and s = ?good and menuDoc = menuDoc
      and ?s1.0 = "snd (create_menu_document (store_sdk id) demo_config Map.empty margherita ?good)"]
  obtain uids where "length uids = length (customizations margherita)"
    and "calls (snd (create_menu_item (store_sdk id) demo_config Map.empty Map.empty margherita () ?good)) =
       calls (snd (create_menu_document (store_sdk id) demo_config Map.empty margherita ?good)) @
       map (join_request demo_config Map.empty menuDoc) (zip uids (customizations margherita))"
    by blast
  then have "length uids = 1
      \<and> calls (snd (create_menu_item (store_sdk id) demo_config Map.empty Map.empty margherita () ?good)) =
       calls (snd (create_menu_document (store_sdk id) demo_config Map.empty margherita ?good)) @
       map (join_request demo_config Map.empty menuDoc) (zip uids [''Extra Cheese''])"
    by (simp add: margherita_def)
  with failed none created show ?thesis by blast
qed

section \<open>Bulk clear\<close>

lemma calls_settle_all: "calls (snd (settle_all ps s)) = calls s"
proof (induction ps arbitrary: s)
  case Nil
  show ?case by simp
next
  case (Cons p ps)
  obtain r s' where b: "settle p s = (r, s')" by (cases "settle p s")
  then have "calls s' = calls s"
    by (auto simp: settle_def split: prod.splits)
  with b Cons show ?case by (cases r) simp_all
qed

lemma calls_Promise_all: "calls (snd (Promise_all R ps s)) = calls s @ map fst ps"
  by (simp add: Promise_all_def calls_settle_all start_def)

lemma inflight_settle_all:
  "fst (settle_all ps s) = Inr () \<Longrightarrow>
     inflight (snd (settle_all ps s)) = fold remove1 (map fst ps) (inflight s)"
proof (induction ps arbitrary: s)
  case Nil
  show ?case by simp
next
  case (Cons p ps)
  obtain r s' where b: "settle p s = (r, s')" by (cases "settle p s")
  then have i: "inflight s' = remove1 (fst p) (inflight s)"
    by (auto simp: settle_def split: prod.splits)
  from Cons.prems b obtain u where r: "r = Inr u" by (cases r) simp_all
  with Cons.prems b have "fst (settle_all ps s') = Inr ()" by simp
  from Cons.IH [OF this] b r i show ?case by simp
qed

lemma fold_remove1_empty: "mset ys \<subseteq># mset xs \<Longrightarrow> fold remove1 xs ys = []"
proof (induction xs arbitrary: ys)
  case Nil
  then show ?case by simp
next
  case (Cons x xs)
  have "mset (remove1 x ys) \<subseteq># mset xs"
    using Cons.prems by (simp add: subset_eq_diff_conv)
  from Cons.IH [OF this] show ?case by simp
qed

lemma inflight_Promise_all:
  assumes "mset (settle_order R ps) = mset ps" and "inflight s = []"
    and "fst (Promise_all R ps s) = Inr ()"
  shows "inflight (snd (Promise_all R ps s)) = []"
proof -
  have "mset (map fst (settle_order R ps)) = mset (map fst ps)"
    using assms(1) by (metis mset_map)
  then have "fold remove1 (map fst (settle_order R ps)) (map fst ps) = []"
    by (intro fold_remove1_empty) simp
  with assms(2,3) show ?thesis
    by (simp add: Promise_all_def inflight_settle_all start_def)
qed

lemma ex_map_of_image:
  assumes "set xs \<subseteq> f ` A"
  shows "\<exists>js. xs = map f js \<and> set js \<subseteq> A"
  using assms
proof (induction xs)
  case Nil
  show ?case by simp
next
  case (Cons x xs)
  then obtain js where "xs = map f js" "set js \<subseteq> A" by auto
  moreover from Cons.prems obtain j where "x = f j" "j \<in> A" by auto
  ultimately have "x # xs = map f (j # js) \<and> set (j # js) \<subseteq> A" by simp
  then show ?case by (rule exI [where x = "j # js"])
qed

lemma settle_order_map:
  assumes once: "settles_each_once sched" and inj: "inj f"
  shows "\<exists>js. sched (map f ids) = map f js \<and> set js = set ids"
proof -
  have m: "mset (sched (map f ids)) = mset (map f ids)"
    using once by (simp add: settles_each_once_def)
  then have s: "set (sched (map f ids)) = f ` set ids"
    by (metis mset_eq_setD set_map)
  then obtain js where js: "sched (map f ids) = map f js" "set js \<subseteq> set ids"
    using ex_map_of_image [of "sched (map f ids)" f "set ids"] by auto
  from s js(1) have "f ` set js = f ` set ids" by (metis set_map)
  with inj have "set js = set ids" by (simp add: inj_image_eq_iff)
  with js(1) show ?thesis by blast
qed

lemma inj_safeDeleteDocument: "inj (safeDeleteDocument R cfg coll)"
  by (rule injI) (simp add: safeDeleteDocument_def)

lemma inj_safeDeleteFile: "inj (safeDeleteFile R cfg)"
  by (rule injI) (simp add: safeDeleteFile_def)

lemma safeDelete_rejects_not_404:
  assumes "\<forall>p\<in>set ps. (\<exists>i. p = safeDeleteDocument R cfg coll i) \<or> (\<exists>i. p = safeDeleteFile R cfg i)"
    and "fst (settle_all ps s) = Inl e"
  shows "err_code e \<noteq> Some 404"
  using assms
proof (induction ps arbitrary: s)
  case Nil
  then show ?case by simp
next
  case (Cons p ps)
  obtain r s' where b: "settle p s = (r, s')" by (cases "settle p s")
  show ?case
  proof (cases r)
    case (Inl e')
    with Cons.prems(2) b have "e' = e" by simp
    moreover from Cons.prems(1) have
      "(\<exists>i. p = safeDeleteDocument R cfg coll i) \<or> (\<exists>i. p = safeDeleteFile R cfg i)" by simp
    ultimately show ?thesis using b Inl
      by (auto simp: settle_def safeDeleteDocument_def safeDeleteFile_def
          split: prod.splits sum.splits if_splits)
  next
    case (Inr u)
    with Cons.prems(2) b have "fst (settle_all ps s') = Inl e" by simp
    moreover from Cons.prems(1) have
      "\<forall>p\<in>set ps. (\<exists>i. p = safeDeleteDocument R cfg coll i) \<or> (\<exists>i. p = safeDeleteFile R cfg i)"
      by simp
    ultimately show ?thesis by (rule Cons.IH [rotated])
  qed
qed

subsection \<open>On the reference store\<close>

lemma without_documents_Nil [simp]: "without_documents key [] st = st"
  by (simp add: without_documents_def)

lemma without_documents_twice:
  "without_documents key js (without_documents key is st) = without_documents key (is @ js) st"
  by (simp add: without_documents_def conj_commute)

lemma without_documents_fields [simp]:
  "fault (without_documents key js st) = fault st"
  "page_limit (without_documents key js st) = page_limit st"
  "web (without_documents key js st) = web st"
  "next_id (without_documents key js st) = next_id st"
  "clock (without_documents key js st) = clock st"
  "bucket_files (without_documents key js st) = bucket_files st"
  by (simp_all add: without_documents_def)

lemma without_documents_cong: "set js = set is \<Longrightarrow> without_documents key js st = without_documents key is st"
  by (simp add: without_documents_def)

lemma store_deleteDocument_accepted:
  assumes "fault st (DeleteDocument db coll i) = None"
  shows "snd (store_deleteDocument db coll i st) = without_documents (db, coll) [i] st"
    and "case fst (store_deleteDocument db coll i st) of
           Inr u \<Rightarrow> True | Inl e \<Rightarrow> err_code e = Some 404"
proof -
  show "snd (store_deleteDocument db coll i st) = without_documents (db, coll) [i] st"
  proof (cases "i \<in> set (map doc_id (documents st (db, coll)))")
    case True
    with assms show ?thesis by (simp add: store_deleteDocument_def without_documents_def)
  next
    case False
    then have "filter (\<lambda>d. doc_id d \<noteq> i) (documents st (db, coll)) = documents st (db, coll)"
      by (auto simp: filter_id_conv)
    with assms False show ?thesis
      by (simp add: store_deleteDocument_def without_documents_def)
  qed
  from assms show "case fst (store_deleteDocument db coll i st) of
           Inr u \<Rightarrow> True | Inl e \<Rightarrow> err_code e = Some 404"
    by (simp add: store_deleteDocument_def not_found_def)
qed

lemma settle_safeDeleteDocument_accepted:
  assumes "fault (world s) (DeleteDocument (databaseId cfg) coll i) = None"
  shows "fst (settle (safeDeleteDocument (store_sdk sched) cfg coll i) s) = Inr ()"
    and "world (snd (settle (safeDeleteDocument (store_sdk sched) cfg coll i) s)) =
       without_documents (databaseId cfg, coll) [i] (world s)"
  using store_deleteDocument_accepted [OF assms]
  by (auto simp: settle_def safeDeleteDocument_def store_sdk_def split: prod.splits sum.splits)

lemma settle_safeDeleteDocument_refused:
  assumes "fault (world s) (DeleteDocument (databaseId cfg) coll i) = Some e"
    and "err_code e \<noteq> Some 404"
  shows "fst (settle (safeDeleteDocument (store_sdk sched) cfg coll i) s) = Inl e"
  using assms
  by (auto simp: settle_def safeDeleteDocument_def store_sdk_def store_deleteDocument_def
      split: prod.splits sum.splits)

lemma world_settle: "fault (world (snd (settle (safeDeleteDocument (store_sdk sched) cfg coll i) s))) = fault (world s)"
  by (auto simp: settle_def safeDeleteDocument_def store_sdk_def store_deleteDocument_def
      split: prod.splits sum.splits option.splits)

lemma settle_all_store_documents:
  assumes "\<forall>i e. fault (world s) (DeleteDocument (databaseId cfg) coll i) = Some e \<longrightarrow>
      err_code e \<noteq> Some 404"
  shows "(fst (settle_all (map (safeDeleteDocument (store_sdk sched) cfg coll) js) s) = Inr ()) =
      (\<forall>j\<in>set js. fault (world s) (DeleteDocument (databaseId cfg) coll j) = None)
    \<and> (fst (settle_all (map (safeDeleteDocument (store_sdk sched) cfg coll) js) s) = Inr () \<longrightarrow>
        world (snd (settle_all (map (safeDeleteDocument (store_sdk sched) cfg coll) js) s)) =
          without_documents (databaseId cfg, coll) js (world s))"
  using assms
proof (induction js arbitrary: s)
  case Nil
  show ?case by simp
next
  case (Cons j js)
  let ?P = "safeDeleteDocument (store_sdk sched) cfg coll"
  obtain r s' where b: "settle (?P j) s = (r, s')" by (cases "settle (?P j) s")
  show ?case
  proof (cases "fault (world s) (DeleteDocument (databaseId cfg) coll j)")
    case None
    from settle_safeDeleteDocument_accepted [OF None, of sched] b
    have r: "r = Inr ()" and w: "world s' = without_documents (databaseId cfg, coll) [j] (world s)"
      by simp_all
    have "\<forall>i e. fault (world s') (DeleteDocument (databaseId cfg) coll i) = Some e \<longrightarrow>
        err_code e \<noteq> Some 404"
      using Cons.prems w by simp
    from Cons.IH [OF this] b r w None show ?thesis
      by (simp add: without_documents_twice)
  next
    case (Some e)
    with Cons.prems have "err_code e \<noteq> Some 404" by blast
    from settle_safeDeleteDocument_refused [OF Some this, of sched] b Some
    show ?thesis by auto
  qed
qed

lemma without_files_Nil [simp]: "without_files b [] st = st"
  by (simp add: without_files_def)

lemma without_files_twice:
  "without_files b js (without_files b is st) = without_files b (is @ js) st"
  by (simp add: without_files_def conj_commute)

lemma without_files_fields [simp]:
  "fault (without_files b js st) = fault st"
  "page_limit (without_files b js st) = page_limit st"
  "web (without_files b js st) = web st"
  "next_id (without_files b js st) = next_id st"
  "clock (without_files b js st) = clock st"
  "documents (without_files b js st) = documents st"
  by (simp_all add: without_files_def)

lemma without_files_cong: "set js = set is \<Longrightarrow> without_files b js st = without_files b is st"
  by (simp add: without_files_def)

lemma store_deleteFile_accepted:
  assumes "fault st (DeleteFile b i) = None"
  shows "snd (store_deleteFile b i st) = without_files b [i] st"
    and "case fst (store_deleteFile b i st) of
           Inr u \<Rightarrow> True | Inl e \<Rightarrow> err_code e = Some 404"
proof -
  show "snd (store_deleteFile b i st) = without_files b [i] st"
  proof (cases "i \<in> set (map file_id (bucket_files st b))")
    case True
    with assms show ?thesis by (simp add: store_deleteFile_def without_files_def)
  next
    case False
    then have "filter (\<lambda>f. file_id f \<noteq> i) (bucket_files st b) = bucket_files st b"
      by (auto simp: filter_id_conv)
    with assms False show ?thesis
      by (simp add: store_deleteFile_def without_files_def)
  qed
  from assms show "case fst (store_deleteFile b i st) of
           Inr u \<Rightarrow> True | Inl e \<Rightarrow> err_code e = Some 404"
    by (simp add: store_deleteFile_def not_found_def)
qed

lemma settle_safeDeleteFile_accepted:
  assumes "fault (world s) (DeleteFile (bucketId cfg) i) = None"
  shows "fst (settle (safeDeleteFile (store_sdk sched) cfg i) s) = Inr ()"
    and "world (snd (settle (safeDeleteFile (store_sdk sched) cfg i) s)) =
       without_files (bucketId cfg) [i] (world s)"
  using store_deleteFile_accepted [OF assms]
  by (auto simp: settle_def safeDeleteFile_def store_sdk_def split: prod.splits sum.splits)

lemma settle_safeDeleteFile_refused:
  assumes "fault (world s) (DeleteFile (bucketId cfg) i) = Some e"
    and "err_code e \<noteq> Some 404"
  shows "fst (settle (safeDeleteFile (store_sdk sched) cfg i) s) = Inl e"
  using assms
  by (auto simp: settle_def safeDeleteFile_def store_sdk_def store_deleteFile_def
      split: prod.splits sum.splits)

lemma settle_all_store_files:
  assumes "\<forall>i e. fault (world s) (DeleteFile (bucketId cfg) i) = Some e \<longrightarrow>
      err_code e \<noteq> Some 404"
  shows "(fst (settle_all (map (safeDeleteFile (store_sdk sched) cfg) js) s) = Inr ()) =
      (\<forall>j\<in>set js. fault (world s) (DeleteFile (bucketId cfg) j) = None)
    \<and> (fst (settle_all (map (safeDeleteFile (store_sdk sched) cfg) js) s) = Inr () \<longrightarrow>
        world (snd (settle_all (map (safeDeleteFile (store_sdk sched) cfg) js) s)) =
          without_files (bucketId cfg) js (world s))"
  using assms
proof (induction js arbitrary: s)
  case Nil
  show ?case by simp
next
  case (Cons j js)
  let ?P = "safeDeleteFile (store_sdk sched) cfg"
  obtain r s' where b: "settle (?P j) s = (r, s')" by (cases "settle (?P j) s")
  show ?case
  proof (cases "fault (world s) (DeleteFile (bucketId cfg) j)")
    case None
    from settle_safeDeleteFile_accepted [OF None, of sched] b
    have r: "r = Inr ()" and w: "world s' = without_files (bucketId cfg) [j] (world s)"
      by simp_all
    have "\<forall>i e. fault (world s') (DeleteFile (bucketId cfg) i) = Some e \<longrightarrow>
        err_code e \<noteq> Some 404"
      using Cons.prems w by simp
    from Cons.IH [OF this] b r w None show ?thesis
      by (simp add: without_files_twice)
  next
    case (Some e)
    with Cons.prems have "err_code e \<noteq> Some 404" by blast
    from settle_safeDeleteFile_refused [OF Some this, of sched] b Some
    show ?thesis by auto
  qed
qed

text \<open>The requests of a bulk clear, for every SDK.\<close>

lemma clearAll_listed:
  assumes "listDocuments R (databaseId cfg) coll (world s) = (Inr list, w)"
  shows "clearAll R cfg coll s =
     Promise_all R (map (\<lambda>doc. safeDeleteDocument R cfg coll (doc_id doc)) list)
       ((waited (ListDocuments (databaseId cfg) coll) s)\<lparr>world := w\<rparr>)"
  using assms by (simp add: clearAll_def await_then_def databases_listDocuments_def sdk_call_def)

lemma clearAll_not_listed:
  assumes "listDocuments R (databaseId cfg) coll (world s) = (Inl e, w)"
  shows "clearAll R cfg coll s =
     (Inl e, (waited (ListDocuments (databaseId cfg) coll) s)\<lparr>world := w\<rparr>)"
  using assms by (simp add: clearAll_def await_then_def databases_listDocuments_def sdk_call_def)

lemma clearStorage_listed:
  assumes "listFiles R (bucketId cfg) (world s) = (Inr list, w)"
  shows "clearStorage R cfg s =
     Promise_all R (map (\<lambda>f. safeDeleteFile R cfg (file_id f)) list)
       ((waited (ListFiles (bucketId cfg)) s)\<lparr>world := w\<rparr>)"
  using assms by (simp add: clearStorage_def await_then_def storage_listFiles_def sdk_call_def)

lemma clearStorage_not_listed:
  assumes "listFiles R (bucketId cfg) (world s) = (Inl e, w)"
  shows "clearStorage R cfg s =
     (Inl e, (waited (ListFiles (bucketId cfg)) s)\<lparr>world := w\<rparr>)"
  using assms by (simp add: clearStorage_def await_then_def storage_listFiles_def sdk_call_def)

lemma calls_clearAll:
  assumes "listDocuments R (databaseId cfg) coll (world s) = (Inr list, w)"
  shows "calls (snd (clearAll R cfg coll s)) =
     calls s @ ListDocuments (databaseId cfg) coll #
       map (\<lambda>d. DeleteDocument (databaseId cfg) coll (doc_id d)) list"
  by (simp add: clearAll_listed [OF assms] calls_Promise_all safeDeleteDocument_def comp_def)

lemma calls_clearStorage:
  assumes "listFiles R (bucketId cfg) (world s) = (Inr list, w)"
  shows "calls (snd (clearStorage R cfg s)) =
     calls s @ ListFiles (bucketId cfg) # map (\<lambda>f. DeleteFile (bucketId cfg) (file_id f)) list"
  by (simp add: clearStorage_listed [OF assms] calls_Promise_all safeDeleteFile_def comp_def)

lemma inflight_clearAll:
  assumes "settles_each_once (settle_order R)" and "inflight s = []"
    and "fst (clearAll R cfg coll s) = Inr ()"
  shows "inflight (snd (clearAll R cfg coll s)) = []"
proof (cases "listDocuments R (databaseId cfg) coll (world s)")
  case (Pair r w)
  show ?thesis
  proof (cases r)
    case (Inl e)
    with Pair assms(3) show ?thesis by (simp add: clearAll_not_listed)
  next
    case (Inr list)
    with Pair have run: "clearAll R cfg coll s =
        Promise_all R (map (\<lambda>doc. safeDeleteDocument R cfg coll (doc_id doc)) list)
          ((waited (ListDocuments (databaseId cfg) coll) s)\<lparr>world := w\<rparr>)"
      by (simp add: clearAll_listed)
    show ?thesis
      unfolding run
      by (rule inflight_Promise_all)
        (use assms run in \<open>simp_all add: settles_each_once_def\<close>)
  qed
qed

lemma inflight_clearStorage:
  assumes "settles_each_once (settle_order R)" and "inflight s = []"
    and "fst (clearStorage R cfg s) = Inr ()"
  shows "inflight (snd (clearStorage R cfg s)) = []"
proof (cases "listFiles R (bucketId cfg) (world s)")
  case (Pair r w)
  show ?thesis
  proof (cases r)
    case (Inl e)
    with Pair assms(3) show ?thesis by (simp add: clearStorage_not_listed)
  next
    case (Inr list)
    with Pair have run: "clearStorage R cfg s =
        Promise_all R (map (\<lambda>f. safeDeleteFile R cfg (file_id f)) list)
          ((waited (ListFiles (bucketId cfg)) s)\<lparr>world := w\<rparr>)"
      by (simp add: clearStorage_listed)
    show ?thesis
      unfolding run
      by (rule inflight_Promise_all)
        (use assms run in \<open>simp_all add: settles_each_once_def\<close>)
  qed
qed

lemma set_settle_order:
  "settles_each_once sched \<Longrightarrow> set (sched ps) = set ps"
  by (metis mset_eq_setD settles_each_once_def)

lemma clearAll_rejects:
  assumes "settles_each_once (settle_order R)" and "fst (clearAll R cfg coll s) = Inl e"
  shows "fst (listDocuments R (databaseId cfg) coll (world s)) = Inl e \<or> err_code e \<noteq> Some 404"
proof (cases "listDocuments R (databaseId cfg) coll (world s)")
  case (Pair r w)
  show ?thesis
  proof (cases r)
    case (Inl e')
    with Pair assms(2) show ?thesis by (simp add: clearAll_not_listed)
  next
    case (Inr list)
    let ?ps = "map (\<lambda>doc. safeDeleteDocument R cfg coll (doc_id doc)) list"
    from Pair Inr assms(2) have
      "fst (settle_all (settle_order R ?ps)
         (start ?ps ((waited (ListDocuments (databaseId cfg) coll) s)\<lparr>world := w\<rparr>))) = Inl e"
      by (simp add: clearAll_listed Promise_all_def)
    moreover have "\<forall>p\<in>set (settle_order R ?ps).
        (\<exists>i. p = safeDeleteDocument R cfg coll i) \<or> (\<exists>i. p = safeDeleteFile R cfg i)"
      using set_settle_order [OF assms(1), of ?ps] by auto
    ultimately have "err_code e \<noteq> Some 404"
      by (rule safeDelete_rejects_not_404 [rotated])
    then show ?thesis ..
  qed
qed

lemma clearStorage_rejects:
  assumes "settles_each_once (settle_order R)" and "fst (clearStorage R cfg s) = Inl e"
  shows "fst (listFiles R (bucketId cfg) (world s)) = Inl e \<or> err_code e \<noteq> Some 404"
proof (cases "listFiles R (bucketId cfg) (world s)")
  case (Pair r w)
  show ?thesis
  proof (cases r)
    case (Inl e')
    with Pair assms(2) show ?thesis by (simp add: clearStorage_not_listed)
  next
    case (Inr list)
    let ?ps = "map (\<lambda>f. safeDeleteFile R cfg (file_id f)) list"
    from Pair Inr assms(2) have
      "fst (settle_all (settle_order R ?ps)
         (start ?ps ((waited (ListFiles (bucketId cfg)) s)\<lparr>world := w\<rparr>))) = Inl e"
      by (simp add: clearStorage_listed Promise_all_def)
    moreover have "\<forall>p\<in>set (settle_order R ?ps).
        (\<exists>i. p = safeDeleteDocument R cfg [] i) \<or> (\<exists>i. p = safeDeleteFile R cfg i)"
      using set_settle_order [OF assms(1), of ?ps] by auto
    ultimately have "err_code e \<noteq> Some 404"
      by (rule safeDelete_rejects_not_404 [rotated])
    then show ?thesis ..
  qed
qed

lemma store_listing:
  "listDocuments (store_sdk sched) db coll st =
     (case fault st (ListDocuments db coll) of
        Some e \<Rightarrow> (Inl e, st)
      | None \<Rightarrow> (Inr (first_page (page_limit st) (documents st (db, coll))), st))"
  "listFiles (store_sdk sched) b st =
     (case fault st (ListFiles b) of
        Some e \<Rightarrow> (Inl e, st)
      | None \<Rightarrow> (Inr (first_page (page_limit st) (bucket_files st b)), st))"
  by (simp_all add: store_sdk_def store_listDocuments_def store_listFiles_def)

lemma clearAll_store:
  assumes once: "settles_each_once sched"
    and honest: "\<forall>i e. fault (world s) (DeleteDocument (databaseId cfg) coll i) = Some e \<longrightarrow>
      err_code e \<noteq> Some 404"
  shows "(fst (clearAll (store_sdk sched) cfg coll s) = Inr ()) =
      (fault (world s) (ListDocuments (databaseId cfg) coll) = None
       \<and> (\<forall>j\<in>set (listed_documents (world s) (databaseId cfg, coll)).
            fault (world s) (DeleteDocument (databaseId cfg) coll j) = None))"
    and "fst (clearAll (store_sdk sched) cfg coll s) = Inr () \<Longrightarrow>
      world (snd (clearAll (store_sdk sched) cfg coll s)) =
        without_documents (databaseId cfg, coll)
          (listed_documents (world s) (databaseId cfg, coll)) (world s)"
proof -
  let ?R = "store_sdk sched"
  let ?page = "first_page (page_limit (world s)) (documents (world s) (databaseId cfg, coll))"
  let ?ids = "listed_documents (world s) (databaseId cfg, coll)"
  have both: "(fst (clearAll ?R cfg coll s) = Inr ()) =
      (fault (world s) (ListDocuments (databaseId cfg) coll) = None
       \<and> (\<forall>j\<in>set ?ids. fault (world s) (DeleteDocument (databaseId cfg) coll j) = None))
    \<and> (fst (clearAll ?R cfg coll s) = Inr () \<longrightarrow>
        world (snd (clearAll ?R cfg coll s)) =
          without_documents (databaseId cfg, coll) ?ids (world s))"
  proof (cases "fault (world s) (ListDocuments (databaseId cfg) coll)")
    case (Some e)
    then have "listDocuments ?R (databaseId cfg) coll (world s) = (Inl e, world s)"
      by (simp add: store_listing)
    from clearAll_not_listed [OF this] Some show ?thesis by simp
  next
    case None
    then have "listDocuments ?R (databaseId cfg) coll (world s) = (Inr ?page, world s)"
      by (simp add: store_listing)
    from clearAll_listed [OF this]
    have run: "clearAll ?R cfg coll s =
        Promise_all ?R (map (safeDeleteDocument ?R cfg coll) ?ids)
          ((waited (ListDocuments (databaseId cfg) coll) s)\<lparr>world := world s\<rparr>)"
      by (simp add: listed_documents_def comp_def)
    obtain js where js: "sched (map (safeDeleteDocument ?R cfg coll) ?ids) =
        map (safeDeleteDocument ?R cfg coll) js" "set js = set ?ids"
      using settle_order_map [OF once inj_safeDeleteDocument] by blast
    let ?s1 = "start (map (safeDeleteDocument ?R cfg coll) ?ids)
        ((waited (ListDocuments (databaseId cfg) coll) s)\<lparr>world := world s\<rparr>)"
    have w1: "world ?s1 = world s" by (simp add: start_def)
    have run': "clearAll ?R cfg coll s = settle_all (map (safeDeleteDocument ?R cfg coll) js) ?s1"
      unfolding run Promise_all_def using js(1) by (simp add: store_sdk_def)
    have "\<forall>i e. fault (world ?s1) (DeleteDocument (databaseId cfg) coll i) = Some e \<longrightarrow>
        err_code e \<noteq> Some 404"
      using honest unfolding w1 by blast
    from settle_all_store_documents [OF this, of sched js] None js(2) show ?thesis
      unfolding run' w1 by (simp add: without_documents_cong [OF js(2)])
  qed
  from both show "(fst (clearAll ?R cfg coll s) = Inr ()) =
      (fault (world s) (ListDocuments (databaseId cfg) coll) = None
       \<and> (\<forall>j\<in>set ?ids. fault (world s) (DeleteDocument (databaseId cfg) coll j) = None))"
    by blast
  from both show "fst (clearAll ?R cfg coll s) = Inr () \<Longrightarrow>
      world (snd (clearAll ?R cfg coll s)) = without_documents (databaseId cfg, coll) ?ids (world s)"
    by blast
qed

lemma clearStorage_store:
  assumes once: "settles_each_once sched"
    and honest: "\<forall>i e. fault (world s) (DeleteFile (bucketId cfg) i) = Some e \<longrightarrow>
      err_code e \<noteq> Some 404"
  shows "(fst (clearStorage (store_sdk sched) cfg s) = Inr ()) =
      (fault (world s) (ListFiles (bucketId cfg)) = None
       \<and> (\<forall>j\<in>set (listed_files (world s) (bucketId cfg)).
            fault (world s) (DeleteFile (bucketId cfg) j) = None))"
    and "fst (clearStorage (store_sdk sched) cfg s) = Inr () \<Longrightarrow>
      world (snd (clearStorage (store_sdk sched) cfg s)) =
        without_files (bucketId cfg) (listed_files (world s) (bucketId cfg)) (world s)"
proof -
  let ?R = "store_sdk sched"
  let ?page = "first_page (page_limit (world s)) (bucket_files (world s) (bucketId cfg))"
  let ?ids = "listed_files (world s) (bucketId cfg)"
  have both: "(fst (clearStorage ?R cfg s) = Inr ()) =
      (fault (world s) (ListFiles (bucketId cfg)) = None
       \<and> (\<forall>j\<in>set ?ids. fault (world s) (DeleteFile (bucketId cfg) j) = None))
    \<and> (fst (clearStorage ?R cfg s) = Inr () \<longrightarrow>
        world (snd (clearStorage ?R cfg s)) = without_files (bucketId cfg) ?ids (world s))"
  proof (cases "fault (world s) (ListFiles (bucketId cfg))")
    case (Some e)
    then have "listFiles ?R (bucketId cfg) (world s) = (Inl e, world s)"
      by (simp add: store_listing)
    from clearStorage_not_listed [OF this] Some show ?thesis by simp
  next
    case None
    then have "listFiles ?R (bucketId cfg) (world s) = (Inr ?page, world s)"
      by (simp add: store_listing)
    from clearStorage_listed [OF this]
    have run: "clearStorage ?R cfg s =
        Promise_all ?R (map (safeDeleteFile ?R cfg) ?ids)
          ((waited (ListFiles (bucketId cfg)) s)\<lparr>world := world s\<rparr>)"
      by (simp add: listed_files_def comp_def)
    obtain js where js: "sched (map (safeDeleteFile ?R cfg) ?ids) =
        map (safeDeleteFile ?R cfg) js" "set js = set ?ids"
      using settle_order_map [OF once inj_safeDeleteFile] by blast
    let ?s1 = "start (map (safeDeleteFile ?R cfg) ?ids)
        ((waited (ListFiles (bucketId cfg)) s)\<lparr>world := world s\<rparr>)"
    have w1: "world ?s1 = world s" by (simp add: start_def)
    have run': "clearStorage ?R cfg s = settle_all (map (safeDeleteFile ?R cfg) js) ?s1"
      unfolding run Promise_all_def using js(1) by (simp add: store_sdk_def)
    have "\<forall>i e. fault (world ?s1) (DeleteFile (bucketId cfg) i) = Some e \<longrightarrow>
        err_code e \<noteq> Some 404"
      using honest unfolding w1 by blast
    from settle_all_store_files [OF this, of sched js] None js(2) show ?thesis
      unfolding run' w1 by (simp add: without_files_cong [OF js(2)])
  qed
  from both show "(fst (clearStorage ?R cfg s) = Inr ()) =
      (fault (world s) (ListFiles (bucketId cfg)) = None
       \<and> (\<forall>j\<in>set ?ids. fault (world s) (DeleteFile (bucketId cfg) j) = None))"
    by blast
  from both show "fst (clearStorage ?R cfg s) = Inr () \<Longrightarrow>
      world (snd (clearStorage ?R cfg s)) = without_files (bucketId cfg) ?ids (world s)"
    by blast
qed

lemma first_page_complete:
  "pl = None \<or> (\<exists>n. pl = Some n \<and> length xs \<le> n) \<Longrightarrow> first_page pl xs = xs"
  by (auto simp: first_page_def)

lemma without_all_documents:
  assumes "set (map doc_id (documents st key)) \<subseteq> set ids"
  shows "documents (without_documents key ids st) key = []"
  using assms by (auto simp: without_documents_def filter_empty_conv)

lemma without_all_files:
  assumes "set (map file_id (bucket_files st b)) \<subseteq> set ids"
  shows "bucket_files (without_files b ids st) b = []"
  using assms by (auto simp: without_files_def filter_empty_conv)

lemma settles_each_once_id: "settles_each_once id" "settles_each_once (settle_order (store_sdk id))"
  by (simp_all add: settles_each_once_def store_sdk_def)

subsection \<open>A rejected bulk clear\<close>

lemma settle_all_append:
  "fst (settle_all ps s) = Inr () \<Longrightarrow> settle_all (ps @ qs) s = settle_all qs (snd (settle_all ps s))"
proof (induction ps arbitrary: s)
  case Nil
  show ?case by simp
next
  case (Cons p ps)
  obtain r s' where b: "settle p s = (r, s')" by (cases "settle p s")
  with Cons.prems obtain u where r: "r = Inr u" by (cases r) simp_all
  with Cons.prems b have "fst (settle_all ps s') = Inr ()" by simp
  from Cons.IH [OF this] b r show ?case by simp
qed

lemma inflight_settle: "inflight (snd (settle p s)) = remove1 (fst p) (inflight s)"
  by (simp add: settle_def split: prod.splits)

lemma settle_all_rejects:
  assumes "fst (settle_all ps s) = Inl e"
  shows "\<exists>settled p rest. ps = settled @ p # rest
      \<and> fst (settle_all settled s) = Inr ()
      \<and> fst (settle p (snd (settle_all settled s))) = Inl e
      \<and> settle_all ps s = settle p (snd (settle_all settled s))"
  using assms
proof (induction ps arbitrary: s)
  case Nil
  then show ?case by simp
next
  case (Cons q qs)
  obtain r s' where b: "settle q s = (r, s')" by (cases "settle q s")
  show ?case
  proof (cases r)
    case (Inl e')
    with Cons.prems b have "e' = e" by simp
    with b Inl have "q # qs = [] @ q # qs \<and> fst (settle_all [] s) = Inr ()
        \<and> fst (settle q (snd (settle_all [] s))) = Inl e
        \<and> settle_all (q # qs) s = settle q (snd (settle_all [] s))"
      by simp
    then show ?thesis by blast
  next
    case (Inr u)
    with Cons.prems b have "fst (settle_all qs s') = Inl e" by simp
    from Cons.IH [OF this] obtain settled p rest where
      qs: "qs = settled @ p # rest" and ok: "fst (settle_all settled s') = Inr ()"
      and bad: "fst (settle p (snd (settle_all settled s'))) = Inl e"
      and run: "settle_all qs s' = settle p (snd (settle_all settled s'))"
      by blast
    from b Inr qs ok bad run
    have "q # qs = (q # settled) @ p # rest \<and> fst (settle_all (q # settled) s) = Inr ()
        \<and> fst (settle p (snd (settle_all (q # settled) s))) = Inl e
        \<and> settle_all (q # qs) s = settle p (snd (settle_all (q # settled) s))"
      by simp
    then show ?thesis by blast
  qed
qed

lemma mset_fold_remove1: "mset (fold remove1 xs ys) = mset ys - mset xs"
proof (induction xs arbitrary: ys)
  case Nil
  show ?case by simp
next
  case (Cons x xs)
  show ?case by (simp add: Cons.IH diff_diff_add)
qed

lemma Promise_all_rejects:
  assumes once: "settles_each_once (settle_order R)"
    and bad: "fst (Promise_all R ps s) = Inl e"
  shows "\<exists>settled p rest. settle_order R ps = settled @ p # rest
      \<and> fst (settle_all settled (start ps s)) = Inr ()
      \<and> fst (settle p (snd (settle_all settled (start ps s)))) = Inl e
      \<and> Promise_all R ps s = settle p (snd (settle_all settled (start ps s)))
      \<and> mset (inflight (snd (Promise_all R ps s))) = mset (inflight s) + mset (map fst rest)"
proof -
  from bad have "fst (settle_all (settle_order R ps) (start ps s)) = Inl e"
    by (simp add: Promise_all_def)
  from settle_all_rejects [OF this] obtain settled p rest where
    ord: "settle_order R ps = settled @ p # rest"
    and ok: "fst (settle_all settled (start ps s)) = Inr ()"
    and rej: "fst (settle p (snd (settle_all settled (start ps s)))) = Inl e"
    and run: "settle_all (settle_order R ps) (start ps s) = settle p (snd (settle_all settled (start ps s)))"
    by blast
  have m: "mset (map fst ps) = mset (map fst settled) + {#fst p#} + mset (map fst rest)"
  proof -
    have "mset (settle_order R ps) = mset ps"
      using once by (simp add: settles_each_once_def)
    then have "mset (map fst (settle_order R ps)) = mset (map fst ps)"
      by (metis mset_map)
    then show ?thesis unfolding ord by simp
  qed
  have "inflight (snd (Promise_all R ps s)) =
      remove1 (fst p) (fold remove1 (map fst settled) (inflight (start ps s)))"
    unfolding Promise_all_def run inflight_settle inflight_settle_all [OF ok] ..
  then have "mset (inflight (snd (Promise_all R ps s))) =
      mset (inflight s) + mset (map fst ps) - mset (map fst settled) - {#fst p#}"
    by (simp add: mset_fold_remove1 start_def)
  also have "\<dots> = mset (inflight s) + mset (map fst rest)"
    unfolding m by simp
  finally have "mset (inflight (snd (Promise_all R ps s))) = mset (inflight s) + mset (map fst rest)" .
  with ord ok rej run show ?thesis
    unfolding Promise_all_def by blast
qed

lemma clearAll_pending:
  assumes once: "settles_each_once (settle_order R)"
    and listed: "listDocuments R (databaseId cfg) coll (world s) = (Inr list, w)"
    and bad: "fst (clearAll R cfg coll s) = Inl e"
  shows "\<exists>settled p rest.
      settle_order R (map (\<lambda>doc. safeDeleteDocument R cfg coll (doc_id doc)) list) = settled @ p # rest
      \<and> fst (settle_all settled (start (map (\<lambda>doc. safeDeleteDocument R cfg coll (doc_id doc)) list)
            ((waited (ListDocuments (databaseId cfg) coll) s)\<lparr>world := w\<rparr>))) = Inr ()
      \<and> clearAll R cfg coll s =
          settle p (snd (settle_all settled (start (map (\<lambda>doc. safeDeleteDocument R cfg coll (doc_id doc)) list)
            ((waited (ListDocuments (databaseId cfg) coll) s)\<lparr>world := w\<rparr>))))
      \<and> mset (inflight (snd (clearAll R cfg coll s))) = mset (inflight s) + mset (map fst rest)"
proof -
  let ?ps = "map (\<lambda>doc. safeDeleteDocument R cfg coll (doc_id doc)) list"
  let ?s1 = "(waited (ListDocuments (databaseId cfg) coll) s)\<lparr>world := w\<rparr>"
  note run = clearAll_listed [OF listed]
  from bad have "fst (Promise_all R ?ps ?s1) = Inl e" unfolding run .
  from Promise_all_rejects [OF once this] show ?thesis
    unfolding run by simp blast
qed

lemma clearStorage_pending:
  assumes once: "settles_each_once (settle_order R)"
    and listed: "listFiles R (bucketId cfg) (world s) = (Inr list, w)"
    and bad: "fst (clearStorage R cfg s) = Inl e"
  shows "\<exists>settled p rest.
      settle_order R (map (\<lambda>f. safeDeleteFile R cfg (file_id f)) list) = settled @ p # rest
      \<and> fst (settle_all settled (start (map (\<lambda>f. safeDeleteFile R cfg (file_id f)) list)
            ((waited (ListFiles (bucketId cfg)) s)\<lparr>world := w\<rparr>))) = Inr ()
      \<and> clearStorage R cfg s =
          settle p (snd (settle_all settled (start (map (\<lambda>f. safeDeleteFile R cfg (file_id f)) list)
            ((waited (ListFiles (bucketId cfg)) s)\<lparr>world := w\<rparr>))))
      \<and> mset (inflight (snd (clearStorage R cfg s))) = mset (inflight s) + mset (map fst rest)"
proof -
  let ?ps = "map (\<lambda>f. safeDeleteFile R cfg (file_id f)) list"
  let ?s1 = "(waited (ListFiles (bucketId cfg)) s)\<lparr>world := w\<rparr>"
  note run = clearStorage_listed [OF listed]
  from bad have "fst (Promise_all R ?ps ?s1) = Inl e" unfolding run .
  from Promise_all_rejects [OF once this] show ?thesis
    unfolding run by simp blast
qed

subsection \<open>The clears of seed\<close>

lemma await_then_resolve: "await_then (resolve a) f = f a"
  by (rule ext) (simp add: await_then_def resolve_def)

lemma await_then_resolve_unit: "await_then m (\<lambda>_. resolve ()) = m"
  by (rule ext) (auto simp: await_then_def resolve_def split: prod.splits sum.splits)

lemma seed_body_clear_phase:
  "seed_body R cfg data =
     await_then (console_log [Str (broom @ '' Clearing existing collections and storage...'')]) (\<lambda>_.
     await_then (in_sequence (clear_phase R cfg)) (\<lambda>_. create_phase R cfg data))"
  by (simp add: seed_body_def clear_phase_def create_phase_def await_then_assoc
      await_then_resolve)

lemma in_sequence_rejects:
  assumes "n < length ms"
    and "fst (in_sequence (take n ms) s) = Inr ()"
    and "fst ((ms ! n) (snd (in_sequence (take n ms) s))) = Inl e"
  shows "in_sequence ms s = (Inl e, snd ((ms ! n) (snd (in_sequence (take n ms) s))))"
  using assms
proof (induction ms arbitrary: n s)
  case Nil
  then show ?case by simp
next
  case (Cons m ms)
  show ?case
  proof (cases n)
    case 0
    with Cons.prems(3) show ?thesis
      by (cases "m s") (simp add: await_then_def resolve_def)
  next
    case (Suc k)
    obtain r s' where b: "m s = (r, s')" by (cases "m s")
    from Cons.prems(2) Suc b obtain u where r: "r = Inr u"
      by (cases r) (simp_all add: await_then_def)
    from Cons.prems Suc b r have "k < length ms" "fst (in_sequence (take k ms) s') = Inr ()"
      "fst ((ms ! k) (snd (in_sequence (take k ms) s'))) = Inl e"
      by (simp_all add: await_then_def)
    from Cons.IH [OF this] Suc b r show ?thesis
      by (simp add: await_then_def)
  qed
qed

lemma seed_body_clear_rejects:
  assumes "n < length (clear_phase R cfg)"
    and "fst (in_sequence (take n (clear_phase R cfg))
        (s\<lparr>console := console s @ [Log [Str (broom @ '' Clearing existing collections and storage...'')]]\<rparr>)) = Inr ()"
    and "fst ((clear_phase R cfg ! n) (snd (in_sequence (take n (clear_phase R cfg))
        (s\<lparr>console := console s @ [Log [Str (broom @ '' Clearing existing collections and storage...'')]]\<rparr>)))) = Inl e"
  shows "seed_body R cfg data s =
      (Inl e, snd ((clear_phase R cfg ! n) (snd (in_sequence (take n (clear_phase R cfg))
        (s\<lparr>console := console s @ [Log [Str (broom @ '' Clearing existing collections and storage...'')]]\<rparr>)))))"
  unfolding seed_body_clear_phase
  using in_sequence_rejects [OF assms]
  by (simp add: await_then_def console_log_def)

subsection \<open>A refused delete on the reference store\<close>

lemma settle_all_store_documents_refused:
  assumes "fault (world s) (DeleteDocument (databaseId cfg) coll j) = Some e"
    and "err_code e \<noteq> Some 404" and "j \<in> set js"
  shows "\<exists>e'. fst (settle_all (map (safeDeleteDocument (store_sdk sched) cfg coll) js) s) = Inl e'"
  using assms
proof (induction js arbitrary: s)
  case Nil
  then show ?case by simp
next
  case (Cons i js)
  let ?P = "safeDeleteDocument (store_sdk sched) cfg coll"
  obtain r s' where b: "settle (?P i) s = (r, s')" by (cases "settle (?P i) s")
  show ?case
  proof (cases r)
    case (Inl e')
    with b show ?thesis by simp
  next
    case (Inr u)
    have "i \<noteq> j"
    proof
      assume "i = j"
      with settle_safeDeleteDocument_refused [OF Cons.prems(1,2), of sched] b Inr
      show False by simp
    qed
    with Cons.prems(3) have j: "j \<in> set js" by simp
    have "fault (world s') = fault (world s)"
      using world_settle [of sched cfg coll i s] b by simp
    with Cons.prems(1) have "fault (world s') (DeleteDocument (databaseId cfg) coll j) = Some e"
      by simp
    from Cons.IH [OF this Cons.prems(2) j] b Inr show ?thesis by simp
  qed
qed

lemma world_settle_file:
  "fault (world (snd (settle (safeDeleteFile (store_sdk sched) cfg i) s))) = fault (world s)"
  by (auto simp: settle_def safeDeleteFile_def store_sdk_def store_deleteFile_def
      split: prod.splits sum.splits option.splits)

lemma settle_all_store_files_refused:
  assumes "fault (world s) (DeleteFile (bucketId cfg) j) = Some e"
    and "err_code e \<noteq> Some 404" and "j \<in> set js"
  shows "\<exists>e'. fst (settle_all (map (safeDeleteFile (store_sdk sched) cfg) js) s) = Inl e'"
  using assms
proof (induction js arbitrary: s)
  case Nil
  then show ?case by simp
next
  case (Cons i js)
  let ?P = "safeDeleteFile (store_sdk sched) cfg"
  obtain r s' where b: "settle (?P i) s = (r, s')" by (cases "settle (?P i) s")
  show ?case
  proof (cases r)
    case (Inl e')
    with b show ?thesis by simp
  next
    case (Inr u)
    have "i \<noteq> j"
    proof
      assume "i = j"
      with settle_safeDeleteFile_refused [OF Cons.prems(1,2), of sched] b Inr
      show False by simp
    qed
    with Cons.prems(3) have j: "j \<in> set js" by simp
    have "fault (world s') = fault (world s)"
      using world_settle_file [of sched cfg i s] b by simp
    with Cons.prems(1) have "fault (world s') (DeleteFile (bucketId cfg) j) = Some e"
      by simp
    from Cons.IH [OF this Cons.prems(2) j] b Inr show ?thesis by simp
  qed
qed

lemma clearAll_store_refused:
  assumes once: "settles_each_once sched"
    and j: "j \<in> set (listed_documents (world s) (databaseId cfg, coll))"
    and refused: "fault (world s) (DeleteDocument (databaseId cfg) coll j) = Some e"
    and code: "err_code e \<noteq> Some 404"
  shows "\<exists>e'. fst (clearAll (store_sdk sched) cfg coll s) = Inl e'"
proof (cases "fault (world s) (ListDocuments (databaseId cfg) coll)")
  case (Some e')
  then have "listDocuments (store_sdk sched) (databaseId cfg) coll (world s) = (Inl e', world s)"
    by (simp add: store_listing)
  from clearAll_not_listed [OF this] show ?thesis by simp
next
  case None
  let ?R = "store_sdk sched"
  let ?page = "first_page (page_limit (world s)) (documents (world s) (databaseId cfg, coll))"
  let ?ids = "listed_documents (world s) (databaseId cfg, coll)"
  from None have "listDocuments ?R (databaseId cfg) coll (world s) = (Inr ?page, world s)"
    by (simp add: store_listing)
  from clearAll_listed [OF this]
  have run: "clearAll ?R cfg coll s =
      Promise_all ?R (map (safeDeleteDocument ?R cfg coll) ?ids)
        ((waited (ListDocuments (databaseId cfg) coll) s)\<lparr>world := world s\<rparr>)"
    by (simp add: listed_documents_def comp_def)
  obtain js where js: "sched (map (safeDeleteDocument ?R cfg coll) ?ids) =
      map (safeDeleteDocument ?R cfg coll) js" "set js = set ?ids"
    using settle_order_map [OF once inj_safeDeleteDocument] by blast
  let ?s1 = "start (map (safeDeleteDocument ?R cfg coll) ?ids)
      ((waited (ListDocuments (databaseId cfg) coll) s)\<lparr>world := world s\<rparr>)"
  have w1: "world ?s1 = world s" by (simp add: start_def)
  have run': "clearAll ?R cfg coll s = settle_all (map (safeDeleteDocument ?R cfg coll) js) ?s1"
    unfolding run Promise_all_def using js(1) by (simp add: store_sdk_def)
  have "fault (world ?s1) (DeleteDocument (databaseId cfg) coll j) = Some e"
    using refused unfolding w1 .
  moreover have "j \<in> set js" using j js(2) by simp
  ultimately show ?thesis
    unfolding run' using code by (intro settle_all_store_documents_refused)
qed

lemma clearStorage_store_refused:
  assumes once: "settles_each_once sched"
    and j: "j \<in> set (listed_files (world s) (bucketId cfg))"
    and refused: "fault (world s) (DeleteFile (bucketId cfg) j) = Some e"
    and code: "err_code e \<noteq> Some 404"
  shows "\<exists>e'. fst (clearStorage (store_sdk sched) cfg s) = Inl e'"
proof (cases "fault (world s) (ListFiles (bucketId cfg))")
  case (Some e')
  then have "listFiles (store_sdk sched) (bucketId cfg) (world s) = (Inl e', world s)"
    by (simp add: store_listing)
  from clearStorage_not_listed [OF this] show ?thesis by simp
next
  case None
  let ?R = "store_sdk sched"
  let ?page = "first_page (page_limit (world s)) (bucket_files (world s) (bucketId cfg))"
  let ?ids = "listed_files (world s) (bucketId cfg)"
  from None have "listFiles ?R (bucketId cfg) (world s) = (Inr ?page, world s)"
    by (simp add: store_listing)
  from clearStorage_listed [OF this]
  have run: "clearStorage ?R cfg s =
      Promise_all ?R (map (safeDeleteFile ?R cfg) ?ids)
        ((waited (ListFiles (bucketId cfg)) s)\<lparr>world := world s\<rparr>)"
    by (simp add: listed_files_def comp_def)
  obtain js where js: "sched (map (safeDeleteFile ?R cfg) ?ids) =
      map (safeDeleteFile ?R cfg) js" "set js = set ?ids"
    using settle_order_map [OF once inj_safeDeleteFile] by blast
  let ?s1 = "start (map (safeDeleteFile ?R cfg) ?ids)
      ((waited (ListFiles (bucketId cfg)) s)\<lparr>world := world s\<rparr>)"
  have w1: "world ?s1 = world s" by (simp add: start_def)
  have run': "clearStorage ?R cfg s = settle_all (map (safeDeleteFile ?R cfg) js) ?s1"
    unfolding run Promise_all_def using js(1) by (simp add: store_sdk_def)
  have "fault (world ?s1) (DeleteFile (bucketId cfg) j) = Some e"
    using refused unfolding w1 .
  moreover have "j \<in> set js" using j js(2) by simp
  ultimately show ?thesis
    unfolding run' using code by (intro settle_all_store_files_refused)
qed

lemma conj13:
  assumes "A1 \<and> A2 \<and> A3 \<and> A4 \<and> A5 \<and> A6 \<and> A7 \<and> A8 \<and> A9 \<and> A10 \<and> A11 \<and> A12 \<and> A13"
  shows A1 A2 A3 A4 A5 A6 A7 A8 A9 A10 A11 A12 A13
  using assms by blast+

text \<open>
  Claim C9, as the script has it. A bulk clear sends one listing request and then a
  delete request for every listed record, before any of them settles. It is fulfilled
  once every delete has settled without a rejection, and then none is in flight. It
  rejects with the error of the listing, or with that of a delete whose code is not 404,
  and then at once: the deletes that would have settled after the rejected one are
  still in flight, and nothing else has happened. Whichever of the five clears of
  \<open>seed\<close> is the first to reject, the body of \<open>seed\<close> ends there with the same error.
  On the reference store one refused delete of a listed record, with a code other than
  404, makes the clear reject. When a clear is fulfilled on a reference store that
  answers 404 only for records it does not hold, exactly the listed records have left
  the store, and the collection or bucket is empty when the listing returned all of
  its records.
\<close>

theorem bulk_clear:
  "(listDocuments R (databaseId cfg) coll (world s) = (Inr list, w) \<longrightarrow>
      calls (snd (clearAll R cfg coll s)) =
        calls s @ ListDocuments (databaseId cfg) coll #
          map (\<lambda>d. DeleteDocument (databaseId cfg) coll (doc_id d)) list)
   \<and> (listFiles R (bucketId cfg) (world s) = (Inr files, w) \<longrightarrow>
      calls (snd (clearStorage R cfg s)) =
        calls s @ ListFiles (bucketId cfg) # map (\<lambda>f. DeleteFile (bucketId cfg) (file_id f)) files)
   \<and> (settles_each_once (settle_order R) \<and> inflight s = []
        \<and> fst (clearAll R cfg coll s) = Inr () \<longrightarrow>
      inflight (snd (clearAll R cfg coll s)) = [])
   \<and> (settles_each_once (settle_order R) \<and> inflight s = []
        \<and> fst (clearStorage R cfg s) = Inr () \<longrightarrow>
      inflight (snd (clearStorage R cfg s)) = [])
   \<and> (settles_each_once (settle_order R) \<and> fst (clearAll R cfg coll s) = Inl e \<longrightarrow>
      fst (listDocuments R (databaseId cfg) coll (world s)) = Inl e \<or> err_code e \<noteq> Some 404)
   \<and> (settles_each_once (settle_order R) \<and> fst (clearStorage R cfg s) = Inl e \<longrightarrow>
      fst (listFiles R (bucketId cfg) (world s)) = Inl e \<or> err_code e \<noteq> Some 404)
   \<and> (settles_each_once (settle_order R)
        \<and> listDocuments R (databaseId cfg) coll (world s) = (Inr list, w)
        \<and> fst (clearAll R cfg coll s) = Inl e \<longrightarrow>
      (\<exists>settled p rest.
          settle_order R (map (\<lambda>doc. safeDeleteDocument R cfg coll (doc_id doc)) list) =
            settled @ p # rest
        \<and> fst (settle_all settled
              (start (map (\<lambda>doc. safeDeleteDocument R cfg coll (doc_id doc)) list)
                ((waited (ListDocuments (databaseId cfg) coll) s)\<lparr>world := w\<rparr>))) = Inr ()
        \<and> clearAll R cfg coll s =
            settle p (snd (settle_all settled
              (start (map (\<lambda>doc. safeDeleteDocument R cfg coll (doc_id doc)) list)
                ((waited (ListDocuments (databaseId cfg) coll) s)\<lparr>world := w\<rparr>))))
        \<and> mset (inflight (snd (clearAll R cfg coll s))) = mset (inflight s) + mset (map fst rest)))
   \<and> (settles_each_once (settle_order R)
        \<and> listFiles R (bucketId cfg) (world s) = (Inr files, w)
        \<and> fst (clearStorage R cfg s) = Inl e \<longrightarrow>
      (\<exists>settled p rest.
          settle_order R (map (\<lambda>f. safeDeleteFile R cfg (file_id f)) files) = settled @ p # rest
        \<and> fst (settle_all settled
              (start (map (\<lambda>f. safeDeleteFile R cfg (file_id f)) files)
                ((waited (ListFiles (bucketId cfg)) s)\<lparr>world := w\<rparr>))) = Inr ()
        \<and> clearStorage R cfg s =
            settle p (snd (settle_all settled
              (start (map (\<lambda>f. safeDeleteFile R cfg (file_id f)) files)
                ((waited (ListFiles (bucketId cfg)) s)\<lparr>world := w\<rparr>))))
        \<and> mset (inflight (snd (clearStorage R cfg s))) = mset (inflight s) + mset (map fst rest)))
   \<and> (n < length (clear_phase R cfg)
        \<and> fst (in_sequence (take n (clear_phase R cfg))
             (s\<lparr>console := console s @
                [Log [Str (broom @ '' Clearing existing collections and storage...'')]]\<rparr>)) = Inr ()
        \<and> fst ((clear_phase R cfg ! n) (snd (in_sequence (take n (clear_phase R cfg))
             (s\<lparr>console := console s @
                [Log [Str (broom @ '' Clearing existing collections and storage...'')]]\<rparr>)))) = Inl e \<longrightarrow>
      seed_body R cfg data s =
        (Inl e, snd ((clear_phase R cfg ! n) (snd (in_sequence (take n (clear_phase R cfg))
             (s\<lparr>console := console s @
                [Log [Str (broom @ '' Clearing existing collections and storage...'')]]\<rparr>))))))
   \<and> (settles_each_once sched
        \<and> j \<in> set (listed_documents (world t) (databaseId cfg, coll))
        \<and> fault (world t) (DeleteDocument (databaseId cfg) coll j) = Some e
        \<and> err_code e \<noteq> Some 404 \<longrightarrow>
      (\<exists>e'. fst (clearAll (store_sdk sched) cfg coll t) = Inl e'))
   \<and> (settles_each_once sched
        \<and> j \<in> set (listed_files (world t) (bucketId cfg))
        \<and> fault (world t) (DeleteFile (bucketId cfg) j) = Some e
        \<and> err_code e \<noteq> Some 404 \<longrightarrow>
      (\<exists>e'. fst (clearStorage (store_sdk sched) cfg t) = Inl e'))
   \<and> (settles_each_once sched \<and> refusals_not_404 (world t)
        \<and> fst (clearAll (store_sdk sched) cfg coll t) = Inr () \<longrightarrow>
      world (snd (clearAll (store_sdk sched) cfg coll t)) =
        without_documents (databaseId cfg, coll)
          (listed_documents (world t) (databaseId cfg, coll)) (world t)
      \<and> (page_limit (world t) = None
           \<or> (\<exists>n. page_limit (world t) = Some n
                 \<and> length (documents (world t) (databaseId cfg, coll)) \<le> n) \<longrightarrow>
         documents (world (snd (clearAll (store_sdk sched) cfg coll t))) (databaseId cfg, coll) = []))
   \<and> (settles_each_once sched \<and> refusals_not_404 (world t)
        \<and> fst (clearStorage (store_sdk sched) cfg t) = Inr () \<longrightarrow>
      world (snd (clearStorage (store_sdk sched) cfg t)) =
        without_files (bucketId cfg) (listed_files (world t) (bucketId cfg)) (world t)
      \<and> (page_limit (world t) = None
           \<or> (\<exists>n. page_limit (world t) = Some n
                 \<and> length (bucket_files (world t) (bucketId cfg)) \<le> n) \<longrightarrow>
         bucket_files (world (snd (clearStorage (store_sdk sched) cfg t))) (bucketId cfg) = []))"
proof (intro conjI impI; (elim conjE)?)
  assume "listDocuments R (databaseId cfg) coll (world s) = (Inr list, w)"
  then show "calls (snd (clearAll R cfg coll s)) =
        calls s @ ListDocuments (databaseId cfg) coll #
          map (\<lambda>d. DeleteDocument (databaseId cfg) coll (doc_id d)) list"
    by (rule calls_clearAll)
next
  assume "listFiles R (bucketId cfg) (world s) = (Inr files, w)"
  then show "calls (snd (clearStorage R cfg s)) =
        calls s @ ListFiles (bucketId cfg) # map (\<lambda>f. DeleteFile (bucketId cfg) (file_id f)) files"
    by (rule calls_clearStorage)
next
  assume "settles_each_once (settle_order R)" "inflight s = []" "fst (clearAll R cfg coll s) = Inr ()"
  then show "inflight (snd (clearAll R cfg coll s)) = []"
    by (rule inflight_clearAll)
next
  assume "settles_each_once (settle_order R)" "inflight s = []" "fst (clearStorage R cfg s) = Inr ()"
  then show "inflight (snd (clearStorage R cfg s)) = []"
    by (rule inflight_clearStorage)
next
  assume "settles_each_once (settle_order R)" "fst (clearAll R cfg coll s) = Inl e"
  then show "fst (listDocuments R (databaseId cfg) coll (world s)) = Inl e \<or> err_code e \<noteq> Some 404"
    by (rule clearAll_rejects)
next
  assume "settles_each_once (settle_order R)" "fst (clearStorage R cfg s) = Inl e"
  then show "fst (listFiles R (bucketId cfg) (world s)) = Inl e \<or> err_code e \<noteq> Some 404"
    by (rule clearStorage_rejects)
next
  assume "settles_each_once (settle_order R)"
    "listDocuments R (databaseId cfg) coll (world s) = (Inr list, w)"
    "fst (clearAll R cfg coll s) = Inl e"
  then show "\<exists>settled p rest.
          settle_order R (map (\<lambda>doc. safeDeleteDocument R cfg coll (doc_id doc)) list) =
            settled @ p # rest
        \<and> fst (settle_all settled
              (start (map (\<lambda>doc. safeDeleteDocument R cfg coll (doc_id doc)) list)
                ((waited (ListDocuments (databaseId cfg) coll) s)\<lparr>world := w\<rparr>))) = Inr ()
        \<and> clearAll R cfg coll s =
            settle p (snd (settle_all settled
              (start (map (\<lambda>doc. safeDeleteDocument R cfg coll (doc_id doc)) list)
                ((waited (ListDocuments (databaseId cfg) coll) s)\<lparr>world := w\<rparr>))))
        \<and> mset (inflight (snd (clearAll R cfg coll s))) = mset (inflight s) + mset (map fst rest)"
    by (rule clearAll_pending)
next
  assume "settles_each_once (settle_order R)"
    "listFiles R (bucketId cfg) (world s) = (Inr files, w)"
    "fst (clearStorage R cfg s) = Inl e"
  then show "\<exists>settled p rest.
          settle_order R (map (\<lambda>f. safeDeleteFile R cfg (file_id f)) files) = settled @ p # rest
        \<and> fst (settle_all settled
              (start (map (\<lambda>f. safeDeleteFile R cfg (file_id f)) files)
                ((waited (ListFiles (bucketId cfg)) s)\<lparr>world := w\<rparr>))) = Inr ()
        \<and> clearStorage R cfg s =
            settle p (snd (settle_all settled
              (start (map (\<lambda>f. safeDeleteFile R cfg (file_id f)) files)
                ((waited (ListFiles (bucketId cfg)) s)\<lparr>world := w\<rparr>))))
        \<and> mset (inflight (snd (clearStorage R cfg s))) = mset (inflight s) + mset (map fst rest)"
    by (rule clearStorage_pending)
next
  assume "n < length (clear_phase R cfg)"
    "fst (in_sequence (take n (clear_phase R cfg))
             (s\<lparr>console := console s @
                [Log [Str (broom @ '' Clearing existing collections and storage...'')]]\<rparr>)) = Inr ()"
    "fst ((clear_phase R cfg ! n) (snd (in_sequence (take n (clear_phase R cfg))
             (s\<lparr>console := console s @
                [Log [Str (broom @ '' Clearing existing collections and storage...'')]]\<rparr>)))) = Inl e"
  then show "seed_body R cfg data s =
        (Inl e, snd ((clear_phase R cfg ! n) (snd (in_sequence (take n (clear_phase R cfg))
             (s\<lparr>console := console s @
                [Log [Str (broom @ '' Clearing existing collections and storage...'')]]\<rparr>)))))"
    by (rule seed_body_clear_rejects)
next
  assume "settles_each_once sched"
    "j \<in> set (listed_documents (world t) (databaseId cfg, coll))"
    "fault (world t) (DeleteDocument (databaseId cfg) coll j) = Some e"
    "err_code e \<noteq> Some 404"
  then show "\<exists>e'. fst (clearAll (store_sdk sched) cfg coll t) = Inl e'"
    by (rule clearAll_store_refused)
next
  assume "settles_each_once sched"
    "j \<in> set (listed_files (world t) (bucketId cfg))"
    "fault (world t) (DeleteFile (bucketId cfg) j) = Some e"
    "err_code e \<noteq> Some 404"
  then show "\<exists>e'. fst (clearStorage (store_sdk sched) cfg t) = Inl e'"
    by (rule clearStorage_store_refused)
next
  assume once: "settles_each_once sched" and honest: "refusals_not_404 (world t)"
    and ok: "fst (clearAll (store_sdk sched) cfg coll t) = Inr ()"
  have honest': "\<forall>i e. fault (world t) (DeleteDocument (databaseId cfg) coll i) = Some e \<longrightarrow>
      err_code e \<noteq> Some 404"
    using honest unfolding refusals_not_404_def by blast
  from clearAll_store(2) [OF once honest' ok]
  show w: "world (snd (clearAll (store_sdk sched) cfg coll t)) =
        without_documents (databaseId cfg, coll)
          (listed_documents (world t) (databaseId cfg, coll)) (world t)" .
  assume "page_limit (world t) = None
           \<or> (\<exists>n. page_limit (world t) = Some n
                 \<and> length (documents (world t) (databaseId cfg, coll)) \<le> n)"
  then have "listed_documents (world t) (databaseId cfg, coll) =
      map doc_id (documents (world t) (databaseId cfg, coll))"
    by (simp add: listed_documents_def first_page_complete)
  then show "documents (world (snd (clearAll (store_sdk sched) cfg coll t))) (databaseId cfg, coll) = []"
    unfolding w by (simp add: without_all_documents)
next
  assume once: "settles_each_once sched" and honest: "refusals_not_404 (world t)"
    and ok: "fst (clearStorage (store_sdk sched) cfg t) = Inr ()"
  have honest': "\<forall>i e. fault (world t) (DeleteFile (bucketId cfg) i) = Some e \<longrightarrow>
      err_code e \<noteq> Some 404"
    using honest unfolding refusals_not_404_def by blast
  from clearStorage_store(2) [OF once honest' ok]
  show w: "world (snd (clearStorage (store_sdk sched) cfg t)) =
        without_files (bucketId cfg) (listed_files (world t) (bucketId cfg)) (world t)" .
  assume "page_limit (world t) = None
           \<or> (\<exists>n. page_limit (world t) = Some n
                 \<and> length (bucket_files (world t) (bucketId cfg)) \<le> n)"
  then have "listed_files (world t) (bucketId cfg) = map file_id (bucket_files (world t) (bucketId cfg))"
    by (simp add: listed_files_def first_page_complete)
  then show "bucket_files (world (snd (clearStorage (store_sdk sched) cfg t))) (bucketId cfg) = []"
    unfolding w by (simp add: without_all_files)
qed

theorem bulk_clear_counterexample:
  "fst (clearAll (store_sdk id) demo_config ''categories'' (idle faulty_store)) =
     Inl (AppwriteException 500 ''general_unknown'' ''Server Error'')
   \<and> inflight (snd (clearAll (store_sdk id) demo_config ''categories'' (idle faulty_store))) =
     [DeleteDocument ''db'' ''categories'' ''8'']
   \<and> documents (world (snd (clearAll (store_sdk id) demo_config ''categories'' (idle faulty_store))))
       (''db'', ''categories'') = two_categories
   \<and> fst (clearAll (store_sdk id) demo_config ''categories'' (idle paged_store)) = Inr ()
   \<and> documents (world (snd (clearAll (store_sdk id) demo_config ''categories'' (idle paged_store))))
       (''db'', ''categories'') =
     [\<lparr>doc_id = ''8'', doc_data = CategoryData \<lparr>cat_name = ''Drinks'', cat_description = ''Cold''\<rparr>\<rparr>]
   \<and> fst (clearAll (store_sdk id) demo_config ''categories'' (idle lying_store)) = Inr ()
   \<and> documents (world (snd (clearAll (store_sdk id) demo_config ''categories'' (idle lying_store))))
       (''db'', ''categories'') =
     [\<lparr>doc_id = ''7'', doc_data = CategoryData \<lparr>cat_name = ''Pizza'', cat_description = ''Baked''\<rparr>\<rparr>]"
  by (simp add: run_defs store_defs demo_defs)

theorem bulk_clear_witness:
  "(calls (snd (clearAll (store_sdk id) demo_config ''categories'' (idle faulty_store))) =
     [ListDocuments ''db'' ''categories'', DeleteDocument ''db'' ''categories'' ''7'',
      DeleteDocument ''db'' ''categories'' ''8'']
   \<and> calls (snd (clearStorage (store_sdk id) demo_config (idle stocked_store))) =
     [ListFiles ''assets'', DeleteFile ''assets'' ''f1'']
   \<and> inflight (snd (clearAll (store_sdk id) demo_config ''categories'' (idle stocked_store))) = []
   \<and> inflight (snd (clearStorage (store_sdk id) demo_config (idle stocked_store))) = []
   \<and> err_code (AppwriteException 500 ''general_unknown'' ''Server Error'') \<noteq> Some 404
   \<and> fst (listFiles (store_sdk id) ''assets'' (empty_store None unavailable offline)) =
       Inl (AppwriteException 503 ''general_server_error'' ''Service unavailable'')
   \<and> fst (seed_body (store_sdk id) demo_config demo_data
         (idle (empty_store None no_file_listing offline))) =
       Inl (AppwriteException 500 ''general_unknown'' ''Server Error'')
   \<and> calls (snd (seed_body (store_sdk id) demo_config demo_data
         (idle (empty_store None no_file_listing offline)))) =
       [ListDocuments ''db'' ''categories'', ListDocuments ''db'' ''customizations'',
        ListDocuments ''db'' ''menu'', ListDocuments ''db'' ''menu_customizations'',
        ListFiles ''assets'']
   \<and> (\<exists>e'. fst (clearAll (store_sdk id) demo_config ''categories'' (idle faulty_store)) = Inl e')
   \<and> (\<exists>e'. fst (clearStorage (store_sdk id) demo_config
         (idle (stocked_store\<lparr>fault := (\<lambda>req. if req = DeleteFile ''assets'' ''f1''
            then Some (AppwriteException 500 ''general_unknown'' ''Server Error'') else None)\<rparr>))) = Inl e')
   \<and> documents (world (snd (clearAll (store_sdk id) demo_config ''categories'' (idle stocked_store))))
       (''db'', ''categories'') = []
   \<and> bucket_files (world (snd (clearStorage (store_sdk id) demo_config (idle stocked_store))))
       ''assets'' = [])
   \<and> (\<exists>settled p rest.
          settle_order (store_sdk id)
            (map (\<lambda>doc. safeDeleteDocument (store_sdk id) demo_config ''categories'' (doc_id doc))
               two_categories) = settled @ p # rest
        \<and> fst (settle_all settled
              (start (map (\<lambda>doc. safeDeleteDocument (store_sdk id) demo_config ''categories'' (doc_id doc))
                  two_categories)
                ((waited (ListDocuments (databaseId demo_config) ''categories'') (idle faulty_store))
                   \<lparr>world := faulty_store\<rparr>))) = Inr ()
        \<and> clearAll (store_sdk id) demo_config ''categories'' (idle faulty_store) =
            settle p (snd (settle_all settled
              (start (map (\<lambda>doc. safeDeleteDocument (store_sdk id) demo_config ''categories'' (doc_id doc))
                  two_categories)
                ((waited (ListDocuments (databaseId demo_config) ''categories'') (idle faulty_store))
                   \<lparr>world := faulty_store\<rparr>))))
        \<and> mset (inflight (snd (clearAll (store_sdk id) demo_config ''categories'' (idle faulty_store)))) =
            mset (inflight (idle faulty_store)) + mset (map fst rest))
   \<and> (\<exists>settled p rest.
          settle_order (store_sdk id)
            (map (\<lambda>f. safeDeleteFile (store_sdk id) demo_config (file_id f))
               (bucket_files stocked_store ''assets'')) = settled @ p # rest
        \<and> fst (settle_all settled
              (start (map (\<lambda>f. safeDeleteFile (store_sdk id) demo_config (file_id f))
                  (bucket_files stocked_store ''assets''))
                ((waited (ListFiles (bucketId demo_config))
                    (idle (stocked_store\<lparr>fault := (\<lambda>req. if req = DeleteFile ''assets'' ''f1''
                       then Some (AppwriteException 500 ''general_unknown'' ''Server Error'') else None)\<rparr>)))
                   \<lparr>world := stocked_store\<lparr>fault := (\<lambda>req. if req = DeleteFile ''assets'' ''f1''
                       then Some (AppwriteException 500 ''general_unknown'' ''Server Error'') else None)\<rparr>\<rparr>))) = Inr ()
        \<and> clearStorage (store_sdk id) demo_config
              (idle (stocked_store\<lparr>fault := (\<lambda>req. if req = DeleteFile ''assets'' ''f1''
                 then Some (AppwriteException 500 ''general_unknown'' ''Server Error'') else None)\<rparr>)) =
            settle p (snd (settle_all settled
              (start (map (\<lambda>f. safeDeleteFile (store_sdk id) demo_config (file_id f))
                  (bucket_files stocked_store ''assets''))
                ((waited (ListFiles (bucketId demo_config))
                    (idle (stocked_store\<lparr>fault := (\<lambda>req. if req = DeleteFile ''assets'' ''f1''
                       then Some (AppwriteException 500 ''general_unknown'' ''Server Error'') else None)\<rparr>)))
                   \<lparr>world := stocked_store\<lparr>fault := (\<lambda>req. if req = DeleteFile ''assets'' ''f1''
                       then Some (AppwriteException 500 ''general_unknown'' ''Server Error'') else None)\<rparr>\<rparr>))))
        \<and> mset (inflight (snd (clearStorage (store_sdk id) demo_config
              (idle (stocked_store\<lparr>fault := (\<lambda>req. if req = DeleteFile ''assets'' ''f1''
                 then Some (AppwriteException 500 ''general_unknown'' ''Server Error'') else None)\<rparr>))))) =
            mset (inflight (idle (stocked_store\<lparr>fault := (\<lambda>req. if req = DeleteFile ''assets'' ''f1''
                 then Some (AppwriteException 500 ''general_unknown'' ''Server Error'') else None)\<rparr>))) +
            mset (map fst rest))"
proof -
  let ?R = "store_sdk id"
  let ?e500 = "AppwriteException 500 ''general_unknown'' ''Server Error''"
  let ?e503 = "AppwriteException 503 ''general_server_error'' ''Service unavailable''"
  let ?log = "[Log [Str (broom @ '' Clearing existing collections and storage...'')]]"
  let ?stuck = "stocked_store\<lparr>fault := (\<lambda>req. if req = DeleteFile ''assets'' ''f1''
      then Some ?e500 else None)\<rparr>"
  let ?nofiles = "idle (empty_store None no_file_listing offline)"
  have cfg: "databaseId demo_config = ''db''" "bucketId demo_config = ''assets''"
    "categoriesCollectionId demo_config = ''categories''"
    by (simp_all add: demo_config_def)
  have honest: "refusals_not_404 (world (idle stocked_store))"
    by (simp add: refusals_not_404_def store_defs demo_defs)
  have idle: "inflight (idle stocked_store) = []" "calls (idle faulty_store) = []"
    "calls (idle stocked_store) = []"
    by (simp_all add: idle_def)
  have docs: "listDocuments ?R (databaseId demo_config) ''categories'' (world (idle faulty_store)) =
      (Inr two_categories, faulty_store)"
    by (simp add: store_defs demo_defs)
  have files: "listFiles ?R (bucketId demo_config) (world (idle stocked_store)) =
      (Inr [\<lparr>file_id = ''f1'', file_input =
            \<lparr>fi_name = ''a.png'', fi_type = ''image/png'', fi_size = 1,
             fi_uri = ''https://img.example/a.png''\<rparr>\<rparr>], stocked_store)"
    by (simp add: store_defs demo_defs)
  have files': "listFiles ?R (bucketId demo_config) (world (idle ?stuck)) =
      (Inr (bucket_files stocked_store ''assets''), ?stuck)"
    by (simp add: store_defs demo_defs)
  have ok_docs: "fst (clearAll ?R demo_config ''categories'' (idle stocked_store)) = Inr ()"
    by (simp add: run_defs store_defs demo_defs)
  have ok_files: "fst (clearStorage ?R demo_config (idle stocked_store)) = Inr ()"
    by (simp add: run_defs store_defs demo_defs)
  have bad_docs: "fst (clearAll ?R demo_config ''categories'' (idle faulty_store)) = Inl ?e500"
    by (simp add: run_defs store_defs demo_defs)
  have bad_files: "fst (clearStorage ?R demo_config (idle (empty_store None unavailable offline))) =
      Inl ?e503"
    by (simp add: run_defs store_defs demo_defs)
  have stuck_files: "fst (clearStorage ?R demo_config (idle ?stuck)) = Inl ?e500"
    by (simp add: run_defs store_defs demo_defs)
  have fifth: "4 < length (clear_phase ?R demo_config)"
    by (simp add: clear_phase_def)
  have four_ok: "fst (in_sequence (take 4 (clear_phase ?R demo_config))
      (?nofiles\<lparr>console := console ?nofiles @ ?log\<rparr>)) = Inr ()"
    by (simp add: clear_phase_def run_defs store_defs demo_defs)
  have fifth_bad: "fst ((clear_phase ?R demo_config ! 4)
      (snd (in_sequence (take 4 (clear_phase ?R demo_config))
        (?nofiles\<lparr>console := console ?nofiles @ ?log\<rparr>)))) = Inl ?e500"
    by (simp add: clear_phase_def run_defs store_defs demo_defs)
  have fifth_calls: "calls (snd ((clear_phase ?R demo_config ! 4)
      (snd (in_sequence (take 4 (clear_phase ?R demo_config))
        (?nofiles\<lparr>console := console ?nofiles @ ?log\<rparr>))))) =
      [ListDocuments ''db'' ''categories'', ListDocuments ''db'' ''customizations'',
       ListDocuments ''db'' ''menu'', ListDocuments ''db'' ''menu_customizations'',
       ListFiles ''assets'']"
    by (simp add: clear_phase_def run_defs store_defs demo_defs)
  have listed: "''7'' \<in> set (listed_documents (world (idle faulty_store))
      (databaseId demo_config, ''categories''))"
    "fault (world (idle faulty_store)) (DeleteDocument (databaseId demo_config) ''categories'' ''7'') =
      Some ?e500"
    "err_code ?e500 \<noteq> Some 404"
    by (simp_all add: listed_documents_def store_defs demo_defs)
  have listed': "''f1'' \<in> set (listed_files (world (idle ?stuck)) (bucketId demo_config))"
    "fault (world (idle ?stuck)) (DeleteFile (bucketId demo_config) ''f1'') = Some ?e500"
    by (simp_all add: listed_files_def store_defs demo_defs)
  have whole: "page_limit (world (idle stocked_store)) = None"
    by (simp add: store_defs demo_defs)
  note at_faulty = conj13 [OF bulk_clear [where R = ?R and cfg = demo_config and coll = "''categories''"
      and s = "idle faulty_store" and t = "idle faulty_store" and sched = id and j = "''7''"
      and e = ?e500 and list = two_categories and w = faulty_store and data = demo_data]]
  note at_stocked = conj13 [OF bulk_clear [where R = ?R and cfg = demo_config and coll = "''categories''"
      and s = "idle stocked_store" and t = "idle stocked_store" and sched = id
      and w = stocked_store
      and files = "[\<lparr>file_id = ''f1'', file_input =
            \<lparr>fi_name = ''a.png'', fi_type = ''image/png'', fi_size = 1,
             fi_uri = ''https://img.example/a.png''\<rparr>\<rparr>]"]]
  note at_down = conj13 [OF bulk_clear [where R = ?R and cfg = demo_config
      and s = "idle (empty_store None unavailable offline)" and e = ?e503]]
  note at_stuck = conj13 [OF bulk_clear [where R = ?R and cfg = demo_config and s = "idle ?stuck"
      and t = "idle ?stuck" and sched = id and j = "''f1''" and e = ?e500
      and files = "bucket_files stocked_store ''assets''" and w = ?stuck]]
  note at_nofiles = conj13 [OF bulk_clear [where R = ?R and cfg = demo_config and s = ?nofiles
      and n = 4 and e = ?e500 and data = demo_data]]
  from at_faulty(1) docs have c1:
    "calls (snd (clearAll ?R demo_config ''categories'' (idle faulty_store))) =
       calls (idle faulty_store) @ ListDocuments (databaseId demo_config) ''categories'' #
         map (\<lambda>d. DeleteDocument (databaseId demo_config) ''categories'' (doc_id d)) two_categories"
    by blast
  from at_stocked(2) files have c2:
    "calls (snd (clearStorage ?R demo_config (idle stocked_store))) =
       calls (idle stocked_store) @ ListFiles (bucketId demo_config) #
         map (\<lambda>f. DeleteFile (bucketId demo_config) (file_id f))
           [\<lparr>file_id = ''f1'', file_input =
              \<lparr>fi_name = ''a.png'', fi_type = ''image/png'', fi_size = 1,
               fi_uri = ''https://img.example/a.png''\<rparr>\<rparr>]"
    by blast
  from at_stocked(3) settles_each_once_id(2) idle(1) ok_docs have c3:
    "inflight (snd (clearAll ?R demo_config ''categories'' (idle stocked_store))) = []"
    by blast
  from at_stocked(4) settles_each_once_id(2) idle(1) ok_files have c4:
    "inflight (snd (clearStorage ?R demo_config (idle stocked_store))) = []"
    by blast
  from at_faulty(5) settles_each_once_id(2) bad_docs have c5:
    "fst (listDocuments ?R (databaseId demo_config) ''categories'' (world (idle faulty_store))) = Inl ?e500
      \<or> err_code ?e500 \<noteq> Some 404"
    by blast
  from at_down(6) settles_each_once_id(2) bad_files have c6:
    "fst (listFiles ?R (bucketId demo_config) (world (idle (empty_store None unavailable offline)))) =
       Inl ?e503 \<or> err_code ?e503 \<noteq> Some 404"
    by blast
  from at_faulty(7) settles_each_once_id(2) docs bad_docs have c7:
    "\<exists>settled p rest.
          settle_order ?R
            (map (\<lambda>doc. safeDeleteDocument ?R demo_config ''categories'' (doc_id doc))
               two_categories) = settled @ p # rest
        \<and> fst (settle_all settled
              (start (map (\<lambda>doc. safeDeleteDocument ?R demo_config ''categories'' (doc_id doc))
                  two_categories)
                ((waited (ListDocuments (databaseId demo_config) ''categories'') (idle faulty_store))
                   \<lparr>world := faulty_store\<rparr>))) = Inr ()
        \<and> clearAll ?R demo_config ''categories'' (idle faulty_store) =
            settle p (snd (settle_all settled
              (start (map (\<lambda>doc. safeDeleteDocument ?R demo_config ''categories'' (doc_id doc))
                  two_categories)
                ((waited (ListDocuments (databaseId demo_config) ''categories'') (idle faulty_store))
                   \<lparr>world := faulty_store\<rparr>))))
        \<and> mset (inflight (snd (clearAll ?R demo_config ''categories'' (idle faulty_store)))) =
            mset (inflight (idle faulty_store)) + mset (map fst rest)"
    by blast
  from at_stuck(8) settles_each_once_id(2) files' stuck_files have c8:
    "\<exists>settled p rest.
          settle_order ?R
            (map (\<lambda>f. safeDeleteFile ?R demo_config (file_id f))
               (bucket_files stocked_store ''assets'')) = settled @ p # rest
        \<and> fst (settle_all settled
              (start (map (\<lambda>f. safeDeleteFile ?R demo_config (file_id f))
                  (bucket_files stocked_store ''assets''))
                ((waited (ListFiles (bucketId demo_config)) (idle ?stuck))\<lparr>world := ?stuck\<rparr>))) = Inr ()
        \<and> clearStorage ?R demo_config (idle ?stuck) =
            settle p (snd (settle_all settled
              (start (map (\<lambda>f. safeDeleteFile ?R demo_config (file_id f))
                  (bucket_files stocked_store ''assets''))
                ((waited (ListFiles (bucketId demo_config)) (idle ?stuck))\<lparr>world := ?stuck\<rparr>))))
        \<and> mset (inflight (snd (clearStorage ?R demo_config (idle ?stuck)))) =
            mset (inflight (idle ?stuck)) + mset (map fst rest)"
    by blast
  from at_nofiles(9) fifth four_ok fifth_bad have c9:
    "seed_body ?R demo_config demo_data ?nofiles =
       (Inl ?e500, snd ((clear_phase ?R demo_config ! 4)
          (snd (in_sequence (take 4 (clear_phase ?R demo_config))
            (?nofiles\<lparr>console := console ?nofiles @ ?log\<rparr>)))))"
    by blast
  from at_faulty(10) settles_each_once_id(1) listed have c10:
    "\<exists>e'. fst (clearAll ?R demo_config ''categories'' (idle faulty_store)) = Inl e'"
    by blast
  from at_stuck(11) settles_each_once_id(1) listed' listed(3) have c11:
    "\<exists>e'. fst (clearStorage ?R demo_config (idle ?stuck)) = Inl e'"
    by blast
  from at_stocked(12) settles_each_once_id(1) honest ok_docs whole have c12:
    "documents (world (snd (clearAll ?R demo_config ''categories'' (idle stocked_store))))
       (databaseId demo_config, ''categories'') = []"
    by blast
  from at_stocked(13) settles_each_once_id(1) honest ok_files whole have c13:
    "bucket_files (world (snd (clearStorage ?R demo_config (idle stocked_store))))
       (bucketId demo_config) = []"
    by blast
  from c1 c2 c3 c4 c5 c6 c9 c10 c11 c12 c13 fifth_calls
  have simple: "calls (snd (clearAll ?R demo_config ''categories'' (idle faulty_store))) =
     [ListDocuments ''db'' ''categories'', DeleteDocument ''db'' ''categories'' ''7'',
      DeleteDocument ''db'' ''categories'' ''8'']
   \<and> calls (snd (clearStorage ?R demo_config (idle stocked_store))) =
     [ListFiles ''assets'', DeleteFile ''assets'' ''f1'']
   \<and> inflight (snd (clearAll ?R demo_config ''categories'' (idle stocked_store))) = []
   \<and> inflight (snd (clearStorage ?R demo_config (idle stocked_store))) = []
   \<and> err_code ?e500 \<noteq> Some 404
   \<and> fst (listFiles ?R ''assets'' (empty_store None unavailable offline)) = Inl ?e503
   \<and> fst (seed_body ?R demo_config demo_data ?nofiles) = Inl ?e500
   \<and> calls (snd (seed_body ?R demo_config demo_data ?nofiles)) =
       [ListDocuments ''db'' ''categories'', ListDocuments ''db'' ''customizations'',
        ListDocuments ''db'' ''menu'', ListDocuments ''db'' ''menu_customizations'',
        ListFiles ''assets'']
   \<and> (\<exists>e'. fst (clearAll ?R demo_config ''categories'' (idle faulty_store)) = Inl e')
   \<and> (\<exists>e'. fst (clearStorage ?R demo_config (idle ?stuck)) = Inl e')
   \<and> documents (world (snd (clearAll ?R demo_config ''categories'' (idle stocked_store))))
       (''db'', ''categories'') = []
   \<and> bucket_files (world (snd (clearStorage ?R demo_config (idle stocked_store)))) ''assets'' = []"
    by (simp add: cfg idle two_categories_def store_defs demo_defs)
  from simple c7 c8 show ?thesis by blast
qed

section \<open>The creation loops on the reference store\<close>

lemma with_documents_twice:
  "with_documents key ds2 k2 (with_documents key ds1 k1 st) = with_documents key (ds1 @ ds2) (k1 + k2) st"
  by (simp add: with_documents_def add.assoc)

lemma with_documents_fields [simp]:
  "fault (with_documents key ds k st) = fault st"
  "page_limit (with_documents key ds k st) = page_limit st"
  "web (with_documents key ds k st) = web st"
  "next_id (with_documents key ds k st) = next_id st + k"
  "documents (with_documents key ds k st) key = documents st key @ ds"
  "key' \<noteq> key \<Longrightarrow> documents (with_documents key ds k st) key' = documents st key'"
  by (simp_all add: with_documents_def)

lemma store_env_with_documents [simp]: "store_env (with_documents key ds k st) = store_env st"
  by (simp add: store_env_def)

lemma store_env_without [simp]:
  "store_env (without_documents key ids st) = store_env st"
  "store_env (without_files b ids st) = store_env st"
  by (simp_all add: store_env_def)

lemma fault_store_env: "store_env st' = store_env st \<Longrightarrow> fault st' = fault st"
  by (simp add: store_env_def)

lemma store_unique:
  "unique (store_sdk sched) s =
     (Inr (show_nat (next_id (world s))), s\<lparr>world := (world s)\<lparr>next_id := Suc (next_id (world s))\<rparr>\<rparr>)"
  by (simp add: unique_def store_sdk_def store_ID_unique_def)

lemma store_createDocument_refused:
  assumes "fault (world s) = create_faults F" and "F coll p = Some e"
  shows "databases_createDocument (store_sdk sched) db coll uid p s =
     (Inl e, waited (CreateDocument db coll uid p) s)"
  using assms
  by (simp add: databases_createDocument_def sdk_call_def store_sdk_def store_createDocument_def
      create_faults_def)

lemma store_createDocument_accepted:
  assumes "fault (world s) = create_faults F" and "F coll p = None"
  shows "databases_createDocument (store_sdk sched) db coll uid p s =
     (Inr \<lparr>doc_id = uid, doc_data = p\<rparr>,
      (waited (CreateDocument db coll uid p) s)
        \<lparr>world := (world s)\<lparr>documents := (documents (world s))
          ((db, coll) := documents (world s) (db, coll) @ [\<lparr>doc_id = uid, doc_data = p\<rparr>])\<rparr>\<rparr>)"
  using assms
  by (simp add: databases_createDocument_def sdk_call_def store_sdk_def store_createDocument_def
      create_faults_def)

lemma create_category_store:
  assumes "fault (world s) = create_faults F"
  shows "fst (create_category (store_sdk sched) cfg cat m s) =
      Inr (if F (categoriesCollectionId cfg) (CategoryData cat) = None
           then set_property m (cat_name cat) (show_nat (next_id (world s))) else m)"
    and "world (snd (create_category (store_sdk sched) cfg cat m s)) =
      with_documents (databaseId cfg, categoriesCollectionId cfg)
        (if F (categoriesCollectionId cfg) (CategoryData cat) = None
         then [\<lparr>doc_id = show_nat (next_id (world s)), doc_data = CategoryData cat\<rparr>] else [])
        1 (world s)"
proof -
  let ?s1 = "s\<lparr>world := (world s)\<lparr>next_id := Suc (next_id (world s))\<rparr>\<rparr>"
  have f1: "fault (world ?s1) = create_faults F" using assms by simp
  show "fst (create_category (store_sdk sched) cfg cat m s) =
      Inr (if F (categoriesCollectionId cfg) (CategoryData cat) = None
           then set_property m (cat_name cat) (show_nat (next_id (world s))) else m)"
  proof (cases "F (categoriesCollectionId cfg) (CategoryData cat)")
    case None
    from store_createDocument_accepted [OF f1 None] None show ?thesis
      by (simp add: create_category_def try_catch_def await_then_def store_unique resolve_def)
  next
    case (Some e)
    from store_createDocument_refused [OF f1 Some] Some show ?thesis
      by (simp add: create_category_def try_catch_def await_then_def store_unique resolve_def
          console_warn_def)
  qed
  show "world (snd (create_category (store_sdk sched) cfg cat m s)) =
      with_documents (databaseId cfg, categoriesCollectionId cfg)
        (if F (categoriesCollectionId cfg) (CategoryData cat) = None
         then [\<lparr>doc_id = show_nat (next_id (world s)), doc_data = CategoryData cat\<rparr>] else [])
        1 (world s)"
  proof (cases "F (categoriesCollectionId cfg) (CategoryData cat)")
    case None
    from store_createDocument_accepted [OF f1 None] None show ?thesis
      by (simp add: create_category_def try_catch_def await_then_def store_unique resolve_def
          with_documents_def)
  next
    case (Some e)
    from store_createDocument_refused [OF f1 Some] Some show ?thesis
      by (simp add: create_category_def try_catch_def await_then_def store_unique resolve_def
          console_warn_def with_documents_def)
  qed
qed

lemma create_customization_store:
  assumes "fault (world s) = create_faults F"
  shows "fst (create_customization (store_sdk sched) cfg cus m s) =
      Inr (if F (customizationsCollectionId cfg) (CustomizationData cus) = None
           then set_property m (cus_name cus) (show_nat (next_id (world s))) else m)"
    and "world (snd (create_customization (store_sdk sched) cfg cus m s)) =
      with_documents (databaseId cfg, customizationsCollectionId cfg)
        (if F (customizationsCollectionId cfg) (CustomizationData cus) = None
         then [\<lparr>doc_id = show_nat (next_id (world s)), doc_data = CustomizationData cus\<rparr>] else [])
        1 (world s)"
proof -
  let ?s1 = "s\<lparr>world := (world s)\<lparr>next_id := Suc (next_id (world s))\<rparr>\<rparr>"
  have f1: "fault (world ?s1) = create_faults F" using assms by simp
  show "fst (create_customization (store_sdk sched) cfg cus m s) =
      Inr (if F (customizationsCollectionId cfg) (CustomizationData cus) = None
           then set_property m (cus_name cus) (show_nat (next_id (world s))) else m)"
  proof (cases "F (customizationsCollectionId cfg) (CustomizationData cus)")
    case None
    from store_createDocument_accepted [OF f1 None] None show ?thesis
      by (simp add: create_customization_def try_catch_def await_then_def store_unique resolve_def)
  next
    case (Some e)
    from store_createDocument_refused [OF f1 Some] Some show ?thesis
      by (simp add: create_customization_def try_catch_def await_then_def store_unique resolve_def
          console_warn_def)
  qed
  show "world (snd (create_customization (store_sdk sched) cfg cus m s)) =
      with_documents (databaseId cfg, customizationsCollectionId cfg)
        (if F (customizationsCollectionId cfg) (CustomizationData cus) = None
         then [\<lparr>doc_id = show_nat (next_id (world s)), doc_data = CustomizationData cus\<rparr>] else [])
        1 (world s)"
  proof (cases "F (customizationsCollectionId cfg) (CustomizationData cus)")
    case None
    from store_createDocument_accepted [OF f1 None] None show ?thesis
      by (simp add: create_customization_def try_catch_def await_then_def store_unique resolve_def
          with_documents_def)
  next
    case (Some e)
    from store_createDocument_refused [OF f1 Some] Some show ?thesis
      by (simp add: create_customization_def try_catch_def await_then_def store_unique resolve_def
          console_warn_def with_documents_def)
  qed
qed

lemma create_menu_customization_store:
  assumes "fault (world s) = create_faults F"
  shows "world (snd (create_menu_customization (store_sdk sched) cfg m item menuDoc cusName u s)) =
      with_documents (databaseId cfg, menuCustomizationsCollectionId cfg)
        (if F (menuCustomizationsCollectionId cfg)
              (MenuCustomizationData (doc_id menuDoc) (get_property m cusName)) = None
         then [\<lparr>doc_id = show_nat (next_id (world s)),
                doc_data = MenuCustomizationData (doc_id menuDoc) (get_property m cusName)\<rparr>] else [])
        1 (world s)"
proof -
  let ?s1 = "s\<lparr>world := (world s)\<lparr>next_id := Suc (next_id (world s))\<rparr>\<rparr>"
  have f1: "fault (world ?s1) = create_faults F" using assms by simp
  show ?thesis
  proof (cases "F (menuCustomizationsCollectionId cfg)
      (MenuCustomizationData (doc_id menuDoc) (get_property m cusName))")
    case None
    from store_createDocument_accepted [OF f1 None] None show ?thesis
      by (simp add: create_menu_customization_def try_catch_def await_then_def store_unique
          resolve_def with_documents_def)
  next
    case (Some e)
    from store_createDocument_refused [OF f1 Some] Some show ?thesis
      by (simp add: create_menu_customization_def try_catch_def await_then_def store_unique
          resolve_def console_warn_def with_documents_def)
  qed
qed

lemma map_doc_data_new_documents: "map doc_data (new_documents accepted n ps) = filter accepted ps"
  by (induction ps arbitrary: n) simp_all

lemma new_documents_all: "map doc_data (new_documents (\<lambda>p. True) n ps) = ps"
  by (simp add: map_doc_data_new_documents)

lemma length_new_documents_all: "length (new_documents (\<lambda>p. True) n ps) = length ps"
  by (metis length_map new_documents_all)

lemma for_of_step:
  assumes "fst (body x acc s) = Inr acc'"
  shows "for_of body (x # xs) acc s = for_of body xs acc' (snd (body x acc s))"
  using assms by (cases "body x acc s") simp

lemma with_documents_Nil: "with_documents key [] 0 st = st"
  by (simp add: with_documents_def)

lemma categories_loop_store:
  assumes "fault (world s) = create_faults F"
  shows "fst (for_of (create_category (store_sdk sched) cfg) cats m s) =
      Inr (new_ids (\<lambda>p. F (categoriesCollectionId cfg) p = None) (next_id (world s))
             (map (\<lambda>c. (cat_name c, CategoryData c)) cats) m)
    \<and> world (snd (for_of (create_category (store_sdk sched) cfg) cats m s)) =
      with_documents (databaseId cfg, categoriesCollectionId cfg)
        (new_documents (\<lambda>p. F (categoriesCollectionId cfg) p = None) (next_id (world s))
           (map CategoryData cats))
        (length cats) (world s)"
  using assms
proof (induction cats arbitrary: m s)
  case Nil
  show ?case by (simp add: with_documents_Nil)
next
  case (Cons c cats)
  let ?body = "create_category (store_sdk sched) cfg"
  let ?ok = "\<lambda>p. F (categoriesCollectionId cfg) p = None"
  let ?key = "(databaseId cfg, categoriesCollectionId cfg)"
  define m1 where "m1 = (if ?ok (CategoryData c)
      then set_property m (cat_name c) (show_nat (next_id (world s))) else m)"
  define d1 where "d1 = (if ?ok (CategoryData c)
      then [\<lparr>doc_id = show_nat (next_id (world s)), doc_data = CategoryData c\<rparr>] else [])"
  define s1 where "s1 = snd (?body c m s)"
  have r: "fst (?body c m s) = Inr m1"
    unfolding m1_def by (rule create_category_store(1) [OF Cons.prems])
  have w: "world s1 = with_documents ?key d1 1 (world s)"
    unfolding s1_def d1_def by (rule create_category_store(2) [OF Cons.prems])
  have f1: "fault (world s1) = create_faults F"
    using Cons.prems by (simp add: w)
  have n1: "next_id (world s1) = Suc (next_id (world s))"
    by (simp add: w)
  have run: "for_of ?body (c # cats) m s = for_of ?body cats m1 s1"
    unfolding s1_def using r by (rule for_of_step [where body = "?body"])
  have spec1: "new_ids ?ok (next_id (world s)) (map (\<lambda>c. (cat_name c, CategoryData c)) (c # cats)) m =
      new_ids ?ok (Suc (next_id (world s))) (map (\<lambda>c. (cat_name c, CategoryData c)) cats) m1"
    by (simp add: m1_def)
  have spec2: "new_documents ?ok (next_id (world s)) (map CategoryData (c # cats)) =
      d1 @ new_documents ?ok (Suc (next_id (world s))) (map CategoryData cats)"
    by (simp add: d1_def)
  from Cons.IH [OF f1, of m1]
  have "fst (for_of ?body cats m1 s1) =
      Inr (new_ids ?ok (next_id (world s1)) (map (\<lambda>c. (cat_name c, CategoryData c)) cats) m1)"
    and "world (snd (for_of ?body cats m1 s1)) =
      with_documents ?key (new_documents ?ok (next_id (world s1)) (map CategoryData cats))
        (length cats) (world s1)"
    by blast+
  then show ?case
    unfolding run spec1 spec2 n1 w with_documents_twice by simp
qed

lemma customizations_loop_store:
  assumes "fault (world s) = create_faults F"
  shows "fst (for_of (create_customization (store_sdk sched) cfg) cuss m s) =
      Inr (new_ids (\<lambda>p. F (customizationsCollectionId cfg) p = None) (next_id (world s))
             (map (\<lambda>c. (cus_name c, CustomizationData c)) cuss) m)
    \<and> world (snd (for_of (create_customization (store_sdk sched) cfg) cuss m s)) =
      with_documents (databaseId cfg, customizationsCollectionId cfg)
        (new_documents (\<lambda>p. F (customizationsCollectionId cfg) p = None) (next_id (world s))
           (map CustomizationData cuss))
        (length cuss) (world s)"
  using assms
proof (induction cuss arbitrary: m s)
  case Nil
  show ?case by (simp add: with_documents_Nil)
next
  case (Cons c cuss)
  let ?body = "create_customization (store_sdk sched) cfg"
  let ?ok = "\<lambda>p. F (customizationsCollectionId cfg) p = None"
  let ?key = "(databaseId cfg, customizationsCollectionId cfg)"
  define m1 where "m1 = (if ?ok (CustomizationData c)
      then set_property m (cus_name c) (show_nat (next_id (world s))) else m)"
  define d1 where "d1 = (if ?ok (CustomizationData c)
      then [\<lparr>doc_id = show_nat (next_id (world s)), doc_data = CustomizationData c\<rparr>] else [])"
  define s1 where "s1 = snd (?body c m s)"
  have r: "fst (?body c m s) = Inr m1"
    unfolding m1_def by (rule create_customization_store(1) [OF Cons.prems])
  have w: "world s1 = with_documents ?key d1 1 (world s)"
    unfolding s1_def d1_def by (rule create_customization_store(2) [OF Cons.prems])
  have f1: "fault (world s1) = create_faults F"
    using Cons.prems by (simp add: w)
  have n1: "next_id (world s1) = Suc (next_id (world s))"
    by (simp add: w)
  have run: "for_of ?body (c # cuss) m s = for_of ?body cuss m1 s1"
    unfolding s1_def using r by (rule for_of_step [where body = "?body"])
  have spec1: "new_ids ?ok (next_id (world s)) (map (\<lambda>c. (cus_name c, CustomizationData c)) (c # cuss)) m =
      new_ids ?ok (Suc (next_id (world s))) (map (\<lambda>c. (cus_name c, CustomizationData c)) cuss) m1"
    by (simp add: m1_def)
  have spec2: "new_documents ?ok (next_id (world s)) (map CustomizationData (c # cuss)) =
      d1 @ new_documents ?ok (Suc (next_id (world s))) (map CustomizationData cuss)"
    by (simp add: d1_def)
  from Cons.IH [OF f1, of m1]
  have "fst (for_of ?body cuss m1 s1) =
      Inr (new_ids ?ok (next_id (world s1)) (map (\<lambda>c. (cus_name c, CustomizationData c)) cuss) m1)"
    and "world (snd (for_of ?body cuss m1 s1)) =
      with_documents ?key (new_documents ?ok (next_id (world s1)) (map CustomizationData cuss))
        (length cuss) (world s1)"
    by blast+
  then show ?case
    unfolding run spec1 spec2 n1 w with_documents_twice by simp
qed

lemma joins_loop_store:
  assumes "fault (world s) = create_faults F"
  shows "world (snd (for_of (create_menu_customization (store_sdk sched) cfg m item menuDoc) names () s)) =
      with_documents (databaseId cfg, menuCustomizationsCollectionId cfg)
        (new_documents (\<lambda>p. F (menuCustomizationsCollectionId cfg) p = None) (next_id (world s))
           (map (\<lambda>cusName. MenuCustomizationData (doc_id menuDoc) (get_property m cusName)) names))
        (length names) (world s)"
  using assms
proof (induction names arbitrary: s)
  case Nil
  show ?case by (simp add: with_documents_Nil)
next
  case (Cons n names)
  let ?body = "create_menu_customization (store_sdk sched) cfg m item menuDoc"
  let ?ok = "\<lambda>p. F (menuCustomizationsCollectionId cfg) p = None"
  let ?key = "(databaseId cfg, menuCustomizationsCollectionId cfg)"
  let ?mk = "\<lambda>cusName. MenuCustomizationData (doc_id menuDoc) (get_property m cusName)"
  define d1 where "d1 = (if ?ok (?mk n)
      then [\<lparr>doc_id = show_nat (next_id (world s)), doc_data = ?mk n\<rparr>] else [])"
  define s1 where "s1 = snd (?body n () s)"
  have r: "fst (?body n () s) = Inr ()"
    by (rule create_menu_customization_step(1))
  have w: "world s1 = with_documents ?key d1 1 (world s)"
    unfolding s1_def d1_def by (rule create_menu_customization_store [OF Cons.prems])
  have f1: "fault (world s1) = create_faults F"
    using Cons.prems by (simp add: w)
  have n1: "next_id (world s1) = Suc (next_id (world s))"
    by (simp add: w)
  have run: "for_of ?body (n # names) () s = for_of ?body names () s1"
    unfolding s1_def using r by (rule for_of_step [where body = "?body"])
  have spec2: "new_documents ?ok (next_id (world s)) (map ?mk (n # names)) =
      d1 @ new_documents ?ok (Suc (next_id (world s))) (map ?mk names)"
    by (simp add: d1_def)
  from Cons.IH [OF f1]
  have "world (snd (for_of ?body names () s1)) =
      with_documents ?key (new_documents ?ok (next_id (world s1)) (map ?mk names))
        (length names) (world s1)" .
  then show ?case
    unfolding run spec2 n1 w with_documents_twice by simp
qed

section \<open>The menu phase on the reference store\<close>

lemma uploadImageToStorage_world:
  assumes fetch: "\<And>w u. P w \<Longrightarrow> P (snd (fetch R u w))"
    and uniq: "\<And>w. P w \<Longrightarrow> P (snd (ID_unique R w))"
    and mkfile: "\<And>w b i f. P w \<Longrightarrow> P (snd (createFile R b i f w))"
    and start: "P (world s)"
  shows "P (world (snd (uploadImageToStorage R cfg url s)))"
proof -
  obtain r1 w1 where f: "fetch R url (world s) = (r1, w1)" by (cases "fetch R url (world s)")
  have p1: "P w1" using fetch [OF start, of url] f by simp
  obtain uid w2 where u: "ID_unique R w1 = (uid, w2)" by (cases "ID_unique R w1")
  have p2: "P w2" using uniq [OF p1] u by simp
  have p3: "P (snd (createFile R b uid f w2))" for b f by (rule mkfile [OF p2])
  show ?thesis
  proof (cases r1)
    case (Inl e)
    with f p1 show ?thesis by (simp add: upload_defs)
  next
    case (Inr response)
    show ?thesis
    proof (cases "ok response")
      case False
      with f Inr p1 show ?thesis by (simp add: upload_defs)
    next
      case True
      show ?thesis
      proof (cases "blob response")
        case (Inl e)
        with f Inr True p1 show ?thesis by (simp add: upload_defs)
      next
        case b: (Inr bl)
        let ?f = "\<lparr>fi_name = file_name R url w2, fi_type = blob_type bl,
            fi_size = blob_size bl, fi_uri = url\<rparr>"
        obtain r3 w3 where c: "createFile R (bucketId cfg) uid ?f w2 = (r3, w3)"
          by (cases "createFile R (bucketId cfg) uid ?f w2")
        have "P w3" using p3 [of "bucketId cfg" ?f] c by simp
        with f Inr True b u c show ?thesis
          by (cases r3; cases "getFileViewURL R (bucketId cfg) (file_id (projr r3))")
            (simp_all add: upload_defs)
      qed
    qed
  qed
qed

lemma store_keeps_documents:
  "documents (snd (fetch (store_sdk sched) u w)) = documents w"
  "documents (snd (ID_unique (store_sdk sched) w)) = documents w"
  "documents (snd (createFile (store_sdk sched) b i f w)) = documents w"
  "store_env (snd (fetch (store_sdk sched) u w)) = store_env w"
  "store_env (snd (ID_unique (store_sdk sched) w)) = store_env w"
  "store_env (snd (createFile (store_sdk sched) b i f w)) = store_env w"
  by (simp_all add: store_sdk_def store_fetch_def store_ID_unique_def store_createFile_def
      store_env_def split: option.splits)

lemma uploadImageToStorage_store:
  "documents (world (snd (uploadImageToStorage (store_sdk sched) cfg url s))) = documents (world s)
   \<and> store_env (world (snd (uploadImageToStorage (store_sdk sched) cfg url s))) = store_env (world s)"
  by (rule uploadImageToStorage_world
      [where P = "\<lambda>w. documents w = documents (world s) \<and> store_env w = store_env (world s)"])
    (simp_all add: store_keeps_documents)


lemma menu_phase_trans:
  assumes "menu_phase mk jk M1 J1 st st1" and "menu_phase mk jk M2 J2 st1 st2"
  shows "menu_phase mk jk (M1 @ M2) (J1 @ J2) st st2"
  using assms by (simp add: menu_phase_def)

lemma menu_phase_refl: "menu_phase mk jk [] [] st st"
  by (simp add: menu_phase_def)

lemma create_menu_document_run:
  assumes "fst (uploadImageToStorage R cfg (image_url item) s) = Inr img"
  shows "create_menu_document R cfg cm item s =
     await_then (unique R) (\<lambda>uid.
       databases_createDocument R (databaseId cfg) (menuCollectionId cfg) uid
         (MenuData \<lparr>doc_name = name item, doc_description = description item,
                    doc_image_url = img, doc_price = price item,
                    doc_rating = rating item, doc_calories = calories item,
                    doc_protein = protein item,
                    doc_categories = get_property cm (category_name item)\<rparr>))
       (snd (uploadImageToStorage R cfg (image_url item) s))"
  using assms
  by (cases "uploadImageToStorage R cfg (image_url item) s")
    (simp add: create_menu_document_def await_then_def)

lemma create_menu_document_store:
  assumes flt: "fault (world s) = create_faults F"
    and menus: "\<forall>f. F (menuCollectionId cfg) (MenuData f) = None"
  shows "\<exists>d. fst (create_menu_document (store_sdk sched) cfg cm item s) = Inr d
      \<and> menu_doc_for cm item d
      \<and> world (snd (create_menu_document (store_sdk sched) cfg cm item s)) =
          with_documents (databaseId cfg, menuCollectionId cfg) [d] 1
            (world (snd (uploadImageToStorage (store_sdk sched) cfg (image_url item) s)))"
proof -
  let ?R = "store_sdk sched"
  define s1 where "s1 = snd (uploadImageToStorage ?R cfg (image_url item) s)"
  obtain img where up: "fst (uploadImageToStorage ?R cfg (image_url item) s) = Inr img"
    using uploadImageToStorage_total by blast
  have "store_env (world s1) = store_env (world s)"
    unfolding s1_def using uploadImageToStorage_store by blast
  then have f1: "fault (world s1) = create_faults F"
    using flt by (simp add: store_env_def)
  define s2 where "s2 = s1\<lparr>world := (world s1)\<lparr>next_id := Suc (next_id (world s1))\<rparr>\<rparr>"
  define p where "p = MenuData \<lparr>doc_name = name item, doc_description = description item,
      doc_image_url = img, doc_price = price item, doc_rating = rating item,
      doc_calories = calories item, doc_protein = protein item,
      doc_categories = get_property cm (category_name item)\<rparr>"
  define d where "d = \<lparr>doc_id = show_nat (next_id (world s1)), doc_data = p\<rparr>"
  have f2: "fault (world s2) = create_faults F" using f1 by (simp add: s2_def)
  have acc: "F (menuCollectionId cfg) p = None" unfolding p_def using menus by blast
  have run: "create_menu_document ?R cfg cm item s =
      databases_createDocument ?R (databaseId cfg) (menuCollectionId cfg)
        (show_nat (next_id (world s1))) p s2"
    unfolding create_menu_document_run [OF up] s1_def [symmetric] p_def [symmetric] s2_def
    by (simp add: await_then_def store_unique)
  have res: "fst (create_menu_document ?R cfg cm item s) = Inr d"
    unfolding run store_createDocument_accepted [OF f2 acc] d_def by simp
  have belongs: "menu_doc_for cm item d"
    unfolding menu_doc_for_def d_def p_def by simp
  have "world s2 = (world s1)\<lparr>next_id := Suc (next_id (world s1))\<rparr>"
    by (simp add: s2_def)
  then have w: "world (snd (create_menu_document ?R cfg cm item s)) =
      with_documents (databaseId cfg, menuCollectionId cfg) [d] 1 (world s1)"
    unfolding run store_createDocument_accepted [OF f2 acc] d_def
    by (simp add: with_documents_def)
  from res belongs w show ?thesis unfolding s1_def by blast
qed

lemma create_menu_item_store:
  assumes flt: "fault (world s) = create_faults F"
    and menus: "\<forall>f. F (menuCollectionId cfg) (MenuData f) = None"
    and joins: "\<forall>a b. F (menuCustomizationsCollectionId cfg) (MenuCustomizationData a b) = None"
    and apart: "menuCollectionId cfg \<noteq> menuCustomizationsCollectionId cfg"
  shows "\<exists>d J. menu_doc_for cm item d
      \<and> map doc_data J =
          map (\<lambda>cusName. MenuCustomizationData (doc_id d) (get_property um cusName)) (customizations item)
      \<and> menu_phase (databaseId cfg, menuCollectionId cfg)
          (databaseId cfg, menuCustomizationsCollectionId cfg) [d] J (world s)
          (world (snd (create_menu_item (store_sdk sched) cfg cm um item u s)))"
proof -
  let ?R = "store_sdk sched"
  let ?mk = "(databaseId cfg, menuCollectionId cfg)"
  let ?jk = "(databaseId cfg, menuCustomizationsCollectionId cfg)"
  let ?w0 = "world (snd (uploadImageToStorage ?R cfg (image_url item) s))"
  from create_menu_document_store [OF flt menus, of sched cm item]
  obtain d where d: "fst (create_menu_document ?R cfg cm item s) = Inr d"
    and belongs: "menu_doc_for cm item d"
    and w1: "world (snd (create_menu_document ?R cfg cm item s)) = with_documents ?mk [d] 1 ?w0"
    by blast
  define s1 where "s1 = snd (create_menu_document ?R cfg cm item s)"
  have doc: "create_menu_document ?R cfg cm item s = (Inr d, s1)"
    unfolding s1_def using d by (cases "create_menu_document ?R cfg cm item s") simp
  have up: "documents ?w0 = documents (world s)" "store_env ?w0 = store_env (world s)"
    using uploadImageToStorage_store [of sched cfg "image_url item" s] by simp_all
  have f1: "fault (world s1) = create_faults F"
    using flt up(2) w1 by (simp add: s1_def store_env_def)
  define mkj where "mkj = (\<lambda>cusName. MenuCustomizationData (doc_id d) (get_property um cusName))"
  define J where "J = new_documents (\<lambda>p. F (menuCustomizationsCollectionId cfg) p = None)
      (next_id (world s1)) (map mkj (customizations item))"
  have all: "(\<lambda>p. F (menuCustomizationsCollectionId cfg) p = None) p" if "p \<in> set (map mkj names)"
    for p names
    using that joins by (auto simp: mkj_def)
  have w2: "world (snd (create_menu_item ?R cfg cm um item u s)) =
      with_documents ?jk J (length (customizations item)) (world s1)"
    unfolding create_menu_item_created [OF doc] J_def mkj_def
    by (rule joins_loop_store [OF f1])
  have "filter (\<lambda>p. F (menuCustomizationsCollectionId cfg) p = None) (map mkj (customizations item)) =
      map mkj (customizations item)"
    using all by (simp add: filter_id_conv)
  then have data: "map doc_data J = map mkj (customizations item)"
    by (simp add: J_def map_doc_data_new_documents)
  have keys: "?mk \<noteq> ?jk" using apart by simp
  have "menu_phase ?mk ?jk [d] J (world s) (world (snd (create_menu_item ?R cfg cm um item u s)))"
    unfolding w2 s1_def w1 using keys up
    by (simp add: menu_phase_def with_documents_def store_env_def)
  with belongs data show ?thesis unfolding mkj_def by blast
qed

lemma menu_loop_total: "fst (for_of (create_menu_item R cfg cm um) items () s) = Inr ()"
proof (induction items arbitrary: s)
  case Nil
  show ?case by simp
next
  case (Cons item items)
  have "for_of (create_menu_item R cfg cm um) (item # items) () s =
      for_of (create_menu_item R cfg cm um) items () (snd (create_menu_item R cfg cm um item () s))"
    using create_menu_item_total [of R cfg cm um item "()" s]
    by (rule for_of_step [where body = "create_menu_item R cfg cm um"])
  with Cons show ?case by simp
qed

lemma joins_of_Cons:
  "joins_of um (item # items) (d # ds) =
     map (\<lambda>cusName. MenuCustomizationData (doc_id d) (get_property um cusName)) (customizations item) @
     joins_of um items ds"
  by (simp add: joins_of_def)

lemma menu_loop_store:
  assumes flt: "fault (world s) = create_faults F"
    and menus: "\<forall>f. F (menuCollectionId cfg) (MenuData f) = None"
    and joins: "\<forall>a b. F (menuCustomizationsCollectionId cfg) (MenuCustomizationData a b) = None"
    and apart: "menuCollectionId cfg \<noteq> menuCustomizationsCollectionId cfg"
  shows "\<exists>M J. list_all2 (menu_doc_for cm) items M
      \<and> map doc_data J = joins_of um items M
      \<and> menu_phase (databaseId cfg, menuCollectionId cfg)
          (databaseId cfg, menuCustomizationsCollectionId cfg) M J (world s)
          (world (snd (for_of (create_menu_item (store_sdk sched) cfg cm um) items () s)))"
  using flt
proof (induction items arbitrary: s)
  case Nil
  have "list_all2 (menu_doc_for cm) [] [] \<and> map doc_data [] = joins_of um [] []
      \<and> menu_phase (databaseId cfg, menuCollectionId cfg)
          (databaseId cfg, menuCustomizationsCollectionId cfg) [] [] (world s)
          (world (snd (for_of (create_menu_item (store_sdk sched) cfg cm um) [] () s)))"
    by (simp add: joins_of_def menu_phase_refl)
  then show ?case by blast
next
  case (Cons item items)
  let ?body = "create_menu_item (store_sdk sched) cfg cm um"
  let ?mk = "(databaseId cfg, menuCollectionId cfg)"
  let ?jk = "(databaseId cfg, menuCustomizationsCollectionId cfg)"
  define s1 where "s1 = snd (?body item () s)"
  from create_menu_item_store [OF Cons.prems menus joins apart, of cm item um sched "()"]
  obtain d J1 where belongs: "menu_doc_for cm item d"
    and j1: "map doc_data J1 =
        map (\<lambda>cusName. MenuCustomizationData (doc_id d) (get_property um cusName)) (customizations item)"
    and ph1: "menu_phase ?mk ?jk [d] J1 (world s) (world s1)"
    unfolding s1_def by blast
  have f1: "fault (world s1) = create_faults F"
    using ph1 Cons.prems by (simp add: menu_phase_def store_env_def)
  from Cons.IH [OF f1] obtain M J where all: "list_all2 (menu_doc_for cm) items M"
    and j: "map doc_data J = joins_of um items M"
    and ph: "menu_phase ?mk ?jk M J (world s1) (world (snd (for_of ?body items () s1)))"
    by blast
  have run: "for_of ?body (item # items) () s = for_of ?body items () s1"
    unfolding s1_def
    using create_menu_item_total [of "store_sdk sched" cfg cm um item "()" s]
    by (rule for_of_step [where body = "?body"])
  have "list_all2 (menu_doc_for cm) (item # items) (d # M)"
    using belongs all by simp
  moreover have "map doc_data (J1 @ J) = joins_of um (item # items) (d # M)"
    using j1 j by (simp add: joins_of_Cons)
  moreover have "menu_phase ?mk ?jk (d # M) (J1 @ J) (world s)
      (world (snd (for_of ?body (item # items) () s)))"
    unfolding run using menu_phase_trans [OF ph1 ph] by simp
  ultimately show ?case by blast
qed

section \<open>A whole run on the reference store\<close>

lemma await_then_ok:
  assumes "fst (m s) = Inr a"
  shows "await_then m f s = f a (snd (m s))"
  using assms by (cases "m s") (simp add: await_then_def)

lemma create_faults_other [simp]:
  "create_faults F (ListDocuments db coll) = None"
  "create_faults F (DeleteDocument db coll i) = None"
  "create_faults F (ListFiles b) = None"
  "create_faults F (DeleteFile b i) = None"
  "create_faults F (CreateFile b i f) = None"
  "create_faults F (Fetch u) = None"
  by (simp_all add: create_faults_def)

lemma whole_listing_listed:
  "whole_listing st key \<Longrightarrow> listed_documents st key = map doc_id (documents st key)"
  by (auto simp: whole_listing_def listed_documents_def first_page_def split: option.splits)

lemma clearAll_store_effect:
  assumes once: "settles_each_once sched" and flt: "fault (world s) = create_faults F"
    and whole: "whole_listing (world s) (databaseId cfg, coll)"
  shows "fst (clearAll (store_sdk sched) cfg coll s) = Inr ()"
    and "documents (world (snd (clearAll (store_sdk sched) cfg coll s))) =
      (documents (world s))((databaseId cfg, coll) := [])"
    and "store_env (world (snd (clearAll (store_sdk sched) cfg coll s))) = store_env (world s)"
    and "next_id (world (snd (clearAll (store_sdk sched) cfg coll s))) = next_id (world s)"
proof -
  have honest: "\<forall>i e. fault (world s) (DeleteDocument (databaseId cfg) coll i) = Some e \<longrightarrow>
      err_code e \<noteq> Some 404"
    by (simp add: flt)
  show ok: "fst (clearAll (store_sdk sched) cfg coll s) = Inr ()"
    unfolding clearAll_store(1) [OF once honest] by (simp add: flt)
  have w: "world (snd (clearAll (store_sdk sched) cfg coll s)) =
      without_documents (databaseId cfg, coll)
        (map doc_id (documents (world s) (databaseId cfg, coll))) (world s)"
    using clearAll_store(2) [OF once honest ok] whole
    by (simp add: whole_listing_listed)
  have "documents (without_documents (databaseId cfg, coll)
        (map doc_id (documents (world s) (databaseId cfg, coll))) (world s)) (databaseId cfg, coll) = []"
    by (rule without_all_documents) simp
  then show "documents (world (snd (clearAll (store_sdk sched) cfg coll s))) =
      (documents (world s))((databaseId cfg, coll) := [])"
    unfolding w by (auto simp: without_documents_def fun_eq_iff)
  show "store_env (world (snd (clearAll (store_sdk sched) cfg coll s))) = store_env (world s)"
    unfolding w by simp
  show "next_id (world (snd (clearAll (store_sdk sched) cfg coll s))) = next_id (world s)"
    unfolding w by simp
qed

lemma clearStorage_store_effect:
  assumes once: "settles_each_once sched" and flt: "fault (world s) = create_faults F"
  shows "fst (clearStorage (store_sdk sched) cfg s) = Inr ()"
    and "documents (world (snd (clearStorage (store_sdk sched) cfg s))) = documents (world s)"
    and "store_env (world (snd (clearStorage (store_sdk sched) cfg s))) = store_env (world s)"
    and "next_id (world (snd (clearStorage (store_sdk sched) cfg s))) = next_id (world s)"
proof -
  have honest: "\<forall>i e. fault (world s) (DeleteFile (bucketId cfg) i) = Some e \<longrightarrow>
      err_code e \<noteq> Some 404"
    by (simp add: flt)
  show ok: "fst (clearStorage (store_sdk sched) cfg s) = Inr ()"
    unfolding clearStorage_store(1) [OF once honest] by (simp add: flt)
  note w = clearStorage_store(2) [OF once honest ok]
  show "documents (world (snd (clearStorage (store_sdk sched) cfg s))) = documents (world s)"
    unfolding w by simp
  show "store_env (world (snd (clearStorage (store_sdk sched) cfg s))) = store_env (world s)"
    unfolding w by simp
  show "next_id (world (snd (clearStorage (store_sdk sched) cfg s))) = next_id (world s)"
    unfolding w by simp
qed

lemma store_env_whole_listing:
  assumes "store_env st' = store_env st" and "documents st' key = documents st key"
  shows "whole_listing st' key = whole_listing st key"
  using assms by (auto simp: whole_listing_def store_env_def split: option.splits)

lemma seed_body_phases:
  "seed_body R cfg data =
     await_then (console_log [Str (broom @ '' Clearing existing collections and storage...'')]) (\<lambda>_.
       clear_each R cfg
         [categoriesCollectionId cfg, customizationsCollectionId cfg, menuCollectionId cfg,
          menuCustomizationsCollectionId cfg]
         (await_then (clearStorage R cfg) (\<lambda>_. create_phase R cfg data)))"
  by (simp add: seed_body_def create_phase_def)

lemma clear_each_store:
  assumes once: "settles_each_once sched" and flt: "fault (world s) = create_faults F"
    and whole: "\<forall>coll\<in>set colls. whole_listing (world s) (databaseId cfg, coll)"
  shows "\<exists>s'. clear_each (store_sdk sched) cfg colls k s = k s'
      \<and> documents (world s') =
          (\<lambda>key. if key \<in> Pair (databaseId cfg) ` set colls then [] else documents (world s) key)
      \<and> store_env (world s') = store_env (world s)
      \<and> next_id (world s') = next_id (world s)"
  using flt whole
proof (induction colls arbitrary: s)
  case Nil
  have "clear_each (store_sdk sched) cfg [] k s = k s
      \<and> documents (world s) =
          (\<lambda>key. if key \<in> Pair (databaseId cfg) ` set [] then [] else documents (world s) key)
      \<and> store_env (world s) = store_env (world s) \<and> next_id (world s) = next_id (world s)"
    by simp
  then show ?case by blast
next
  case (Cons coll colls)
  let ?R = "store_sdk sched"
  define s1 where "s1 = snd (clearAll ?R cfg coll s)"
  have w: "whole_listing (world s) (databaseId cfg, coll)" using Cons.prems(2) by simp
  note step = clearAll_store_effect [OF once Cons.prems(1) w, folded s1_def]
  have flt1: "fault (world s1) = create_faults F"
    using step(3) Cons.prems(1) by (simp add: store_env_def)
  have whole1: "\<forall>c\<in>set colls. whole_listing (world s1) (databaseId cfg, c)"
  proof
    fix c
    assume "c \<in> set colls"
    with Cons.prems(2) have "whole_listing (world s) (databaseId cfg, c)" by simp
    then show "whole_listing (world s1) (databaseId cfg, c)"
      using step(2,3) by (auto simp: whole_listing_def store_env_def split: option.splits)
  qed
  from Cons.IH [OF flt1 whole1] obtain s' where
    run: "clear_each ?R cfg colls k s1 = k s'" and
    docs: "documents (world s') =
          (\<lambda>key. if key \<in> Pair (databaseId cfg) ` set colls then [] else documents (world s1) key)" and
    env: "store_env (world s') = store_env (world s1)" and
    nid: "next_id (world s') = next_id (world s1)"
    by blast
  have "clear_each ?R cfg (coll # colls) k s = k s'"
    using await_then_ok [where m = "clearAll ?R cfg coll" and s = s and a = "()"
        and f = "\<lambda>_. clear_each ?R cfg colls k"] step(1) run
    by (simp add: s1_def)
  moreover have "documents (world s') =
      (\<lambda>key. if key \<in> Pair (databaseId cfg) ` set (coll # colls) then [] else documents (world s) key)"
    unfolding docs step(2) by (auto simp: fun_eq_iff)
  moreover have "store_env (world s') = store_env (world s)" using env step(3) by simp
  moreover have "next_id (world s') = next_id (world s)" using nid step(4) by simp
  ultimately show ?case by blast
qed


lemma four_collectionsD:
  assumes "four_collections cfg"
  shows "categoriesCollectionId cfg \<noteq> customizationsCollectionId cfg"
    "categoriesCollectionId cfg \<noteq> menuCollectionId cfg"
    "categoriesCollectionId cfg \<noteq> menuCustomizationsCollectionId cfg"
    "customizationsCollectionId cfg \<noteq> menuCollectionId cfg"
    "customizationsCollectionId cfg \<noteq> menuCustomizationsCollectionId cfg"
    "menuCollectionId cfg \<noteq> menuCustomizationsCollectionId cfg"
  using assms by (auto simp: four_collections_def)

lemma create_phase_store:
  assumes flt: "fault (world s) = create_faults F"
    and menus: "\<forall>f. F (menuCollectionId cfg) (MenuData f) = None"
    and joins: "\<forall>a b. F (menuCustomizationsCollectionId cfg) (MenuCustomizationData a b) = None"
    and four: "four_collections cfg"
  shows "\<exists>M J. fst (create_phase (store_sdk sched) cfg data s) = Inr ()
      \<and> list_all2 (menu_doc_for (category_ids F cfg (next_id (world s)) data)) (data_menu data) M
      \<and> map doc_data J = joins_of (customization_ids F cfg (next_id (world s)) data) (data_menu data) M
      \<and> documents (world (snd (create_phase (store_sdk sched) cfg data s)))
            (databaseId cfg, categoriesCollectionId cfg) =
          documents (world s) (databaseId cfg, categoriesCollectionId cfg) @
          new_documents (\<lambda>p. F (categoriesCollectionId cfg) p = None) (next_id (world s))
            (map CategoryData (data_categories data))
      \<and> documents (world (snd (create_phase (store_sdk sched) cfg data s)))
            (databaseId cfg, customizationsCollectionId cfg) =
          documents (world s) (databaseId cfg, customizationsCollectionId cfg) @
          new_documents (\<lambda>p. F (customizationsCollectionId cfg) p = None)
            (next_id (world s) + length (data_categories data))
            (map CustomizationData (data_customizations data))
      \<and> documents (world (snd (create_phase (store_sdk sched) cfg data s)))
            (databaseId cfg, menuCollectionId cfg) =
          documents (world s) (databaseId cfg, menuCollectionId cfg) @ M
      \<and> documents (world (snd (create_phase (store_sdk sched) cfg data s)))
            (databaseId cfg, menuCustomizationsCollectionId cfg) =
          documents (world s) (databaseId cfg, menuCustomizationsCollectionId cfg) @ J
      \<and> store_env (world (snd (create_phase (store_sdk sched) cfg data s))) = store_env (world s)"
proof -
  let ?R = "store_sdk sched"
  let ?k1 = "(databaseId cfg, categoriesCollectionId cfg)"
  let ?k2 = "(databaseId cfg, customizationsCollectionId cfg)"
  let ?k3 = "(databaseId cfg, menuCollectionId cfg)"
  let ?k4 = "(databaseId cfg, menuCustomizationsCollectionId cfg)"
  note apart = four_collectionsD [OF four]
  define n where "n = next_id (world s)"
  define cmap where "cmap = category_ids F cfg n data"
  define umap where "umap = customization_ids F cfg n data"
  define C where "C = new_documents (\<lambda>p. F (categoriesCollectionId cfg) p = None) n
      (map CategoryData (data_categories data))"
  define U where "U = new_documents (\<lambda>p. F (customizationsCollectionId cfg) p = None)
      (n + length (data_categories data)) (map CustomizationData (data_customizations data))"
  define s1 where "s1 = snd (for_of (create_category ?R cfg) (data_categories data) Map.empty s)"
  define s2 where "s2 = snd (for_of (create_customization ?R cfg) (data_customizations data) Map.empty s1)"
  define s3 where "s3 = snd (for_of (create_menu_item ?R cfg cmap umap) (data_menu data) () s2)"
  from categories_loop_store [OF flt, of sched cfg "data_categories data" Map.empty]
  have r1: "fst (for_of (create_category ?R cfg) (data_categories data) Map.empty s) = Inr cmap"
    and w1: "world s1 = with_documents ?k1 C (length (data_categories data)) (world s)"
    unfolding cmap_def category_ids_def C_def s1_def n_def by blast+
  have f1: "fault (world s1) = create_faults F" using flt by (simp add: w1)
  have n1: "next_id (world s1) = n + length (data_categories data)" by (simp add: w1 n_def)
  from customizations_loop_store [OF f1, of sched cfg "data_customizations data" Map.empty]
  have r2: "fst (for_of (create_customization ?R cfg) (data_customizations data) Map.empty s1) = Inr umap"
    and w2: "world s2 = with_documents ?k2 U (length (data_customizations data)) (world s1)"
    unfolding umap_def customization_ids_def U_def s2_def n1 by blast+
  have f2: "fault (world s2) = create_faults F" using f1 by (simp add: w2)
  from menu_loop_store [OF f2 menus joins apart(6), of cmap "data_menu data" umap sched]
  obtain M J where all: "list_all2 (menu_doc_for cmap) (data_menu data) M"
    and j: "map doc_data J = joins_of umap (data_menu data) M"
    and ph: "menu_phase ?k3 ?k4 M J (world s2) (world s3)"
    unfolding s3_def by blast
  have r3: "fst (for_of (create_menu_item ?R cfg cmap umap) (data_menu data) () s2) = Inr ()"
    by (rule menu_loop_total)
  note st1 = await_then_ok [where m = "for_of (create_category ?R cfg) (data_categories data) Map.empty"
      and s = s, OF r1]
  note st2 = await_then_ok [where m = "for_of (create_customization ?R cfg) (data_customizations data) Map.empty"
      and s = s1, OF r2]
  note st3 = await_then_ok [where m = "for_of (create_menu_item ?R cfg cmap umap) (data_menu data) ()"
      and s = s2, OF r3]
  have run: "create_phase ?R cfg data s = console_log [Str (check_mark @ '' Seeding complete.'')] s3"
    unfolding create_phase_def st1 s1_def [symmetric] st2 s2_def [symmetric] st3 s3_def [symmetric]
    by (rule refl)
  have res: "fst (create_phase ?R cfg data s) = Inr ()"
    and w4: "world (snd (create_phase ?R cfg data s)) = world s3"
    unfolding run by (simp_all add: console_log_def)
  have d1: "documents (world s3) ?k1 = documents (world s) ?k1 @ C"
    using ph apart by (simp add: menu_phase_def w2 w1)
  have d2: "documents (world s3) ?k2 = documents (world s) ?k2 @ U"
    using ph apart by (simp add: menu_phase_def w2 w1)
  have d3: "documents (world s3) ?k3 = documents (world s) ?k3 @ M"
    using ph apart by (simp add: menu_phase_def w2 w1)
  have d4: "documents (world s3) ?k4 = documents (world s) ?k4 @ J"
    using ph apart by (simp add: menu_phase_def w2 w1)
  have env: "store_env (world s3) = store_env (world s)"
    using ph by (simp add: menu_phase_def w2 w1)
  from res all j d1 d2 d3 d4 env show ?thesis
    unfolding w4 cmap_def umap_def C_def U_def n_def by blast
qed


lemma seed_world:
  assumes "\<not> isSeeding s"
  shows "world (snd (seed R cfg data s)) = world (snd (seed_body R cfg data (s\<lparr>isSeeding := True\<rparr>)))"
    and "\<not> isSeeding (snd (seed R cfg data s))"
  using assms
  by (cases "seed_body R cfg data (s\<lparr>isSeeding := True\<rparr>)";
      cases "fst (seed_body R cfg data (s\<lparr>isSeeding := True\<rparr>))";
      simp add: seed_def try_finally_def try_catch_def console_log_def)+

lemma seed_body_store:
  assumes once: "settles_each_once sched"
    and flt: "fault (world s) = create_faults F"
    and menus: "\<forall>f. F (menuCollectionId cfg) (MenuData f) = None"
    and joins: "\<forall>a b. F (menuCustomizationsCollectionId cfg) (MenuCustomizationData a b) = None"
    and four: "four_collections cfg"
    and whole: "\<forall>coll\<in>set [categoriesCollectionId cfg, customizationsCollectionId cfg,
        menuCollectionId cfg, menuCustomizationsCollectionId cfg].
        whole_listing (world s) (databaseId cfg, coll)"
  shows "\<exists>M J. fst (seed_body (store_sdk sched) cfg data s) = Inr ()
      \<and> list_all2 (menu_doc_for (category_ids F cfg (next_id (world s)) data)) (data_menu data) M
      \<and> map doc_data J = joins_of (customization_ids F cfg (next_id (world s)) data) (data_menu data) M
      \<and> documents (world (snd (seed_body (store_sdk sched) cfg data s)))
            (databaseId cfg, categoriesCollectionId cfg) =
          new_documents (\<lambda>p. F (categoriesCollectionId cfg) p = None) (next_id (world s))
            (map CategoryData (data_categories data))
      \<and> documents (world (snd (seed_body (store_sdk sched) cfg data s)))
            (databaseId cfg, customizationsCollectionId cfg) =
          new_documents (\<lambda>p. F (customizationsCollectionId cfg) p = None)
            (next_id (world s) + length (data_categories data))
            (map CustomizationData (data_customizations data))
      \<and> documents (world (snd (seed_body (store_sdk sched) cfg data s)))
            (databaseId cfg, menuCollectionId cfg) = M
      \<and> documents (world (snd (seed_body (store_sdk sched) cfg data s)))
            (databaseId cfg, menuCustomizationsCollectionId cfg) = J
      \<and> store_env (world (snd (seed_body (store_sdk sched) cfg data s))) = store_env (world s)"
proof -
  let ?R = "store_sdk sched"
  let ?colls = "[categoriesCollectionId cfg, customizationsCollectionId cfg,
        menuCollectionId cfg, menuCustomizationsCollectionId cfg]"
  let ?k = "await_then (clearStorage ?R cfg) (\<lambda>_. create_phase ?R cfg data)"
  define s0 where "s0 = s\<lparr>console := console s @ [Log [Str (broom @ '' Clearing existing collections and storage...'')]]\<rparr>"
  have w0: "world s0 = world s" by (simp add: s0_def)
  have run0: "seed_body ?R cfg data s = clear_each ?R cfg ?colls ?k s0"
    unfolding seed_body_phases by (simp add: await_then_def console_log_def s0_def)
  have flt0: "fault (world s0) = create_faults F" using flt by (simp add: w0)
  have whole0: "\<forall>coll\<in>set ?colls. whole_listing (world s0) (databaseId cfg, coll)"
    using whole unfolding w0 .
  from clear_each_store [OF once flt0 whole0, of ?k] obtain s1 where
    run1: "clear_each ?R cfg ?colls ?k s0 = ?k s1" and
    docs1: "documents (world s1) =
      (\<lambda>key. if key \<in> Pair (databaseId cfg) ` set ?colls then [] else documents (world s0) key)" and
    env1: "store_env (world s1) = store_env (world s0)" and
    nid1: "next_id (world s1) = next_id (world s0)"
    by blast
  have flt1: "fault (world s1) = create_faults F"
    using env1 flt0 by (simp add: store_env_def)
  define s2 where "s2 = snd (clearStorage ?R cfg s1)"
  note cs = clearStorage_store_effect [OF once flt1, of cfg, folded s2_def]
  have run2: "?k s1 = create_phase ?R cfg data s2"
    unfolding s2_def
    using await_then_ok [where m = "clearStorage ?R cfg" and s = s1 and a = "()"
        and f = "\<lambda>_. create_phase ?R cfg data"] cs(1)
    by simp
  have flt2: "fault (world s2) = create_faults F"
    using cs(3) flt1 by (simp add: store_env_def)
  have nid2: "next_id (world s2) = next_id (world s)"
    using cs(4) nid1 w0 by simp
  have docs2: "documents (world s2) (databaseId cfg, c) = []" if "c \<in> set ?colls" for c
    using that unfolding cs(2) docs1 by auto
  have env2: "store_env (world s2) = store_env (world s)"
    using cs(3) env1 w0 by simp
  have run: "seed_body ?R cfg data s = create_phase ?R cfg data s2"
    unfolding run0 run1 run2 ..
  from create_phase_store [OF flt2 menus joins four, of sched data]
  show ?thesis
    unfolding run nid2 env2 by (simp add: docs2)
qed

section \<open>The end-to-end scenario\<close>

lemma no_fault_create_faults: "no_fault = create_faults (\<lambda>coll p. None)"
  by (simp add: no_fault_def create_faults_def fun_eq_iff split: request.splits)

lemma whole_listing_empty: "documents st key = [] \<Longrightarrow> whole_listing st key"
  by (simp add: whole_listing_def split: option.splits)

lemma seed_store:
  assumes once: "settles_each_once sched" and idle: "\<not> isSeeding s"
    and flt: "fault (world s) = create_faults F"
    and menus: "\<forall>f. F (menuCollectionId cfg) (MenuData f) = None"
    and joins: "\<forall>a b. F (menuCustomizationsCollectionId cfg) (MenuCustomizationData a b) = None"
    and four: "four_collections cfg"
    and whole: "\<forall>coll\<in>set [categoriesCollectionId cfg, customizationsCollectionId cfg,
        menuCollectionId cfg, menuCustomizationsCollectionId cfg].
        whole_listing (world s) (databaseId cfg, coll)"
  shows "\<exists>M J. list_all2 (menu_doc_for (category_ids F cfg (next_id (world s)) data)) (data_menu data) M
      \<and> map doc_data J = joins_of (customization_ids F cfg (next_id (world s)) data) (data_menu data) M
      \<and> documents (world (snd (seed (store_sdk sched) cfg data s)))
            (databaseId cfg, categoriesCollectionId cfg) =
          new_documents (\<lambda>p. F (categoriesCollectionId cfg) p = None) (next_id (world s))
            (map CategoryData (data_categories data))
      \<and> documents (world (snd (seed (store_sdk sched) cfg data s)))
            (databaseId cfg, customizationsCollectionId cfg) =
          new_documents (\<lambda>p. F (customizationsCollectionId cfg) p = None)
            (next_id (world s) + length (data_categories data))
            (map CustomizationData (data_customizations data))
      \<and> documents (world (snd (seed (store_sdk sched) cfg data s)))
            (databaseId cfg, menuCollectionId cfg) = M
      \<and> documents (world (snd (seed (store_sdk sched) cfg data s)))
            (databaseId cfg, menuCustomizationsCollectionId cfg) = J
      \<and> store_env (world (snd (seed (store_sdk sched) cfg data s))) = store_env (world s)"
proof -
  let ?s = "s\<lparr>isSeeding := True\<rparr>"
  have w: "world ?s = world s" by simp
  from seed_body_store [where s = ?s, unfolded w, OF once flt menus joins four whole, of data]
  show ?thesis
    unfolding seed_world(1) [OF idle] w by blast
qed

text \<open>
  Claim C1. On a reference store that holds no record and refuses no request, with a
  configuration of four different collections, seeding the dataset of the scenario
  leaves two category documents (Pizza, Drinks), one customization document, one menu
  document named Margherita whose category reference is the identifier of the Pizza
  document, and one join record that links the identifier of that menu document to the
  identifier of the customization document.
\<close>

theorem seed_end_to_end:
  assumes cfg: "four_collections cfg"
    and sched: "settles_each_once sched"
    and idle: "\<not> isSeeding s"
    and empty: "documents (world s) = (\<lambda>key. [])" "bucket_files (world s) = (\<lambda>b. [])"
    and ok: "fault (world s) = no_fault"
    and cats: "data_categories data = [pizza, drinks]"
      "cat_name pizza = ''Pizza''" "cat_name drinks = ''Drinks''"
    and cuss: "data_customizations data = [cheese]"
      "cus_name cheese = ''Extra Cheese''" "cus_price cheese = 1.5" "cus_type cheese = ''topping''"
    and menu: "data_menu data = [item]"
      "name item = ''Margherita''" "category_name item = ''Pizza''"
      "customizations item = [''Extra Cheese'']"
  shows "\<exists>pizza_id drinks_id cheese_id menu_id join_id fields.
      documents (world (snd (seed (store_sdk sched) cfg data s)))
          (databaseId cfg, categoriesCollectionId cfg) =
        [\<lparr>doc_id = pizza_id, doc_data = CategoryData pizza\<rparr>,
         \<lparr>doc_id = drinks_id, doc_data = CategoryData drinks\<rparr>]
    \<and> documents (world (snd (seed (store_sdk sched) cfg data s)))
          (databaseId cfg, customizationsCollectionId cfg) =
        [\<lparr>doc_id = cheese_id, doc_data = CustomizationData cheese\<rparr>]
    \<and> documents (world (snd (seed (store_sdk sched) cfg data s)))
          (databaseId cfg, menuCollectionId cfg) =
        [\<lparr>doc_id = menu_id, doc_data = MenuData fields\<rparr>]
    \<and> doc_name fields = ''Margherita''
    \<and> doc_categories fields = Ident pizza_id
    \<and> documents (world (snd (seed (store_sdk sched) cfg data s)))
          (databaseId cfg, menuCustomizationsCollectionId cfg) =
        [\<lparr>doc_id = join_id, doc_data = MenuCustomizationData menu_id (Ident cheese_id)\<rparr>]"
proof -
  let ?F = "\<lambda>(coll :: string) (p :: payload). None :: error option"
  let ?w = "world (snd (seed (store_sdk sched) cfg data s))"
  define n where "n = next_id (world s)"
  have flt: "fault (world s) = create_faults ?F"
    using ok by (simp add: no_fault_create_faults)
  have whole: "\<forall>coll\<in>set [categoriesCollectionId cfg, customizationsCollectionId cfg,
        menuCollectionId cfg, menuCustomizationsCollectionId cfg].
        whole_listing (world s) (databaseId cfg, coll)"
    by (simp add: whole_listing_empty empty)
  from seed_store [OF sched idle flt _ _ cfg whole, of data]
  obtain M J where all: "list_all2 (menu_doc_for (category_ids ?F cfg n data)) (data_menu data) M"
    and j: "map doc_data J = joins_of (customization_ids ?F cfg n data) (data_menu data) M"
    and d1: "documents ?w (databaseId cfg, categoriesCollectionId cfg) =
        new_documents (\<lambda>p. True) n (map CategoryData (data_categories data))"
    and d2: "documents ?w (databaseId cfg, customizationsCollectionId cfg) =
        new_documents (\<lambda>p. True) (n + length (data_categories data))
          (map CustomizationData (data_customizations data))"
    and d3: "documents ?w (databaseId cfg, menuCollectionId cfg) = M"
    and d4: "documents ?w (databaseId cfg, menuCustomizationsCollectionId cfg) = J"
    unfolding n_def by auto
  have cmap: "get_property (category_ids ?F cfg n data) ''Pizza'' = Ident (show_nat n)"
    by (simp add: category_ids_def cats get_property_def set_property_def)
  have umap: "get_property (customization_ids ?F cfg n data) ''Extra Cheese'' =
      Ident (show_nat (Suc (Suc n)))"
    by (simp add: customization_ids_def cats cuss get_property_def set_property_def)
  from all obtain m where M: "M = [m]" and m: "menu_doc_for (category_ids ?F cfg n data) item m"
    unfolding menu by (auto simp: list_all2_Cons1)
  from m obtain fields where f: "doc_data m = MenuData fields"
    "doc_name fields = ''Margherita''" "doc_categories fields = Ident (show_nat n)"
    unfolding menu_doc_for_def by (auto simp: menu cmap)
  from j have "map doc_data J = [MenuCustomizationData (doc_id m) (Ident (show_nat (Suc (Suc n))))]"
    by (simp add: joins_of_def menu M umap)
  then obtain jd where J: "J = [jd]"
    and jd: "doc_data jd = MenuCustomizationData (doc_id m) (Ident (show_nat (Suc (Suc n))))"
    by auto
  have "documents ?w (databaseId cfg, categoriesCollectionId cfg) =
        [\<lparr>doc_id = show_nat n, doc_data = CategoryData pizza\<rparr>,
         \<lparr>doc_id = show_nat (Suc n), doc_data = CategoryData drinks\<rparr>]"
    by (simp add: d1 cats)
  moreover have "documents ?w (databaseId cfg, customizationsCollectionId cfg) =
        [\<lparr>doc_id = show_nat (Suc (Suc n)), doc_data = CustomizationData cheese\<rparr>]"
    by (simp add: d2 cats cuss)
  moreover have "documents ?w (databaseId cfg, menuCollectionId cfg) =
        [\<lparr>doc_id = doc_id m, doc_data = MenuData fields\<rparr>]"
    using f(1) by (simp add: d3 M)
  moreover have "documents ?w (databaseId cfg, menuCustomizationsCollectionId cfg) =
        [\<lparr>doc_id = doc_id jd,
          doc_data = MenuCustomizationData (doc_id m) (Ident (show_nat (Suc (Suc n))))\<rparr>]"
    using jd by (simp add: d4 J)
  ultimately show ?thesis using f(2,3) by blast
qed


theorem seed_end_to_end_witness:
  "\<exists>pizza_id drinks_id cheese_id menu_id join_id fields.
      documents (world (snd (seed (store_sdk id) demo_config demo_data
          (idle (empty_store None no_fault offline))))) (''db'', ''categories'') =
        [\<lparr>doc_id = pizza_id, doc_data = CategoryData \<lparr>cat_name = ''Pizza'', cat_description = ''Baked''\<rparr>\<rparr>,
         \<lparr>doc_id = drinks_id, doc_data = CategoryData \<lparr>cat_name = ''Drinks'', cat_description = ''Cold''\<rparr>\<rparr>]
    \<and> documents (world (snd (seed (store_sdk id) demo_config demo_data
          (idle (empty_store None no_fault offline))))) (''db'', ''customizations'') =
        [\<lparr>doc_id = cheese_id, doc_data = CustomizationData
            \<lparr>cus_name = ''Extra Cheese'', cus_price = 1.5, cus_type = ''topping''\<rparr>\<rparr>]
    \<and> documents (world (snd (seed (store_sdk id) demo_config demo_data
          (idle (empty_store None no_fault offline))))) (''db'', ''menu'') =
        [\<lparr>doc_id = menu_id, doc_data = MenuData fields\<rparr>]
    \<and> doc_name fields = ''Margherita''
    \<and> doc_categories fields = Ident pizza_id
    \<and> documents (world (snd (seed (store_sdk id) demo_config demo_data
          (idle (empty_store None no_fault offline))))) (''db'', ''menu_customizations'') =
        [\<lparr>doc_id = join_id, doc_data = MenuCustomizationData menu_id (Ident cheese_id)\<rparr>]"
proof -
  let ?s = "idle (empty_store None no_fault offline)"
  have cfg: "databaseId demo_config = ''db''" "categoriesCollectionId demo_config = ''categories''"
    "customizationsCollectionId demo_config = ''customizations''"
    "menuCollectionId demo_config = ''menu''"
    "menuCustomizationsCollectionId demo_config = ''menu_customizations''"
    by (simp_all add: demo_config_def)
  have four: "four_collections demo_config"
    by (simp add: four_collections_def demo_config_def)
  have st: "\<not> isSeeding ?s" "documents (world ?s) = (\<lambda>key. [])"
    "bucket_files (world ?s) = (\<lambda>b. [])" "fault (world ?s) = no_fault"
    by (simp_all add: idle_def empty_store_def)
  from seed_end_to_end [OF four settles_each_once_id(1) st,
      of demo_data "\<lparr>cat_name = ''Pizza'', cat_description = ''Baked''\<rparr>"
        "\<lparr>cat_name = ''Drinks'', cat_description = ''Cold''\<rparr>"
        "\<lparr>cus_name = ''Extra Cheese'', cus_price = 1.5, cus_type = ''topping''\<rparr>" margherita]
  show ?thesis
    unfolding cfg by (simp add: demo_data_def margherita_def)
qed

section \<open>Seeding twice\<close>

lemma length_joins_of:
  "length ds = length items \<Longrightarrow>
     length (joins_of um items ds) = sum_list (map (\<lambda>item. length (customizations item)) items)"
proof (induction items arbitrary: ds)
  case Nil
  then show ?case by (simp add: joins_of_def)
next
  case (Cons item items)
  then obtain d ds' where ds: "ds = d # ds'" "length ds' = length items"
    by (cases ds) auto
  with Cons.IH [of ds'] show ?case by (simp add: joins_of_Cons)
qed

lemma length_new_documents: "length (new_documents (\<lambda>p. None = None) n ps) = length ps"
  using length_new_documents_all [of n ps] by simp

lemma seed_store_counts:
  assumes once: "settles_each_once sched" and idle: "\<not> isSeeding s"
    and ok: "fault (world s) = no_fault" and four: "four_collections cfg"
    and whole: "\<forall>coll\<in>set [categoriesCollectionId cfg, customizationsCollectionId cfg,
        menuCollectionId cfg, menuCustomizationsCollectionId cfg].
        whole_listing (world s) (databaseId cfg, coll)"
  shows "count_documents (world (snd (seed (store_sdk sched) cfg data s)))
        (databaseId cfg) (categoriesCollectionId cfg) = length (data_categories data)"
    and "count_documents (world (snd (seed (store_sdk sched) cfg data s)))
        (databaseId cfg) (customizationsCollectionId cfg) = length (data_customizations data)"
    and "count_documents (world (snd (seed (store_sdk sched) cfg data s)))
        (databaseId cfg) (menuCollectionId cfg) = length (data_menu data)"
    and "count_documents (world (snd (seed (store_sdk sched) cfg data s)))
        (databaseId cfg) (menuCustomizationsCollectionId cfg) = count_links data"
    and "store_env (world (snd (seed (store_sdk sched) cfg data s))) = store_env (world s)"
proof -
  let ?F = "\<lambda>(coll :: string) (p :: payload). None :: error option"
  let ?w = "world (snd (seed (store_sdk sched) cfg data s))"
  have flt: "fault (world s) = create_faults ?F"
    using ok by (simp add: no_fault_create_faults)
  from seed_store [OF once idle flt _ _ four whole, of data]
  obtain M J where
    all: "list_all2 (menu_doc_for (category_ids ?F cfg (next_id (world s)) data)) (data_menu data) M"
    and j: "map doc_data J =
        joins_of (customization_ids ?F cfg (next_id (world s)) data) (data_menu data) M"
    and d1: "documents ?w (databaseId cfg, categoriesCollectionId cfg) =
        new_documents (\<lambda>p. None = None) (next_id (world s)) (map CategoryData (data_categories data))"
    and d2: "documents ?w (databaseId cfg, customizationsCollectionId cfg) =
        new_documents (\<lambda>p. None = None) (next_id (world s) + length (data_categories data))
          (map CustomizationData (data_customizations data))"
    and d3: "documents ?w (databaseId cfg, menuCollectionId cfg) = M"
    and d4: "documents ?w (databaseId cfg, menuCustomizationsCollectionId cfg) = J"
    and env: "store_env ?w = store_env (world s)"
    by auto
  show "count_documents ?w (databaseId cfg) (categoriesCollectionId cfg) = length (data_categories data)"
    unfolding count_documents_def d1 length_new_documents by simp
  show "count_documents ?w (databaseId cfg) (customizationsCollectionId cfg) =
      length (data_customizations data)"
    unfolding count_documents_def d2 length_new_documents by simp
  have lM: "length M = length (data_menu data)"
    using all by (simp add: list_all2_lengthD)
  then show "count_documents ?w (databaseId cfg) (menuCollectionId cfg) = length (data_menu data)"
    unfolding count_documents_def d3 .
  have "length J = length (map doc_data J)" by simp
  also have "\<dots> = count_links data"
    unfolding j count_links_def by (rule length_joins_of [OF lM])
  finally show "count_documents ?w (databaseId cfg) (menuCustomizationsCollectionId cfg) =
      count_links data"
    unfolding count_documents_def d4 .
  show "store_env ?w = store_env (world s)" by (rule env)
qed

text \<open>
  Claim C2, as the script has it. On a reference store that holds no record and refuses
  no request, and whose listings return every record the dataset gives rise to (no page
  limit, or one that no collection of the dataset exceeds), seeding twice in succession
  leaves as many categories, customizations, menu items and join records as seeding
  once: as many as the dataset has.
\<close>

theorem seed_twice_same_counts:
  assumes cfg: "four_collections cfg"
    and sched: "settles_each_once sched"
    and idle: "\<not> isSeeding s"
    and empty: "documents (world s) = (\<lambda>key. [])"
    and ok: "fault (world s) = no_fault"
    and page: "case page_limit (world s) of
        None \<Rightarrow> True
      | Some n \<Rightarrow> length (data_categories data) \<le> n \<and> length (data_customizations data) \<le> n
          \<and> length (data_menu data) \<le> n \<and> count_links data \<le> n"
  shows "count_documents (world (snd (seed (store_sdk sched) cfg data
            (snd (seed (store_sdk sched) cfg data s))))) (databaseId cfg) (categoriesCollectionId cfg) =
         count_documents (world (snd (seed (store_sdk sched) cfg data s)))
            (databaseId cfg) (categoriesCollectionId cfg)
    \<and> count_documents (world (snd (seed (store_sdk sched) cfg data
            (snd (seed (store_sdk sched) cfg data s))))) (databaseId cfg) (customizationsCollectionId cfg) =
         count_documents (world (snd (seed (store_sdk sched) cfg data s)))
            (databaseId cfg) (customizationsCollectionId cfg)
    \<and> count_documents (world (snd (seed (store_sdk sched) cfg data
            (snd (seed (store_sdk sched) cfg data s))))) (databaseId cfg) (menuCollectionId cfg) =
         count_documents (world (snd (seed (store_sdk sched) cfg data s)))
            (databaseId cfg) (menuCollectionId cfg)
    \<and> count_documents (world (snd (seed (store_sdk sched) cfg data
            (snd (seed (store_sdk sched) cfg data s))))) (databaseId cfg)
            (menuCustomizationsCollectionId cfg) =
         count_documents (world (snd (seed (store_sdk sched) cfg data s)))
            (databaseId cfg) (menuCustomizationsCollectionId cfg)
    \<and> count_documents (world (snd (seed (store_sdk sched) cfg data s)))
            (databaseId cfg) (categoriesCollectionId cfg) = length (data_categories data)
    \<and> count_documents (world (snd (seed (store_sdk sched) cfg data s)))
            (databaseId cfg) (customizationsCollectionId cfg) = length (data_customizations data)
    \<and> count_documents (world (snd (seed (store_sdk sched) cfg data s)))
            (databaseId cfg) (menuCollectionId cfg) = length (data_menu data)
    \<and> count_documents (world (snd (seed (store_sdk sched) cfg data s)))
            (databaseId cfg) (menuCustomizationsCollectionId cfg) = count_links data"
proof -
  let ?R = "store_sdk sched"
  let ?colls = "[categoriesCollectionId cfg, customizationsCollectionId cfg,
        menuCollectionId cfg, menuCustomizationsCollectionId cfg]"
  define s1 where "s1 = snd (seed ?R cfg data s)"
  have whole: "\<forall>coll\<in>set ?colls. whole_listing (world s) (databaseId cfg, coll)"
    by (simp add: whole_listing_empty empty)
  note first = seed_store_counts [OF sched idle ok cfg whole, of data, folded s1_def]
  have idle1: "\<not> isSeeding s1"
    unfolding s1_def by (rule seed_world(2) [OF idle])
  have ok1: "fault (world s1) = no_fault" and page1: "page_limit (world s1) = page_limit (world s)"
    using first(5) ok by (simp_all add: store_env_def)
  have whole1: "\<forall>coll\<in>set ?colls. whole_listing (world s1) (databaseId cfg, coll)"
    using page first(1-4)
    by (auto simp: whole_listing_def page1 count_documents_def split: option.splits)
  note second = seed_store_counts [OF sched idle1 ok1 cfg whole1, of data]
  from first(1-4) second(1-4) show ?thesis
    unfolding s1_def by simp
qed

theorem seed_twice_same_counts_counterexample:
  "count_documents (world (snd (seed (store_sdk id) demo_config two_category_data
      (idle (empty_store (Some 1) no_fault offline))))) ''db'' ''categories'' = 2
   \<and> count_documents (world (snd (seed (store_sdk id) demo_config two_category_data
      (snd (seed (store_sdk id) demo_config two_category_data
        (idle (empty_store (Some 1) no_fault offline))))))) ''db'' ''categories'' = 3"
  by (simp add: run_defs store_defs demo_defs count_documents_def)

theorem seed_twice_same_counts_witness:
  "count_documents (world (snd (seed (store_sdk id) demo_config demo_data
      (snd (seed (store_sdk id) demo_config demo_data (idle (empty_store (Some 25) no_fault online))))))) ''db'' ''categories'' = 2
   \<and> count_documents (world (snd (seed (store_sdk id) demo_config demo_data
      (snd (seed (store_sdk id) demo_config demo_data (idle (empty_store (Some 25) no_fault online))))))) ''db'' ''customizations'' = 1
   \<and> count_documents (world (snd (seed (store_sdk id) demo_config demo_data
      (snd (seed (store_sdk id) demo_config demo_data (idle (empty_store (Some 25) no_fault online))))))) ''db'' ''menu'' = 1
   \<and> count_documents (world (snd (seed (store_sdk id) demo_config demo_data
      (snd (seed (store_sdk id) demo_config demo_data (idle (empty_store (Some 25) no_fault online))))))) ''db'' ''menu_customizations'' = 1"
proof -
  let ?s = "idle (empty_store (Some 25) no_fault online)"
  have cfg: "databaseId demo_config = ''db''" "categoriesCollectionId demo_config = ''categories''"
    "customizationsCollectionId demo_config = ''customizations''"
    "menuCollectionId demo_config = ''menu''"
    "menuCustomizationsCollectionId demo_config = ''menu_customizations''"
    by (simp_all add: demo_config_def)
  have four: "four_collections demo_config"
    by (simp add: four_collections_def demo_config_def)
  have st: "\<not> isSeeding ?s" "documents (world ?s) = (\<lambda>key. [])" "fault (world ?s) = no_fault"
    by (simp_all add: idle_def empty_store_def)
  have page: "case page_limit (world ?s) of
        None \<Rightarrow> True
      | Some n \<Rightarrow> length (data_categories demo_data) \<le> n
          \<and> length (data_customizations demo_data) \<le> n
          \<and> length (data_menu demo_data) \<le> n \<and> count_links demo_data \<le> n"
    by (simp add: idle_def empty_store_def demo_data_def margherita_def count_links_def)
  from seed_twice_same_counts [OF four settles_each_once_id(1) st page]
  show ?thesis
    unfolding cfg by (simp add: demo_data_def margherita_def count_links_def)
qed

end
